theory Spec2Isabelle
  imports Complex_Main "HOL-Library.Sublist"
begin

section \<open>Python values used by the statement parsers\<close>

text \<open>
  The two parsers, \<^verbatim>\<open>parsers/rakbank.py\<close> and \<^verbatim>\<open>parsers/emiratesislamic.py\<close>, walk the
  text of a statement line by line. Their text is modelled as \<open>string\<close>: the bytes of
  the UTF-8 text. The operations of \<^verbatim>\<open>str\<close> and \<^verbatim>\<open>re\<close> below are written out for the
  ASCII characters; a byte above 127 is a character that is no space, no digit, no letter
  of \<^verbatim>\<open>[A-Za-z]\<close> and has no other case, which is what Python does with Arabic letters.
  Python's classes are wider than that in two places: \<^verbatim>\<open>str.strip\<close>, \<^verbatim>\<open>\s\<close> and
  \<^verbatim>\<open>strptime\<close> take U+00A0 and the other Unicode spaces for white space, and \<^verbatim>\<open>\d\<close>,
  \<^verbatim>\<open>int\<close> and \<^verbatim>\<open>float\<close> read the decimal digits of other scripts. On a line with such
  a character the model is not the program. Every line that is evaluated below is ASCII.

  Exceptions are values: a function that may raise returns \<open>py_error + 'a\<close>.
\<close>

datatype py_error = ValueError | TypeError | AttributeError

subsection \<open>Characters and \<^verbatim>\<open>str\<close> methods\<close>

definition is_digit :: "char \<Rightarrow> bool" where
  "is_digit c = (let n = (of_char c :: int) in 48 \<le> n \<and> n \<le> 57)"

definition is_upper :: "char \<Rightarrow> bool" where
  "is_upper c = (let n = (of_char c :: int) in 65 \<le> n \<and> n \<le> 90)"

definition is_lower :: "char \<Rightarrow> bool" where
  "is_lower c = (let n = (of_char c :: int) in 97 \<le> n \<and> n \<le> 122)"

definition is_alpha :: "char \<Rightarrow> bool" where
  "is_alpha c = (is_upper c \<or> is_lower c)"

text \<open>\<^verbatim>\<open>str.isspace\<close> on ASCII: tab, LF, VT, FF, CR, the separators 0x1C to 0x1F, space.\<close>

definition is_space :: "char \<Rightarrow> bool" where
  "is_space c = (let n = (of_char c :: int) in (9 \<le> n \<and> n \<le> 13) \<or> (28 \<le> n \<and> n \<le> 32))"

definition lower_char :: "char \<Rightarrow> char" where
  "lower_char c = (if is_upper c then char_of (of_char c + (32::int)) else c)"

text \<open>\<^verbatim>\<open>s.lower()\<close>\<close>

definition lower :: "string \<Rightarrow> string" where
  "lower s = map lower_char s"

text \<open>\<^verbatim>\<open>s.strip(chars)\<close> for a set of characters, and \<^verbatim>\<open>s.strip()\<close>.\<close>

definition strip_where :: "(char \<Rightarrow> bool) \<Rightarrow> string \<Rightarrow> string" where
  "strip_where p s = rev (dropWhile p (rev (dropWhile p s)))"

definition strip :: "string \<Rightarrow> string" where
  "strip s = strip_where is_space s"

definition strip_chars :: "string \<Rightarrow> string \<Rightarrow> string" where
  "strip_chars cs s = strip_where (\<lambda>c. c \<in> set cs) s"

text \<open>\<^verbatim>\<open>k in s\<close> for two strings: \<open>k\<close> occurs in \<open>s\<close> as a contiguous piece.\<close>

fun contains :: "string \<Rightarrow> string \<Rightarrow> bool" where
  "contains k [] = (k = [])"
| "contains k (x # xs) = (prefix k (x # xs) \<or> contains k xs)"

text \<open>\<^verbatim>\<open>any(k in s for k in ks)\<close>\<close>

definition any_in :: "string list \<Rightarrow> string \<Rightarrow> bool" where
  "any_in ks s = list_ex (\<lambda>k. contains k s) ks"

text \<open>
  \<^verbatim>\<open>s.replace(old, new)\<close>: every occurrence of \<open>old\<close>, left to right, without overlap.
  An empty \<open>old\<close> matches before every character and at the end.
\<close>

fun replace :: "string \<Rightarrow> string \<Rightarrow> string \<Rightarrow> string" where
  "replace old new [] = (if old = [] then new else [])"
| "replace old new (x # xs) =
     (if old = [] then new @ x # replace old new xs
      else if prefix old (x # xs) then new @ replace old new (drop (length old) (x # xs))
      else x # replace old new xs)"

text \<open>\<^verbatim>\<open>sep.join(xs)\<close>\<close>

fun join :: "string \<Rightarrow> string list \<Rightarrow> string" where
  "join sep [] = []"
| "join sep [x] = x"
| "join sep (x # y # ys) = x @ sep @ join sep (y # ys)"

text \<open>
  \<^verbatim>\<open>s.splitlines()\<close>: the line boundaries in ASCII are LF, CR, CR LF, VT, FF and the
  separators 0x1C, 0x1D, 0x1E; the boundaries are dropped, and text after the last
  boundary is a line only when it is not empty.
\<close>

definition is_linebreak :: "char \<Rightarrow> bool" where
  "is_linebreak c = (let n = (of_char c :: int) in (10 \<le> n \<and> n \<le> 13) \<or> (28 \<le> n \<and> n \<le> 30))"

fun splitlines_from :: "string \<Rightarrow> string \<Rightarrow> string list" where
  "splitlines_from cur [] = (if cur = [] then [] else [cur])"
| "splitlines_from cur [x] = (if is_linebreak x then [cur] else [cur @ [x]])"
| "splitlines_from cur (x # y # ys) =
     (if x = CHR 0x0D \<and> y = CHR 0x0A then cur # splitlines_from [] ys
      else if is_linebreak x then cur # splitlines_from [] (y # ys)
      else splitlines_from (cur @ [x]) (y # ys))"

definition splitlines :: "string \<Rightarrow> string list" where
  "splitlines s = splitlines_from [] s"

text \<open>Truth value of a \<^verbatim>\<open>str | None\<close>: \<^verbatim>\<open>None\<close> and the empty string are false.\<close>

fun truthy :: "string option \<Rightarrow> bool" where
  "truthy None = False"
| "truthy (Some s) = (s \<noteq> [])"

subsection \<open>\<^verbatim>\<open>int(s)\<close> and \<^verbatim>\<open>float(s)\<close>\<close>

text \<open>The number a string of digits denotes.\<close>

definition digit_val :: "char \<Rightarrow> int" where
  "digit_val c = of_char c - 48"

definition digits_int :: "string \<Rightarrow> int" where
  "digits_int ds = foldl (\<lambda>a c. 10 * a + digit_val c) 0 ds"

text \<open>An optional sign in front: whether it is a minus, and the rest.\<close>

fun sign_split :: "string \<Rightarrow> bool \<times> string" where
  "sign_split [] = (False, [])"
| "sign_split (x # xs) =
     (if x = CHR ''-'' then (True, xs) else if x = CHR ''+'' then (False, xs) else (False, x # xs))"

text \<open>
  Underscores in a numeric literal: each one stands between two digits. \<open>prev\<close> is the
  character before, 0 at the start.
\<close>

fun underscores_ok :: "char \<Rightarrow> string \<Rightarrow> bool" where
  "underscores_ok prev [] = (prev \<noteq> CHR ''_'')"
| "underscores_ok prev (x # xs) =
     (if x = CHR ''_'' then is_digit prev \<and> underscores_ok x xs
      else (prev = CHR ''_'' \<longrightarrow> is_digit x) \<and> underscores_ok x xs)"

definition drop_underscores :: "string \<Rightarrow> string option" where
  "drop_underscores s =
     (if CHR ''_'' \<in> set s
      then (if underscores_ok (CHR 0x00) s then Some (filter (\<lambda>c. c \<noteq> CHR ''_'') s) else None)
      else Some s)"

text \<open>\<^verbatim>\<open>int(s)\<close> in base 10: spaces around, a sign, digits with underscores between them.\<close>

definition py_int :: "string \<Rightarrow> py_error + int" where
  "py_int s =
     (let (neg, body) = sign_split (strip s) in
      case drop_underscores body of
        None \<Rightarrow> Inl ValueError
      | Some ds \<Rightarrow>
          if ds \<noteq> [] \<and> list_all is_digit ds
          then Inr (if neg then - digits_int ds else digits_int ds)
          else Inl ValueError)"

text \<open>
  A Python \<^verbatim>\<open>float\<close>. A finite float is represented by the real number its literal
  denotes; the rounding of binary64 (and with it overflow to infinity and underflow to
  zero) is not modelled. \<open>0.0\<close> is \<open>Fin 0\<close>.
\<close>

datatype pyfloat = Fin real | Infty bool | NaN

text \<open>
  The decimal literal that \<^verbatim>\<open>float\<close> reads after the sign: digits, an optional point and
  digits, at least one digit in all, then an optional exponent \<^verbatim>\<open>e\<close>, sign, digits.
  Anything left over is an error.
\<close>

definition parse_exponent :: "string \<Rightarrow> (bool \<times> nat) option" where
  "parse_exponent r =
     (case r of
        [] \<Rightarrow> Some (False, 0)
      | e # r' \<Rightarrow>
          if e = CHR ''e'' \<or> e = CHR ''E'' then
            (let (neg, ds) = sign_split r' in
             if ds \<noteq> [] \<and> list_all is_digit ds then Some (neg, nat (digits_int ds)) else None)
          else None)"

definition parse_decimal :: "string \<Rightarrow> real option" where
  "parse_decimal s =
     (let ip = takeWhile is_digit s;
          r1 = dropWhile is_digit s;
          fp = (case r1 of [] \<Rightarrow> [] | x # r \<Rightarrow> if x = CHR ''.'' then takeWhile is_digit r else []);
          r2 = (case r1 of [] \<Rightarrow> [] | x # r \<Rightarrow> if x = CHR ''.'' then dropWhile is_digit r else r1)
      in if ip = [] \<and> fp = [] then None
         else case parse_exponent r2 of
                None \<Rightarrow> None
              | Some (neg, e) \<Rightarrow>
                  Some (if neg then real_of_int (digits_int (ip @ fp)) / 10 ^ (length fp + e)
                        else real_of_int (digits_int (ip @ fp)) * 10 ^ e / 10 ^ length fp))"

definition py_float :: "string \<Rightarrow> py_error + pyfloat" where
  "py_float s =
     (case drop_underscores (strip s) of
        None \<Rightarrow> Inl ValueError
      | Some t \<Rightarrow>
          (let (neg, body) = sign_split t in
           if lower body = ''inf'' \<or> lower body = ''infinity'' then Inr (Infty neg)
           else if lower body = ''nan'' then Inr NaN
           else case parse_decimal body of
                  None \<Rightarrow> Inl ValueError
                | Some v \<Rightarrow> Inr (Fin (if neg then - v else v))))"

text \<open>Addition of floats, for the totals of the summary.\<close>

fun float_add :: "pyfloat \<Rightarrow> pyfloat \<Rightarrow> pyfloat" where
  "float_add (Fin a) (Fin b) = Fin (a + b)"
| "float_add NaN _ = NaN"
| "float_add _ NaN = NaN"
| "float_add (Infty a) (Infty b) = (if a = b then Infty a else NaN)"
| "float_add (Infty a) (Fin _) = Infty a"
| "float_add (Fin _) (Infty b) = Infty b"

subsection \<open>Regular expressions of the \<^verbatim>\<open>re\<close> module\<close>

text \<open>
  The parsers recognise lines with \<^verbatim>\<open>re\<close> patterns. A pattern is a value of \<open>rx\<close>, and
  \<open>rx_match\<close> is the backtracking matcher of \<^verbatim>\<open>re\<close>: it tries the alternatives in the
  order of the pattern (left alternative first, a greedy repetition the longer match
  first, a lazy one the shorter first) and hands every way to match to the continuation
  \<open>k\<close>, which is the rest of the pattern; the first success is the result. \<open>Grp n\<close> is the
  \<open>n\<close>-th capturing group. \<open>Eol\<close> is \<^verbatim>\<open>$\<close>: the end of the text, or just before a final LF.
  \<^verbatim>\<open>^\<close> is left out of the patterns, all of which are used with \<^verbatim>\<open>match\<close> where they have it.
\<close>

datatype rx =
    Eps
  | Ch "char \<Rightarrow> bool"
  | Cat rx rx
  | Alt rx rx
  | Star bool rx
  | Grp nat rx
  | Eol

type_synonym caps = "nat \<rightharpoonup> string"

fun rx_match :: "rx \<Rightarrow> string \<Rightarrow> caps \<Rightarrow> (string \<Rightarrow> caps \<Rightarrow> 'a option) \<Rightarrow> 'a option" where
  "rx_match Eps s c k = k s c"
| "rx_match (Ch p) s c k = (case s of [] \<Rightarrow> None | x # xs \<Rightarrow> if p x then k xs c else None)"
| "rx_match (Cat a b) s c k = rx_match a s c (\<lambda>s' c'. rx_match b s' c' k)"
| "rx_match (Alt a b) s c k =
     (case rx_match a s c k of Some r \<Rightarrow> Some r | None \<Rightarrow> rx_match b s c k)"
| "rx_match (Star greedy r) s c k =
     (if greedy then
        (case rx_match r s c
                (\<lambda>s' c'. if length s' < length s then rx_match (Star greedy r) s' c' k else None) of
           Some x \<Rightarrow> Some x
         | None \<Rightarrow> k s c)
      else
        (case k s c of
           Some x \<Rightarrow> Some x
         | None \<Rightarrow>
             rx_match r s c
               (\<lambda>s' c'. if length s' < length s then rx_match (Star greedy r) s' c' k else None)))"
| "rx_match (Grp n r) s c k =
     rx_match r s c (\<lambda>s' c'. k s' (c'(n \<mapsto> take (length s - length s') s)))"
| "rx_match Eol s c k = (if s = [] \<or> s = [CHR 0x0A] then k s c else None)"

text \<open>The groups that occur in a pattern.\<close>

fun rx_groups :: "rx \<Rightarrow> nat set" where
  "rx_groups Eps = {}"
| "rx_groups (Ch p) = {}"
| "rx_groups (Cat a b) = rx_groups a \<union> rx_groups b"
| "rx_groups (Alt a b) = rx_groups a \<union> rx_groups b"
| "rx_groups (Star g r) = rx_groups r"
| "rx_groups (Grp n r) = insert n (rx_groups r)"
| "rx_groups Eol = {}"

text \<open>The groups that every match of a pattern sets.\<close>

fun rx_required :: "rx \<Rightarrow> nat set" where
  "rx_required Eps = {}"
| "rx_required (Ch p) = {}"
| "rx_required (Cat a b) = rx_required a \<union> rx_required b"
| "rx_required (Alt a b) = rx_required a \<inter> rx_required b"
| "rx_required (Star g r) = {}"
| "rx_required (Grp n r) = insert n (rx_required r)"
| "rx_required Eol = {}"

text \<open>
  \<^verbatim>\<open>pattern.match(s)\<close>: the match at the start of \<open>s\<close>, as the text left after it and
  the groups. \<^verbatim>\<open>pattern.search(s)\<close>: the first position with a match.
\<close>

definition re_match :: "rx \<Rightarrow> string \<Rightarrow> (string \<times> caps) option" where
  "re_match r s = rx_match r s Map.empty (\<lambda>s' c. Some (s', c))"

fun re_search :: "rx \<Rightarrow> string \<Rightarrow> (string \<times> caps) option" where
  "re_search r [] = re_match r []"
| "re_search r (x # xs) =
     (case re_match r (x # xs) of Some m \<Rightarrow> Some m | None \<Rightarrow> re_search r xs)"

text \<open>
  \<^verbatim>\<open>re.sub(pattern, r'\1', s)\<close>: every match, left to right, is replaced by its group 1.
  After a match that took no character the scan moves on by one character.
\<close>

function re_sub_group1 :: "rx \<Rightarrow> string \<Rightarrow> string" where
  "re_sub_group1 r s =
     (case re_match r s of
        None \<Rightarrow> (case s of [] \<Rightarrow> [] | x # xs \<Rightarrow> x # re_sub_group1 r xs)
      | Some (rest, c) \<Rightarrow>
          (let g = (case c 1 of None \<Rightarrow> [] | Some t \<Rightarrow> t) in
           if length rest < length s then g @ re_sub_group1 r rest
           else (case s of [] \<Rightarrow> g | x # xs \<Rightarrow> g @ x # re_sub_group1 r xs)))"
  by pat_completeness auto
termination
  by (relation "measure (\<lambda>(r, s). length s)") auto

declare re_sub_group1.simps [simp del]

text \<open>Pattern syntax: sequences, alternatives, literals, \<^verbatim>\<open>+\<close>, \<^verbatim>\<open>+?\<close>, \<^verbatim>\<open>*\<close>, \<^verbatim>\<open>?\<close>, \<^verbatim>\<open>{m,n}\<close>.\<close>

fun rx_seq :: "rx list \<Rightarrow> rx" where
  "rx_seq [] = Eps"
| "rx_seq [r] = r"
| "rx_seq (r # rs) = Cat r (rx_seq rs)"

fun rx_alts :: "rx list \<Rightarrow> rx" where
  "rx_alts [] = Eps"
| "rx_alts [r] = r"
| "rx_alts (r # rs) = Alt r (rx_alts rs)"

text \<open>A literal, and a literal under \<^verbatim>\<open>re.IGNORECASE\<close>.\<close>

definition rx_lit :: "string \<Rightarrow> rx" where
  "rx_lit s = rx_seq (map (\<lambda>c. Ch (\<lambda>x. x = c)) s)"

definition rx_lit_i :: "string \<Rightarrow> rx" where
  "rx_lit_i s = rx_seq (map (\<lambda>c. Ch (\<lambda>x. lower_char x = lower_char c)) s)"

definition rx_plus :: "rx \<Rightarrow> rx" where
  "rx_plus r = Cat r (Star True r)"

definition rx_plus_lazy :: "rx \<Rightarrow> rx" where
  "rx_plus_lazy r = Cat r (Star False r)"

definition rx_star :: "rx \<Rightarrow> rx" where
  "rx_star r = Star True r"

definition rx_opt :: "rx \<Rightarrow> rx" where
  "rx_opt r = Alt r Eps"

text \<open>\<^verbatim>\<open>r{m,n}\<close>, greedy: \<open>m\<close> times \<open>r\<close>, then up to \<open>n - m\<close> more.\<close>

fun rx_rep :: "nat \<Rightarrow> nat \<Rightarrow> rx \<Rightarrow> rx" where
  "rx_rep 0 0 r = Eps"
| "rx_rep 0 (Suc n) r = Alt (Cat r (rx_rep 0 n r)) Eps"
| "rx_rep (Suc m) n r = Cat r (rx_rep m (n - 1) r)"

text \<open>
  \<^verbatim>\<open>\d\<close>, \<^verbatim>\<open>\s\<close>, \<^verbatim>\<open>.\<close>, \<^verbatim>\<open>[\d,]\<close>, and \<^verbatim>\<open>[A-Z]\<close> under \<^verbatim>\<open>re.IGNORECASE\<close> (or \<^verbatim>\<open>[A-Za-z]\<close>).
  \<^verbatim>\<open>.\<close> takes one character that is no line feed; in the UTF-8 text a character above 127
  is a lead byte with its continuation bytes, 0x80 to 0xBF, behind it.
\<close>

definition rx_digit :: rx where
  "rx_digit = Ch is_digit"

definition rx_space :: rx where
  "rx_space = Ch is_space"

definition rx_dot :: rx where
  "rx_dot =
     Alt (Ch (\<lambda>c. c \<noteq> CHR 0x0A \<and> (of_char c :: int) < 128))
         (Cat (Ch (\<lambda>c. (192 :: int) \<le> of_char c))
              (Star True (Ch (\<lambda>c. (128 :: int) \<le> of_char c \<and> (of_char c :: int) < 192))))"

definition rx_digit_comma :: rx where
  "rx_digit_comma = Ch (\<lambda>c. is_digit c \<or> c = CHR 0x2C)"

definition rx_letter :: rx where
  "rx_letter = Ch is_alpha"

definition rx_range :: "char \<Rightarrow> char \<Rightarrow> rx" where
  "rx_range a b = Ch (\<lambda>c. (of_char a :: int) \<le> of_char c \<and> (of_char c :: int) \<le> of_char b)"

subsection \<open>Dates of the \<^verbatim>\<open>datetime\<close> module\<close>

record date =
  year :: int
  month :: int
  day :: int

definition is_leap :: "int \<Rightarrow> bool" where
  "is_leap y = (y mod 4 = 0 \<and> (y mod 100 \<noteq> 0 \<or> y mod 400 = 0))"

definition days_in_month :: "int \<Rightarrow> int \<Rightarrow> int" where
  "days_in_month y m =
     (if m = 2 then (if is_leap y then 29 else 28)
      else if m = 4 \<or> m = 6 \<or> m = 9 \<or> m = 11 then 30 else 31)"

text \<open>\<^verbatim>\<open>datetime(y, m, d)\<close>: a \<^verbatim>\<open>ValueError\<close> for a date that does not exist.\<close>

definition make_date :: "int \<Rightarrow> int \<Rightarrow> int \<Rightarrow> py_error + date" where
  "make_date y m d =
     (if 1 \<le> y \<and> y \<le> 9999 \<and> 1 \<le> m \<and> m \<le> 12 \<and> 1 \<le> d \<and> d \<le> days_in_month y m
      then Inr \<lparr>year = y, month = m, day = d\<rparr>
      else Inl ValueError)"

text \<open>\<^verbatim>\<open>dt.replace(year=y)\<close>\<close>

definition replace_year :: "date \<Rightarrow> int \<Rightarrow> py_error + date" where
  "replace_year dt y = make_date y (month dt) (day dt)"

text \<open>
  \<^verbatim>\<open>dt.isoformat()\<close> of a date: four digits of the year, two of the month, two of the day.
  \<^verbatim>\<open>dt.strftime("%Y-%m-%d")\<close> hands the format to the C library, and \<^verbatim>\<open>%Y\<close> of the
  C library of Linux writes the year without leading zeros: \<^verbatim>\<open>999-08-14\<close> for the year 999.
  From the year 1000 on the two texts are the same.
\<close>

definition digit_char :: "int \<Rightarrow> char" where
  "digit_char n = char_of (48 + n)"

definition pad2 :: "int \<Rightarrow> string" where
  "pad2 n = [digit_char (n div 10 mod 10), digit_char (n mod 10)]"

definition pad4 :: "int \<Rightarrow> string" where
  "pad4 n = [digit_char (n div 1000 mod 10), digit_char (n div 100 mod 10),
             digit_char (n div 10 mod 10), digit_char (n mod 10)]"

definition isoformat :: "date \<Rightarrow> string" where
  "isoformat dt = pad4 (year dt) @ ''-'' @ pad2 (month dt) @ ''-'' @ pad2 (day dt)"

definition year_unpadded :: "int \<Rightarrow> string" where
  "year_unpadded y = dropWhile (\<lambda>c. c = CHR ''0'') (pad4 y)"

definition strftime_ymd :: "date \<Rightarrow> string" where
  "strftime_ymd dt = year_unpadded (year dt) @ ''-'' @ pad2 (month dt) @ ''-'' @ pad2 (day dt)"

text \<open>
  \<^verbatim>\<open>datetime.strptime(s, fmt)\<close> turns the format into a pattern, as \<^verbatim>\<open>_strptime\<close> does:
  a directive becomes a group (1 for \<^verbatim>\<open>%d\<close>, 2 for \<^verbatim>\<open>%m\<close>, 3 for \<^verbatim>\<open>%Y\<close>, 4 for \<^verbatim>\<open>%b\<close>, 5 for
  \<^verbatim>\<open>%B\<close>), a run of spaces becomes \<^verbatim>\<open>\s+\<close>, any other character stands for itself, and case
  is ignored. The pattern has to match all of \<open>s\<close>. The month names are those of the
  English locale. The directives modelled are the five that the parsers use; any other
  is refused like a bad directive.
\<close>

definition month_abbr :: "string list" where
  "month_abbr = ['''', ''jan'', ''feb'', ''mar'', ''apr'', ''may'', ''jun'',
                 ''jul'', ''aug'', ''sep'', ''oct'', ''nov'', ''dec'']"

definition month_name :: "string list" where
  "month_name = ['''', ''january'', ''february'', ''march'', ''april'', ''may'', ''june'',
                 ''july'', ''august'', ''september'', ''october'', ''november'', ''december'']"

text \<open>\<^verbatim>\<open>xs.index(x)\<close>, for an \<open>x\<close> that is in the list.\<close>

fun index_of :: "'a \<Rightarrow> 'a list \<Rightarrow> int" where
  "index_of x [] = 0"
| "index_of x (y # ys) = (if x = y then 0 else 1 + index_of x ys)"

text \<open>
  \<^verbatim>\<open>%d\<close> is \<^verbatim>\<open>(3[0-1]|[1-2]\d|0[1-9]|[1-9]| [1-9])\<close>, \<^verbatim>\<open>%m\<close> is \<^verbatim>\<open>(1[0-2]|0[1-9]|[1-9])\<close>, \<^verbatim>\<open>%Y\<close> is
  \<^verbatim>\<open>(\d\d\d\d)\<close>, \<^verbatim>\<open>%b\<close> and \<^verbatim>\<open>%B\<close> are the alternatives of the month names.
\<close>

definition rx_directive_d :: rx where
  "rx_directive_d =
     Grp 1 (rx_alts
       [Cat (rx_lit ''3'') (rx_range (CHR ''0'') (CHR ''1'')),
        Cat (rx_range (CHR ''1'') (CHR ''2'')) rx_digit,
        Cat (rx_lit ''0'') (rx_range (CHR ''1'') (CHR ''9'')),
        rx_range (CHR ''1'') (CHR ''9''),
        Cat (rx_lit '' '') (rx_range (CHR ''1'') (CHR ''9''))])"

definition rx_directive_m :: rx where
  "rx_directive_m =
     Grp 2 (rx_alts
       [Cat (rx_lit ''1'') (rx_range (CHR ''0'') (CHR ''2'')),
        Cat (rx_lit ''0'') (rx_range (CHR ''1'') (CHR ''9'')),
        rx_range (CHR ''1'') (CHR ''9'')])"

definition rx_directive_Y :: rx where
  "rx_directive_Y = Grp 3 (rx_rep 4 4 rx_digit)"

definition rx_directive_b :: rx where
  "rx_directive_b = Grp 4 (rx_alts (map rx_lit_i (tl month_abbr)))"

definition rx_directive_B :: rx where
  "rx_directive_B = Grp 5 (rx_alts (map rx_lit_i (tl month_name)))"

definition directive_rx :: "char \<Rightarrow> rx option" where
  "directive_rx d =
     (if d = CHR ''d'' then Some rx_directive_d
      else if d = CHR ''m'' then Some rx_directive_m
      else if d = CHR ''Y'' then Some rx_directive_Y
      else if d = CHR ''b'' then Some rx_directive_b
      else if d = CHR ''B'' then Some rx_directive_B
      else None)"

function strptime_rx :: "string \<Rightarrow> rx option" where
  "strptime_rx [] = Some Eps"
| "strptime_rx (c # cs) =
     (if c = CHR ''%'' then
        (case cs of
           [] \<Rightarrow> None
         | d # r \<Rightarrow>
             (case directive_rx d of
                None \<Rightarrow> None
              | Some x \<Rightarrow> map_option (Cat x) (strptime_rx r)))
      else if is_space c then map_option (Cat (rx_plus rx_space)) (strptime_rx (dropWhile is_space cs))
      else map_option (Cat (rx_lit_i [c])) (strptime_rx cs))"
  by pat_completeness auto
termination
  by (relation "measure length") (auto simp: less_Suc_eq_le length_dropWhile_le)

definition strptime :: "string \<Rightarrow> string \<Rightarrow> py_error + date" where
  "strptime s fmt =
     (case strptime_rx fmt of
        None \<Rightarrow> Inl ValueError
      | Some r \<Rightarrow>
          (case re_match r s of
             None \<Rightarrow> Inl ValueError
           | Some (rest, c) \<Rightarrow>
               if rest \<noteq> [] then Inl ValueError
               else
                 (let y = (case c 3 of Some t \<Rightarrow> digits_int t | None \<Rightarrow> 1900);
                      m = (case c 2 of
                             Some t \<Rightarrow> digits_int t
                           | None \<Rightarrow>
                               (case c 4 of
                                  Some t \<Rightarrow> index_of (lower t) month_abbr
                                | None \<Rightarrow>
                                    (case c 5 of
                                       Some t \<Rightarrow> index_of (lower t) month_name
                                     | None \<Rightarrow> 1)));
                      d = (case c 1 of Some t \<Rightarrow> digits_int (strip t) | None \<Rightarrow> 1)
                  in make_date y m d)))"

section \<open>The helpers of \<^verbatim>\<open>common.pdf_utils\<close>\<close>

text \<open>
  Both parsers import \<^verbatim>\<open>open_pdf_safe\<close>, \<^verbatim>\<open>normalize_date\<close>, \<^verbatim>\<open>normalize_transactions\<close> and
  \<^verbatim>\<open>summarize_transactions\<close> from \<^verbatim>\<open>common.pdf_utils\<close>, a module that is not among the
  sources at hand.

  \<^verbatim>\<open>open_pdf_safe(file_path, password)\<close> is the document source. What it returns is the
  input of the model: either a dict (the failure value carries the key \<^verbatim>\<open>"error"\<close>), or a
  document, which is the list of what \<^verbatim>\<open>page.extract_text()\<close> gives for each page, a
  string or \<^verbatim>\<open>None\<close>.
\<close>

datatype pdf_source =
    PdfDict "string \<rightharpoonup> string"
  | PdfPages "string option list"

text \<open>A transaction is the dict that a parser appends; a key that a parser leaves out is \<open>None\<close>.\<close>

record transaction =
  transaction_date :: "string option"
  description :: string
  debit :: pyfloat
  credit :: pyfloat
  amount :: pyfloat
  balance :: "pyfloat option"
  bank :: string
  card_type :: string
  fx_currency :: "string option"
  fx_amount :: "pyfloat option"
  fx_rate :: "pyfloat option"

record summary_totals =
  total_debit :: pyfloat
  total_credit :: pyfloat
  count :: nat

text \<open>
  Modelled from the spec: \<^verbatim>\<open>normalize_date(s, fmt)\<close> of \<^verbatim>\<open>common.pdf_utils\<close> is missing from
  the sources. The spec has every date of the result in ISO 8601 (\<^verbatim>\<open>YYYY-MM-DD\<close>), and a
  day and month without a year keep the default year of "the day+month parse target",
  which for \<^verbatim>\<open>strptime\<close> is 1900. So the model reads \<open>s\<close> in the format \<open>fmt\<close> and writes the
  date in ISO form; a text that is no date in that format gives \<^verbatim>\<open>None\<close>.
\<close>

definition normalize_date :: "string \<Rightarrow> string \<Rightarrow> string option" where
  "normalize_date s fmt = (case strptime s fmt of Inl _ \<Rightarrow> None | Inr dt \<Rightarrow> Some (isoformat dt))"

text \<open>
  Modelled from the spec: \<^verbatim>\<open>normalize_transactions(transactions, bank, card_type)\<close> of
  \<^verbatim>\<open>common.pdf_utils\<close> is missing from the sources. In the spec the result of a parse
  carries the ordered sequence of the transactions that the line loop emitted, so the
  model returns them as they are.
\<close>

definition normalize_transactions :: "transaction list \<Rightarrow> string \<Rightarrow> string \<Rightarrow> transaction list" where
  "normalize_transactions ts bank_name card_name = ts"

text \<open>
  Modelled from the spec: \<^verbatim>\<open>summarize_transactions(transactions)\<close> of \<^verbatim>\<open>common.pdf_utils\<close> is
  missing from the sources. The spec describes its result as an aggregate: total debit,
  total credit, count.
\<close>

definition summarize_transactions :: "transaction list \<Rightarrow> summary_totals" where
  "summarize_transactions ts =
     \<lparr>total_debit = foldl float_add (Fin 0) (map debit ts),
      total_credit = foldl float_add (Fin 0) (map credit ts),
      count = length ts\<rparr>"

text \<open>
  What a parse returns: the failure value of the document source, unchanged, or the
  result dict.
\<close>

record parse_result =
  result_bank :: string
  result_card_type :: string
  summary :: summary_totals
  result_transactions :: "transaction list"
  from_date :: "string option"
  to_date :: "string option"

datatype parse_output =
    Failure "string \<rightharpoonup> string"
  | Parsed parse_result

text \<open>
  The local variables that both parse functions keep while they walk the lines; each
  parser adds one of its own.
\<close>

record parse_vars =
  transactions :: "transaction list"
  statement_from :: "string option"
  statement_to :: "string option"

text \<open>The lines of a page: \<^verbatim>\<open>(page.extract_text() or "").splitlines()\<close>, stripped, blank ones dropped.\<close>

definition page_lines :: "string option \<Rightarrow> string list" where
  "page_lines page =
     (let text = (case page of None \<Rightarrow> [] | Some t \<Rightarrow> t)
      in filter (\<lambda>ln. ln \<noteq> []) (map strip (splitlines text)))"

section \<open>\<^verbatim>\<open>parsers/rakbank.py\<close>\<close>

definition rakbank_BANK_NAME :: string where
  "rakbank_BANK_NAME = ''RAKBANK''"

definition rakbank_CARD_TYPE :: string where
  "rakbank_CARD_TYPE = ''credit''"

text \<open>\<^verbatim>\<open>\d{1,2}/\d{1,2}/\d{4}\<close>, \<^verbatim>\<open>\d{2}/\d{2}/\d{4}\<close>, \<^verbatim>\<open>[\d,]+.\d{2}\<close> (any character for the point)
  and \<^verbatim>\<open>[\d,]+\.\d{2}\<close>.\<close>

definition rx_date_loose :: rx where
  "rx_date_loose = rx_seq [rx_rep 1 2 rx_digit, rx_lit ''/'', rx_rep 1 2 rx_digit, rx_lit ''/'',
                           rx_rep 4 4 rx_digit]"

definition rx_date_slash :: rx where
  "rx_date_slash = rx_seq [rx_rep 2 2 rx_digit, rx_lit ''/'', rx_rep 2 2 rx_digit, rx_lit ''/'',
                           rx_rep 4 4 rx_digit]"

definition rx_amount_anypoint :: rx where
  "rx_amount_anypoint = rx_seq [rx_plus rx_digit_comma, rx_dot, rx_rep 2 2 rx_digit]"

definition rx_amount :: rx where
  "rx_amount = rx_seq [rx_plus rx_digit_comma, rx_lit ''.'', rx_rep 2 2 rx_digit]"

text \<open>\<^verbatim>\<open>(\d{1,2}/\d{1,2}/\d{4})\s*(?:to|TO|To)\s*(\d{1,2}/\d{1,2}/\d{4})\<close>\<close>

definition STATEMENT_PERIOD_RE :: rx where
  "STATEMENT_PERIOD_RE =
     rx_seq [Grp 1 rx_date_loose, rx_star rx_space,
             rx_alts [rx_lit ''to'', rx_lit ''TO'', rx_lit ''To''], rx_star rx_space,
             Grp 2 rx_date_loose]"

text \<open>
  The AED transaction, under \<^verbatim>\<open>re.IGNORECASE\<close>:
  \<^verbatim>\<open>^(\d{2}/\d{2}/\d{4})\s+(.+?)\s+AED\s+([\d,]+.\d{2})(?:\s*((?:CR|Cr)))?\s+-\s+([\d,]+.\d{2})(?:\s*((?:CR|Cr)))?\s*$\<close>
\<close>

definition RAKBANK_LINE_REGEX :: rx where
  "RAKBANK_LINE_REGEX =
     rx_seq [Grp 1 rx_date_slash, rx_plus rx_space,
             Grp 2 (rx_plus_lazy rx_dot), rx_plus rx_space,
             rx_lit_i ''AED'', rx_plus rx_space,
             Grp 3 rx_amount_anypoint,
             rx_opt (rx_seq [rx_star rx_space, Grp 4 (rx_alts [rx_lit_i ''CR'', rx_lit_i ''Cr''])]),
             rx_plus rx_space,
             rx_lit ''-'', rx_plus rx_space,
             Grp 5 rx_amount_anypoint,
             rx_opt (rx_seq [rx_star rx_space, Grp 6 (rx_alts [rx_lit_i ''CR'', rx_lit_i ''Cr''])]),
             rx_star rx_space, Eol]"

text \<open>
  The FX transaction, under \<^verbatim>\<open>re.IGNORECASE\<close>:
  \<^verbatim>\<open>^(\d{2}/\d{2}/\d{4})\s+([A-Z]{3})\s+([\d,]+\.\d{2})\s+([\d,]+\.\d{2})\s+([\d,]+\.\d{2})(?:\s*(CR|Cr))?$\<close>
\<close>

definition RAKBANK_FX_REGEX :: rx where
  "RAKBANK_FX_REGEX =
     rx_seq [Grp 1 rx_date_slash, rx_plus rx_space,
             Grp 2 (rx_rep 3 3 rx_letter), rx_plus rx_space,
             Grp 3 rx_amount, rx_plus rx_space,
             Grp 4 rx_amount, rx_plus rx_space,
             Grp 5 rx_amount,
             rx_opt (rx_seq [rx_star rx_space, Grp 6 (rx_alts [rx_lit_i ''CR'', rx_lit_i ''Cr''])]),
             Eol]"

definition rakbank_SKIP_KEYWORDS :: "string list" where
  "rakbank_SKIP_KEYWORDS =
     [''opening balance'', ''closing balance'', ''available credit'', ''minimum payment due'',
      ''payment due date'', ''credit limit'']"

definition DROP_HINTS :: "string list" where
  "DROP_HINTS =
     [''your credit card statement'', ''statement period'', ''product name'', ''card number'',
      ''page['']"

text \<open>\<^verbatim>\<open>clean_amount\<close> of \<^verbatim>\<open>rakbank.py\<close>: the \<^verbatim>\<open>float\<close> call is not guarded.\<close>

definition rakbank_clean_amount :: "string option \<Rightarrow> py_error + pyfloat" where
  "rakbank_clean_amount val =
     (case val of
        None \<Rightarrow> Inr (Fin 0)
      | Some v \<Rightarrow>
          if v = [] then Inr (Fin 0)
          else py_float (strip (replace ''Cr'' '''' (replace ''CR'' '''' (replace '','' '''' v)))))"

record rakbank_vars = parse_vars +
  buffer_desc :: "string list"

text \<open>The buffer as a transaction takes it: dropped when its text holds a drop hint.\<close>

definition kept_buffer :: "string list \<Rightarrow> string list" where
  "kept_buffer buf = (if any_in DROP_HINTS (lower (join '' '' buf)) then [] else buf)"

text \<open>\<^verbatim>\<open>"payment" in desc_low or "refund" in desc_low\<close>\<close>

definition rakbank_credit_word :: "string \<Rightarrow> bool" where
  "rakbank_credit_word full_desc =
     (contains ''payment'' (lower full_desc) \<or> contains ''refund'' (lower full_desc))"

text \<open>
  The body of \<^verbatim>\<open>if m:\<close> for an AED line: the dict appended for the groups \<open>c\<close> of the match
  and the buffer \<open>buf\<close>.
\<close>

definition rakbank_aed_transaction :: "string list \<Rightarrow> caps \<Rightarrow> py_error + transaction" where
  "rakbank_aed_transaction buf c =
     (case c 2 of
        None \<Rightarrow> Inl AttributeError
      | Some desc \<Rightarrow>
          (let full_desc = strip (join '' '' (kept_buffer buf @ [strip desc])) in
           case rakbank_clean_amount (c 3) of
             Inl e \<Rightarrow> Inl e
           | Inr amt_val \<Rightarrow>
               (case rakbank_clean_amount (c 5) of
                  Inl e \<Rightarrow> Inl e
                | Inr balance_val \<Rightarrow>
                    (let has_cr_flag = (truthy (c 4) \<or> truthy (c 6));
                         is_credit = (has_cr_flag \<or> rakbank_credit_word full_desc)
                     in Inr \<lparr>transaction_date =
                               (case c 1 of None \<Rightarrow> None | Some d \<Rightarrow> normalize_date d ''%d/%m/%Y''),
                             description = full_desc,
                             debit = (if is_credit then Fin 0 else amt_val),
                             credit = (if is_credit then amt_val else Fin 0),
                             amount = amt_val,
                             balance = Some balance_val,
                             bank = rakbank_BANK_NAME,
                             card_type = rakbank_CARD_TYPE,
                             fx_currency = None, fx_amount = None, fx_rate = None\<rparr>))))"

text \<open>The body of \<^verbatim>\<open>if mfx:\<close> for an FX line; its description is the buffer alone.\<close>

definition rakbank_fx_transaction :: "string list \<Rightarrow> caps \<Rightarrow> py_error + transaction" where
  "rakbank_fx_transaction buf c =
     (let full_desc = strip (join '' '' (kept_buffer buf)) in
      case rakbank_clean_amount (c 3) of
        Inl e \<Rightarrow> Inl e
      | Inr fx_amt_val \<Rightarrow>
          (case rakbank_clean_amount (c 4) of
             Inl e \<Rightarrow> Inl e
           | Inr fx_rate_val \<Rightarrow>
               (case rakbank_clean_amount (c 5) of
                  Inl e \<Rightarrow> Inl e
                | Inr aed_val \<Rightarrow>
                    (let is_credit = (truthy (c 6) \<or> rakbank_credit_word full_desc)
                     in Inr \<lparr>transaction_date =
                               (case c 1 of None \<Rightarrow> None | Some d \<Rightarrow> normalize_date d ''%d/%m/%Y''),
                             description = full_desc,
                             debit = (if is_credit then Fin 0 else aed_val),
                             credit = (if is_credit then aed_val else Fin 0),
                             amount = aed_val,
                             balance = None,
                             bank = rakbank_BANK_NAME,
                             card_type = rakbank_CARD_TYPE,
                             fx_currency = c 2,
                             fx_amount = Some fx_amt_val,
                             fx_rate = Some fx_rate_val\<rparr>))))"

text \<open>The body of \<^verbatim>\<open>for raw in lines:\<close> in \<^verbatim>\<open>parse_rakbank\<close>.\<close>

definition parse_rakbank_line :: "rakbank_vars \<Rightarrow> string \<Rightarrow> py_error + rakbank_vars" where
  "parse_rakbank_line st raw =
     (let low = lower raw in
      if any_in rakbank_SKIP_KEYWORDS low then Inr st
      else if contains ''statement period'' low then
        (case re_search STATEMENT_PERIOD_RE raw of
           None \<Rightarrow> Inr st
         | Some (rest, c) \<Rightarrow>
             (case c 1 of
                None \<Rightarrow> Inl AttributeError
              | Some fd \<Rightarrow>
                  (case c 2 of
                     None \<Rightarrow> Inl AttributeError
                   | Some td \<Rightarrow>
                       Inr (st\<lparr>statement_from := normalize_date (replace '' '' '''' fd) ''%d/%m/%Y'',
                               statement_to := normalize_date (replace '' '' '''' td) ''%d/%m/%Y''\<rparr>))))
      else
        (case re_match RAKBANK_LINE_REGEX raw of
           Some (rest, c) \<Rightarrow>
             (case rakbank_aed_transaction (buffer_desc st) c of
                Inl e \<Rightarrow> Inl e
              | Inr t \<Rightarrow> Inr (st\<lparr>transactions := transactions st @ [t], buffer_desc := []\<rparr>))
         | None \<Rightarrow>
             (case re_match RAKBANK_FX_REGEX raw of
                Some (rest, c) \<Rightarrow>
                  (case rakbank_fx_transaction (buffer_desc st) c of
                     Inl e \<Rightarrow> Inl e
                   | Inr t \<Rightarrow> Inr (st\<lparr>transactions := transactions st @ [t], buffer_desc := []\<rparr>))
              | None \<Rightarrow> Inr (st\<lparr>buffer_desc := buffer_desc st @ [raw]\<rparr>))))"

fun parse_rakbank_lines :: "rakbank_vars \<Rightarrow> string list \<Rightarrow> py_error + rakbank_vars" where
  "parse_rakbank_lines st [] = Inr st"
| "parse_rakbank_lines st (raw # lines) =
     (case parse_rakbank_line st raw of
        Inl e \<Rightarrow> Inl e
      | Inr st' \<Rightarrow> parse_rakbank_lines st' lines)"

text \<open>The body of \<^verbatim>\<open>for page in pdf.pages:\<close>, which starts with \<^verbatim>\<open>buffer_desc = []\<close>.\<close>

definition parse_rakbank_page :: "rakbank_vars \<Rightarrow> string option \<Rightarrow> py_error + rakbank_vars" where
  "parse_rakbank_page st page = parse_rakbank_lines (st\<lparr>buffer_desc := []\<rparr>) (page_lines page)"

fun parse_rakbank_pages :: "rakbank_vars \<Rightarrow> string option list \<Rightarrow> py_error + rakbank_vars" where
  "parse_rakbank_pages st [] = Inr st"
| "parse_rakbank_pages st (page # pages) =
     (case parse_rakbank_page st page of
        Inl e \<Rightarrow> Inl e
      | Inr st' \<Rightarrow> parse_rakbank_pages st' pages)"

definition rakbank_init :: rakbank_vars where
  "rakbank_init = \<lparr>transactions = [], statement_from = None, statement_to = None, buffer_desc = []\<rparr>"

text \<open>
  \<^verbatim>\<open>parse_rakbank\<close>, given what \<^verbatim>\<open>open_pdf_safe\<close> returned. A dict without the key \<^verbatim>\<open>"error"\<close>
  reaches \<^verbatim>\<open>with pdf:\<close>, which a dict does not support.
\<close>

definition parse_rakbank :: "pdf_source \<Rightarrow> py_error + parse_output" where
  "parse_rakbank pdf =
     (case pdf of
        PdfDict d \<Rightarrow> if d ''error'' \<noteq> None then Inr (Failure d) else Inl TypeError
      | PdfPages pages \<Rightarrow>
          (case parse_rakbank_pages rakbank_init pages of
             Inl e \<Rightarrow> Inl e
           | Inr st \<Rightarrow>
               (let normalized = normalize_transactions (transactions st) rakbank_BANK_NAME rakbank_CARD_TYPE
                in Inr (Parsed \<lparr>result_bank = rakbank_BANK_NAME,
                                result_card_type = rakbank_CARD_TYPE,
                                summary = summarize_transactions normalized,
                                result_transactions = normalized,
                                from_date = statement_from st,
                                to_date = statement_to st\<rparr>))))"

section \<open>\<^verbatim>\<open>parsers/emiratesislamic.py\<close>\<close>

definition emiratesislamic_BANK_NAME :: string where
  "emiratesislamic_BANK_NAME = ''Emirates Islamic''"

definition emiratesislamic_CARD_TYPE :: string where
  "emiratesislamic_CARD_TYPE = ''credit''"

text \<open>\<^verbatim>\<open>\d{2}\s+[A-Z]{3}\<close> under \<^verbatim>\<open>re.IGNORECASE\<close>\<close>

definition rx_day_month :: rx where
  "rx_day_month = rx_seq [rx_rep 2 2 rx_digit, rx_plus rx_space, rx_rep 3 3 rx_letter]"

text \<open>
  Under \<^verbatim>\<open>re.IGNORECASE\<close>:
  \<^verbatim>\<open>^(\d{2}\s+[A-Z]{3})\s+(\d{2}\s+[A-Z]{3})\s+(.+?)\s+([\d,]+\.\d{2})(CR)?$\<close>
\<close>

definition LINE_REGEX :: rx where
  "LINE_REGEX =
     rx_seq [Grp 1 rx_day_month, rx_plus rx_space,
             Grp 2 rx_day_month, rx_plus rx_space,
             Grp 3 (rx_plus_lazy rx_dot), rx_plus rx_space,
             Grp 4 rx_amount,
             rx_opt (Grp 5 (rx_lit_i ''CR'')), Eol]"

text \<open>\<^verbatim>\<open>(?:st|nd|rd|th)\<close> under \<^verbatim>\<open>re.IGNORECASE\<close>\<close>

definition rx_ordinal_suffix :: rx where
  "rx_ordinal_suffix = rx_alts [rx_lit_i ''st'', rx_lit_i ''nd'', rx_lit_i ''rd'', rx_lit_i ''th'']"

text \<open>
  Under \<^verbatim>\<open>re.IGNORECASE\<close>:
  \<^verbatim>\<open>^\s*(From|To)\s*:?\s*(\d{1,2}(?:st|nd|rd|th)?\s+[A-Za-z]{3,9}\s+\d{4})\s*$\<close>
\<close>

definition FROM_TO_REGEX :: rx where
  "FROM_TO_REGEX =
     rx_seq [rx_star rx_space,
             Grp 1 (rx_alts [rx_lit_i ''From'', rx_lit_i ''To'']),
             rx_star rx_space, rx_opt (rx_lit '':''), rx_star rx_space,
             Grp 2 (rx_seq [rx_rep 1 2 rx_digit, rx_opt rx_ordinal_suffix, rx_plus rx_space,
                            rx_rep 3 9 rx_letter, rx_plus rx_space, rx_rep 4 4 rx_digit]),
             rx_star rx_space, Eol]"

definition emiratesislamic_SKIP_KEYWORDS :: "string list" where
  "emiratesislamic_SKIP_KEYWORDS =
     [''opening balance'', ''primary card no'', ''rewards summary'', ''cashback'', ''card limit'',
      ''minimum payment due'', ''payment due date'', ''profit/other charges'', ''current balance'',
      ''profit reversal'', ''finance charges'']"

text \<open>\<^verbatim>\<open>clean_amount\<close> of \<^verbatim>\<open>emiratesislamic.py\<close>: a \<^verbatim>\<open>ValueError\<close> of \<^verbatim>\<open>float\<close> gives \<open>0.0\<close>.\<close>

definition emiratesislamic_clean_amount :: "string option \<Rightarrow> pyfloat" where
  "emiratesislamic_clean_amount val =
     (case val of
        None \<Rightarrow> Fin 0
      | Some s \<Rightarrow>
          if s = [] then Fin 0
          else (case py_float (strip (replace ''CR'' '''' (replace '','' '''' s))) of
                  Inl e \<Rightarrow> Fin 0
                | Inr x \<Rightarrow> x))"

text \<open>\<^verbatim>\<open>_strip_ordinal\<close>: \<^verbatim>\<open>re.sub(r'(\d+)(st|nd|rd|th)', r'\1', s, flags=re.IGNORECASE).strip()\<close>\<close>

definition rx_ordinal :: rx where
  "rx_ordinal = rx_seq [Grp 1 (rx_plus rx_digit), Grp 2 rx_ordinal_suffix]"

definition strip_ordinal :: "string \<Rightarrow> string" where
  "strip_ordinal s = strip (re_sub_group1 rx_ordinal s)"

text \<open>\<^verbatim>\<open>_parse_full_date\<close>: the first of the two formats that reads the text, else \<^verbatim>\<open>None\<close>.\<close>

definition parse_full_date :: "string \<Rightarrow> string option" where
  "parse_full_date s =
     (let s_clean = strip_ordinal s in
      case strptime s_clean ''%d %b %Y'' of
        Inr dt \<Rightarrow> Some (isoformat dt)
      | Inl e \<Rightarrow>
          (case strptime s_clean ''%d %B %Y'' of
             Inr dt \<Rightarrow> Some (isoformat dt)
           | Inl e' \<Rightarrow> None))"

text \<open>
  \<^verbatim>\<open>_normalize_range_token\<close>. The keys of \<^verbatim>\<open>arabic_map\<close> are written as their UTF-8 bytes:
  U+0645 U+0646, the same followed by a space, U+0627 U+0644 U+0649, U+0625 U+0644 U+0649
  and U+0649 U+0644 U+0625.
\<close>

definition arabic_map :: "(string \<times> string) list" where
  "arabic_map =
     [([CHR 0xD9, CHR 0x85, CHR 0xD9, CHR 0x86], ''from''),
      ([CHR 0xD9, CHR 0x85, CHR 0xD9, CHR 0x86, CHR 0x20], ''from''),
      ([CHR 0xD8, CHR 0xA7, CHR 0xD9, CHR 0x84, CHR 0xD9, CHR 0x89], ''to''),
      ([CHR 0xD8, CHR 0xA5, CHR 0xD9, CHR 0x84, CHR 0xD9, CHR 0x89], ''to''),
      ([CHR 0xD9, CHR 0x89, CHR 0xD9, CHR 0x84, CHR 0xD8, CHR 0xA5], ''to'')]"

definition normalize_range_token :: "string \<Rightarrow> string option" where
  "normalize_range_token raw =
     (let token = lower (strip_chars '':'' (strip raw)) in
      if token = [] then None
      else if token = ''from'' \<or> token = ''to'' then Some token
      else map_of arabic_map token)"

record emiratesislamic_vars = parse_vars +
  pending_range :: "string option"

text \<open>
  The year of a transaction date, lines 146 to 159 of \<^verbatim>\<open>parse_emiratesislamic\<close>, entered
  when both \<^verbatim>\<open>statement_from\<close> and \<^verbatim>\<open>statement_to\<close> are set: \<open>txn_date\<close> is what
  \<^verbatim>\<open>normalize_date\<close> gave for the day and month.
\<close>

definition resolve_year :: "string option \<Rightarrow> string \<Rightarrow> string \<Rightarrow> py_error + string" where
  "resolve_year txn_date stmt_from stmt_to =
     (case py_int (take 4 stmt_from) of
        Inl e \<Rightarrow> Inl e
      | Inr from_year \<Rightarrow>
          (case py_int (take 4 stmt_to) of
             Inl e \<Rightarrow> Inl e
           | Inr to_year \<Rightarrow>
               (case (case txn_date of None \<Rightarrow> Inl TypeError | Some s \<Rightarrow> strptime s ''%Y-%m-%d'') of
                  Inl e \<Rightarrow> Inl e
                | Inr parsed_dt \<Rightarrow>
                    (case replace_year parsed_dt to_year of
                       Inl e \<Rightarrow> Inl e
                     | Inr txn_dt \<Rightarrow>
                         (case strptime stmt_to ''%Y-%m-%d'' of
                            Inl e \<Rightarrow> Inl e
                          | Inr statement_to_dt \<Rightarrow>
                              if month statement_to_dt < 6 \<and> month txn_dt > 6 then
                                (case replace_year txn_dt from_year of
                                   Inl e \<Rightarrow> Inl e
                                 | Inr dt \<Rightarrow> Inr (strftime_ymd dt))
                              else Inr (strftime_ymd txn_dt))))))"

text \<open>\<^verbatim>\<open>if statement_from and statement_to:\<close> around it; otherwise the date stays as it is.\<close>

fun both_set_year ::
    "string option \<Rightarrow> string option \<Rightarrow> string option \<Rightarrow> py_error + string option" where
  "both_set_year txn_date (Some f) (Some t) =
     (if f \<noteq> [] \<and> t \<noteq> []
      then (case resolve_year txn_date f t of Inl e \<Rightarrow> Inl e | Inr s \<Rightarrow> Inr (Some s))
      else Inr txn_date)"
| "both_set_year txn_date _ _ = Inr txn_date"

text \<open>
  The dict appended for a line that \<^verbatim>\<open>LINE_REGEX\<close> matched with the groups \<open>c\<close>:
  lines 133 to 169.
\<close>

definition emiratesislamic_transaction ::
    "string option \<Rightarrow> string option \<Rightarrow> caps \<Rightarrow> py_error + transaction" where
  "emiratesislamic_transaction stmt_from stmt_to c =
     (let amt_val = emiratesislamic_clean_amount (c 4) in
      case c 3 of
        None \<Rightarrow> Inl AttributeError
      | Some desc \<Rightarrow>
          (let is_credit = (truthy (c 5) \<or> contains ''payment received'' (lower desc)) in
           case c 2 of
             None \<Rightarrow> Inl AttributeError
           | Some txn_date_raw \<Rightarrow>
               (let txn_date = normalize_date (strip txn_date_raw) ''%d %b'' in
                case both_set_year txn_date stmt_from stmt_to of
                  Inl e \<Rightarrow> Inl e
                | Inr resolved \<Rightarrow>
                    Inr \<lparr>transaction_date = resolved,
                         description = strip desc,
                         debit = (if is_credit then Fin 0 else amt_val),
                         credit = (if is_credit then amt_val else Fin 0),
                         amount = amt_val,
                         balance = None,
                         bank = emiratesislamic_BANK_NAME,
                         card_type = emiratesislamic_CARD_TYPE,
                         fx_currency = None, fx_amount = None, fx_rate = None\<rparr>)))"

text \<open>
  The body of \<^verbatim>\<open>for line in text.splitlines():\<close> in \<^verbatim>\<open>parse_emiratesislamic\<close>, for a line
  \<open>raw\<close> that is stripped and not empty.
\<close>

definition parse_emiratesislamic_line ::
    "emiratesislamic_vars \<Rightarrow> string \<Rightarrow> py_error + emiratesislamic_vars" where
  "parse_emiratesislamic_line st raw =
     (let low = lower raw in
      if any_in emiratesislamic_SKIP_KEYWORDS low then Inr st
      else
        (case re_match FROM_TO_REGEX raw of
           Some (rest, c) \<Rightarrow>
             (case c 1 of
                None \<Rightarrow> Inl AttributeError
              | Some which \<Rightarrow>
                  (case c 2 of
                     None \<Rightarrow> Inl TypeError
                   | Some date_str \<Rightarrow>
                       (let parsed = parse_full_date date_str;
                            st1 = (if truthy parsed
                                   then (if lower which = ''from''
                                         then st\<lparr>statement_from := parsed\<rparr>
                                         else st\<lparr>statement_to := parsed\<rparr>)
                                   else st)
                        in Inr (st1\<lparr>pending_range := None\<rparr>))))
         | None \<Rightarrow>
             (let normalized_range = normalize_range_token raw in
              if truthy normalized_range then
                (if normalized_range = Some ''from'' \<and> truthy (statement_from st) then Inr st
                 else if normalized_range = Some ''to'' \<and> truthy (statement_to st) then Inr st
                 else Inr (st\<lparr>pending_range := normalized_range\<rparr>))
              else
                (let parsed = (if truthy (pending_range st) then parse_full_date raw else None) in
                 if truthy (pending_range st) \<and> truthy parsed then
                   Inr ((if pending_range st = Some ''from''
                         then st\<lparr>statement_from := parsed\<rparr>
                         else st\<lparr>statement_to := parsed\<rparr>)\<lparr>pending_range := None\<rparr>)
                 else
                   (case re_match LINE_REGEX raw of
                      None \<Rightarrow> Inr st
                    | Some (rest, c) \<Rightarrow>
                        (case emiratesislamic_transaction (statement_from st) (statement_to st) c of
                           Inl e \<Rightarrow> Inl e
                         | Inr t \<Rightarrow> Inr (st\<lparr>transactions := transactions st @ [t]\<rparr>)))))))"

fun parse_emiratesislamic_lines ::
    "emiratesislamic_vars \<Rightarrow> string list \<Rightarrow> py_error + emiratesislamic_vars" where
  "parse_emiratesislamic_lines st [] = Inr st"
| "parse_emiratesislamic_lines st (raw # lines) =
     (case parse_emiratesislamic_line st raw of
        Inl e \<Rightarrow> Inl e
      | Inr st' \<Rightarrow> parse_emiratesislamic_lines st' lines)"

text \<open>The pages in order; the variables, \<^verbatim>\<open>pending_range\<close> too, live on from page to page.\<close>

fun parse_emiratesislamic_pages ::
    "emiratesislamic_vars \<Rightarrow> string option list \<Rightarrow> py_error + emiratesislamic_vars" where
  "parse_emiratesislamic_pages st [] = Inr st"
| "parse_emiratesislamic_pages st (page # pages) =
     (case parse_emiratesislamic_lines st (page_lines page) of
        Inl e \<Rightarrow> Inl e
      | Inr st' \<Rightarrow> parse_emiratesislamic_pages st' pages)"

definition emiratesislamic_init :: emiratesislamic_vars where
  "emiratesislamic_init =
     \<lparr>transactions = [], statement_from = None, statement_to = None, pending_range = None\<rparr>"

definition parse_emiratesislamic :: "pdf_source \<Rightarrow> py_error + parse_output" where
  "parse_emiratesislamic pdf =
     (case pdf of
        PdfDict d \<Rightarrow> if d ''error'' \<noteq> None then Inr (Failure d) else Inl TypeError
      | PdfPages pages \<Rightarrow>
          (case parse_emiratesislamic_pages emiratesislamic_init pages of
             Inl e \<Rightarrow> Inl e
           | Inr st \<Rightarrow>
               (let normalized = normalize_transactions (transactions st)
                                   emiratesislamic_BANK_NAME emiratesislamic_CARD_TYPE
                in Inr (Parsed \<lparr>result_bank = emiratesislamic_BANK_NAME,
                                result_card_type = emiratesislamic_CARD_TYPE,
                                summary = summarize_transactions normalized,
                                result_transactions = normalized,
                                from_date = statement_from st,
                                to_date = statement_to st\<rparr>))))"

section \<open>Predicates of the statements\<close>

text \<open>
  A transaction is one-sided when one of \<^verbatim>\<open>debit\<close> and \<^verbatim>\<open>credit\<close> is \<open>0.0\<close> and the other
  is the \<^verbatim>\<open>amount\<close>.
\<close>

definition one_sided :: "transaction \<Rightarrow> bool" where
  "one_sided t = ((debit t = Fin 0 \<and> credit t = amount t) \<or> (credit t = Fin 0 \<and> debit t = amount t))"

text \<open>
  What the loop of \<^verbatim>\<open>parse_emiratesislamic\<close> keeps true of \<^verbatim>\<open>pending_range\<close>: it is
  \<^verbatim>\<open>None\<close>, \<^verbatim>\<open>"from"\<close> or \<^verbatim>\<open>"to"\<close>, and a boundary that is awaited is not set yet.
\<close>

definition pending_consistent :: "emiratesislamic_vars \<Rightarrow> bool" where
  "pending_consistent st =
     ((pending_range st = None \<or> pending_range st = Some ''from'' \<or> pending_range st = Some ''to'') \<and>
      (pending_range st = Some ''from'' \<longrightarrow> \<not> truthy (statement_from st)) \<and>
      (pending_range st = Some ''to'' \<longrightarrow> \<not> truthy (statement_to st)))"

text \<open>
  A line that the loop of \<^verbatim>\<open>parse_rakbank\<close> appends to \<^verbatim>\<open>buffer_desc\<close>: no boilerplate,
  no statement-period line, no AED transaction, no FX transaction.
\<close>

definition rakbank_free_text :: "string \<Rightarrow> bool" where
  "rakbank_free_text raw =
     (\<not> any_in rakbank_SKIP_KEYWORDS (lower raw) \<and>
      \<not> contains ''statement period'' (lower raw) \<and>
      re_match RAKBANK_LINE_REGEX raw = None \<and>
      re_match RAKBANK_FX_REGEX raw = None)"

section \<open>Evaluating the model\<close>

text \<open>
  The facts that unfold the definitions on a concrete text. The matcher is evaluated
  with \<open>rx_match_cong\<close>, which keeps the simplifier out of the continuation until the
  matcher calls it.
\<close>

lemma rx_match_cong:
  "r = r' \<Longrightarrow> s = s' \<Longrightarrow> c = c' \<Longrightarrow> rx_match r s c k = rx_match r' s' c' k"
  by simp

lemmas char_eval = is_digit_def is_upper_def is_lower_def is_alpha_def is_space_def
  is_linebreak_def lower_char_def digit_val_def digit_char_def char_of_def

lemmas str_eval = lower_def strip_def strip_where_def strip_chars_def any_in_def
  splitlines_def page_lines_def digits_int_def drop_underscores_def py_int_def
  parse_exponent_def parse_decimal_def py_float_def Let_def

lemmas rx_eval = rx_lit_def rx_lit_i_def rx_plus_def rx_plus_lazy_def rx_star_def rx_opt_def
  rx_digit_def rx_space_def rx_dot_def rx_digit_comma_def rx_letter_def rx_range_def
  re_match_def re_sub_group1.simps eval_nat_numeral

lemmas date_eval = is_leap_def days_in_month_def make_date_def replace_year_def
  pad2_def pad4_def isoformat_def year_unpadded_def strftime_ymd_def month_abbr_def month_name_def
  rx_directive_d_def rx_directive_m_def rx_directive_Y_def rx_directive_b_def
  rx_directive_B_def directive_rx_def strptime_def normalize_date_def

lemmas rakbank_eval = rakbank_BANK_NAME_def rakbank_CARD_TYPE_def rakbank_SKIP_KEYWORDS_def
  DROP_HINTS_def rx_date_loose_def rx_date_slash_def rx_amount_anypoint_def rx_amount_def
  STATEMENT_PERIOD_RE_def RAKBANK_LINE_REGEX_def RAKBANK_FX_REGEX_def
  rakbank_clean_amount_def kept_buffer_def rakbank_credit_word_def rakbank_aed_transaction_def
  rakbank_fx_transaction_def parse_rakbank_line_def parse_rakbank_page_def rakbank_init_def

lemmas emiratesislamic_eval = emiratesislamic_BANK_NAME_def emiratesislamic_CARD_TYPE_def
  emiratesislamic_SKIP_KEYWORDS_def rx_amount_def rx_day_month_def LINE_REGEX_def
  rx_ordinal_suffix_def FROM_TO_REGEX_def rx_ordinal_def emiratesislamic_clean_amount_def
  strip_ordinal_def parse_full_date_def arabic_map_def normalize_range_token_def
  resolve_year_def emiratesislamic_transaction_def parse_emiratesislamic_line_def
  emiratesislamic_init_def

lemmas base_eval = char_eval str_eval rx_eval date_eval

section \<open>The groups of a match\<close>

text \<open>
  A match leaves a group unset that the pattern does not have, and sets every group that
  stands on all the ways through the pattern. Both are shown for the matcher by
  computation induction, with the continuation general.
\<close>

lemma rx_match_frame:
  "rx_match r s c k = Some x \<Longrightarrow>
     \<exists>s' c'. k s' c' = Some x \<and> (\<forall>n. n \<notin> rx_groups r \<longrightarrow> c' n = c n)"
proof (induction r s c k arbitrary: x rule: rx_match.induct)
  case (1 s c k)
  then show ?case by auto
next
  case (2 p s c k)
  then show ?case by (auto split: list.splits if_splits)
next
  case (3 a b s c k)
  from "3.prems" have "rx_match a s c (\<lambda>s' c'. rx_match b s' c' k) = Some x"
    by simp
  from "3.IH"(2) [OF this] obtain s1 c1 where
    b: "rx_match b s1 c1 k = Some x" and f1: "\<forall>n. n \<notin> rx_groups a \<longrightarrow> c1 n = c n"
    by blast
  from "3.IH"(1) [OF b] obtain s2 c2 where
    k: "k s2 c2 = Some x" and f2: "\<forall>n. n \<notin> rx_groups b \<longrightarrow> c2 n = c1 n"
    by blast
  from f1 f2 have "\<forall>n. n \<notin> rx_groups (Cat a b) \<longrightarrow> c2 n = c n"
    by simp
  with k show ?case by blast
next
  case (4 a b s c k)
  show ?case
  proof (cases "rx_match a s c k")
    case None
    with "4.prems" have "rx_match b s c k = Some x" by simp
    from "4.IH"(2) [OF None this] show ?thesis by auto
  next
    case (Some y)
    with "4.prems" have "rx_match a s c k = Some x" by simp
    from "4.IH"(1) [OF this] show ?thesis by auto
  qed
next
  case (5 greedy r s c k)
  show ?case
  proof (cases greedy)
    case True
    then have g: "greedy = True" by simp
    let ?k = "\<lambda>s' c'. if length s' < length s then rx_match (Star True r) s' c' k else None"
    note again = "5.IH"(1) [unfolded g, OF TrueI]
    note first = "5.IH"(2) [unfolded g, OF TrueI]
    from "5.prems" [unfolded g]
    have p: "(case rx_match r s c ?k of Some y \<Rightarrow> Some y | None \<Rightarrow> k s c) = Some x"
      by simp
    show ?thesis
    proof (cases "rx_match r s c ?k")
      case None
      with p have "k s c = Some x" by simp
      then show ?thesis by auto
    next
      case (Some y)
      with p have "rx_match r s c ?k = Some x" by simp
      from first [OF this] obtain s1 c1 where k1: "?k s1 c1 = Some x"
        and f1: "\<forall>n. n \<notin> rx_groups r \<longrightarrow> c1 n = c n"
        by blast
      from k1 have len: "length s1 < length s" and rec: "rx_match (Star True r) s1 c1 k = Some x"
        by (auto split: if_splits)
      from again [OF len rec] obtain s2 c2 where "k s2 c2 = Some x"
        and "\<forall>n. n \<notin> rx_groups (Star True r) \<longrightarrow> c2 n = c1 n"
        by blast
      with f1 show ?thesis unfolding g by auto
    qed
  next
    case False
    then have g: "greedy = False" by simp
    let ?k = "\<lambda>s' c'. if length s' < length s then rx_match (Star False r) s' c' k else None"
    from "5.prems" [unfolded g]
    have p: "(case k s c of Some y \<Rightarrow> Some y | None \<Rightarrow> rx_match r s c ?k) = Some x"
      by simp
    show ?thesis
    proof (cases "k s c")
      case (Some y)
      with p have "k s c = Some x" by simp
      then show ?thesis by auto
    next
      case None
      note again = "5.IH"(3) [unfolded g, OF _ None]
      note first = "5.IH"(4) [unfolded g, OF _ None]
      from None p have "rx_match r s c ?k = Some x" by simp
      from first [OF _ this] obtain s1 c1 where k1: "?k s1 c1 = Some x"
        and f1: "\<forall>n. n \<notin> rx_groups r \<longrightarrow> c1 n = c n"
        by blast
      from k1 have len: "length s1 < length s" and rec: "rx_match (Star False r) s1 c1 k = Some x"
        by (auto split: if_splits)
      from again [OF _ len rec] obtain s2 c2 where "k s2 c2 = Some x"
        and "\<forall>n. n \<notin> rx_groups (Star False r) \<longrightarrow> c2 n = c1 n"
        by blast
      with f1 show ?thesis unfolding g by auto
    qed
  qed
next
  case (6 n r s c k)
  from "6.prems"
  have "rx_match r s c (\<lambda>s' c'. k s' (c'(n \<mapsto> take (length s - length s') s))) = Some x"
    by simp
  from "6.IH" [OF this] obtain s1 c1 where
    k: "k s1 (c1(n \<mapsto> take (length s - length s1) s)) = Some x"
    and f: "\<forall>m. m \<notin> rx_groups r \<longrightarrow> c1 m = c m"
    by blast
  from f have "\<forall>m. m \<notin> rx_groups (Grp n r) \<longrightarrow> (c1(n \<mapsto> take (length s - length s1) s)) m = c m"
    by simp
  with k show ?case by blast
next
  case (7 s c k)
  then show ?case by (auto split: if_splits)
qed

lemma re_match_frame:
  assumes "re_match r s = Some (rest, c)" and "n \<notin> rx_groups r"
  shows "c n = None"
proof -
  from assms(1) have "rx_match r s Map.empty (\<lambda>s' c. Some (s', c)) = Some (rest, c)"
    by (simp add: re_match_def)
  from rx_match_frame [OF this] obtain s' c' where
    "Some (s', c') = Some (rest, c)" and "\<forall>n. n \<notin> rx_groups r \<longrightarrow> c' n = Map.empty n"
    by blast
  with assms(2) show ?thesis by simp
qed

lemma rx_match_required:
  "rx_match r s c k = Some x \<Longrightarrow>
     \<exists>s' c'. k s' c' = Some x \<and> (\<forall>n. n \<in> rx_required r \<or> c n \<noteq> None \<longrightarrow> c' n \<noteq> None)"
proof (induction r s c k arbitrary: x rule: rx_match.induct)
  case (1 s c k)
  then show ?case by auto
next
  case (2 p s c k)
  then show ?case by (auto split: list.splits if_splits)
next
  case (3 a b s c k)
  from "3.prems" have "rx_match a s c (\<lambda>s' c'. rx_match b s' c' k) = Some x"
    by simp
  from "3.IH"(2) [OF this] obtain s1 c1 where
    b: "rx_match b s1 c1 k = Some x"
    and f1: "\<forall>n. n \<in> rx_required a \<or> c n \<noteq> None \<longrightarrow> c1 n \<noteq> None"
    by blast
  from "3.IH"(1) [OF b] obtain s2 c2 where
    k: "k s2 c2 = Some x"
    and f2: "\<forall>n. n \<in> rx_required b \<or> c1 n \<noteq> None \<longrightarrow> c2 n \<noteq> None"
    by blast
  from f1 f2 have "\<forall>n. n \<in> rx_required (Cat a b) \<or> c n \<noteq> None \<longrightarrow> c2 n \<noteq> None"
    by auto
  with k show ?case by blast
next
  case (4 a b s c k)
  show ?case
  proof (cases "rx_match a s c k")
    case None
    with "4.prems" have "rx_match b s c k = Some x" by simp
    from "4.IH"(2) [OF None this] obtain s1 c1 where "k s1 c1 = Some x"
      and "\<forall>n. n \<in> rx_required b \<or> c n \<noteq> None \<longrightarrow> c1 n \<noteq> None"
      by blast
    then have "k s1 c1 = Some x \<and>
        (\<forall>n. n \<in> rx_required (Alt a b) \<or> c n \<noteq> None \<longrightarrow> c1 n \<noteq> None)"
      by simp
    then show ?thesis by blast
  next
    case (Some y)
    with "4.prems" have "rx_match a s c k = Some x" by simp
    from "4.IH"(1) [OF this] obtain s1 c1 where "k s1 c1 = Some x"
      and "\<forall>n. n \<in> rx_required a \<or> c n \<noteq> None \<longrightarrow> c1 n \<noteq> None"
      by blast
    then have "k s1 c1 = Some x \<and>
        (\<forall>n. n \<in> rx_required (Alt a b) \<or> c n \<noteq> None \<longrightarrow> c1 n \<noteq> None)"
      by simp
    then show ?thesis by blast
  qed
next
  case (5 greedy r s c k)
  show ?case
  proof (cases greedy)
    case True
    then have g: "greedy = True" by simp
    let ?k = "\<lambda>s' c'. if length s' < length s then rx_match (Star True r) s' c' k else None"
    note again = "5.IH"(1) [unfolded g, OF TrueI]
    note first = "5.IH"(2) [unfolded g, OF TrueI]
    from "5.prems" [unfolded g]
    have p: "(case rx_match r s c ?k of Some y \<Rightarrow> Some y | None \<Rightarrow> k s c) = Some x"
      by simp
    show ?thesis
    proof (cases "rx_match r s c ?k")
      case None
      with p have "k s c = Some x" by simp
      then show ?thesis by auto
    next
      case (Some y)
      with p have "rx_match r s c ?k = Some x" by simp
      from first [OF this] obtain s1 c1 where k1: "?k s1 c1 = Some x"
        and f1: "\<forall>n. n \<in> rx_required r \<or> c n \<noteq> None \<longrightarrow> c1 n \<noteq> None"
        by blast
      from k1 have len: "length s1 < length s" and rec: "rx_match (Star True r) s1 c1 k = Some x"
        by (auto split: if_splits)
      from again [OF len rec] obtain s2 c2 where "k s2 c2 = Some x"
        and "\<forall>n. n \<in> rx_required (Star True r) \<or> c1 n \<noteq> None \<longrightarrow> c2 n \<noteq> None"
        by blast
      with f1 have "k s2 c2 = Some x \<and> (\<forall>n. c n \<noteq> None \<longrightarrow> c2 n \<noteq> None)"
        by simp
      then show ?thesis unfolding g by auto
    qed
  next
    case False
    then have g: "greedy = False" by simp
    let ?k = "\<lambda>s' c'. if length s' < length s then rx_match (Star False r) s' c' k else None"
    from "5.prems" [unfolded g]
    have p: "(case k s c of Some y \<Rightarrow> Some y | None \<Rightarrow> rx_match r s c ?k) = Some x"
      by simp
    show ?thesis
    proof (cases "k s c")
      case (Some y)
      with p have "k s c = Some x" by simp
      then show ?thesis by auto
    next
      case None
      note again = "5.IH"(3) [unfolded g, OF _ None]
      note first = "5.IH"(4) [unfolded g, OF _ None]
      from None p have "rx_match r s c ?k = Some x" by simp
      from first [OF _ this] obtain s1 c1 where k1: "?k s1 c1 = Some x"
        and f1: "\<forall>n. n \<in> rx_required r \<or> c n \<noteq> None \<longrightarrow> c1 n \<noteq> None"
        by blast
      from k1 have len: "length s1 < length s" and rec: "rx_match (Star False r) s1 c1 k = Some x"
        by (auto split: if_splits)
      from again [OF _ len rec] obtain s2 c2 where "k s2 c2 = Some x"
        and "\<forall>n. n \<in> rx_required (Star False r) \<or> c1 n \<noteq> None \<longrightarrow> c2 n \<noteq> None"
        by blast
      with f1 have "k s2 c2 = Some x \<and> (\<forall>n. c n \<noteq> None \<longrightarrow> c2 n \<noteq> None)"
        by simp
      then show ?thesis unfolding g by auto
    qed
  qed
next
  case (6 n r s c k)
  from "6.prems"
  have "rx_match r s c (\<lambda>s' c'. k s' (c'(n \<mapsto> take (length s - length s') s))) = Some x"
    by simp
  from "6.IH" [OF this] obtain s1 c1 where
    k: "k s1 (c1(n \<mapsto> take (length s - length s1) s)) = Some x"
    and f: "\<forall>m. m \<in> rx_required r \<or> c m \<noteq> None \<longrightarrow> c1 m \<noteq> None"
    by blast
  from f have "\<forall>m. m \<in> rx_required (Grp n r) \<or> c m \<noteq> None \<longrightarrow>
      (c1(n \<mapsto> take (length s - length s1) s)) m \<noteq> None"
    by simp
  with k show ?case by blast
next
  case (7 s c k)
  then show ?case by (auto split: if_splits)
qed

lemma re_match_required:
  assumes "re_match r s = Some (rest, c)" and "n \<in> rx_required r"
  shows "\<exists>t. c n = Some t"
proof -
  from assms(1) have "rx_match r s Map.empty (\<lambda>s' c. Some (s', c)) = Some (rest, c)"
    by (simp add: re_match_def)
  from rx_match_required [OF this] obtain s' c' where
    "Some (s', c') = Some (rest, c)"
    and "\<forall>n. n \<in> rx_required r \<or> Map.empty n \<noteq> None \<longrightarrow> c' n \<noteq> None"
    by blast
  with assms(2) show ?thesis by auto
qed

lemma LINE_REGEX_groups:
  assumes "re_match LINE_REGEX raw = Some (rest, c)"
  shows "\<exists>t. c 2 = Some t" and "\<exists>t. c 3 = Some t"
proof -
  have "2 \<in> rx_required LINE_REGEX" and "3 \<in> rx_required LINE_REGEX"
    by (simp_all add: LINE_REGEX_def)
  with assms show "\<exists>t. c 2 = Some t" and "\<exists>t. c 3 = Some t"
    by (auto dest: re_match_required)
qed

lemma RAKBANK_LINE_REGEX_groups:
  assumes "re_match RAKBANK_LINE_REGEX raw = Some (rest, c)"
  shows "\<exists>t. c 2 = Some t"
proof -
  have "2 \<in> rx_required RAKBANK_LINE_REGEX"
    by (simp add: RAKBANK_LINE_REGEX_def)
  with assms show ?thesis
    by (rule re_match_required)
qed

section \<open>The loops, line by line\<close>

lemma parse_rakbank_lines_append:
  "parse_rakbank_lines st (xs @ ys) =
     (case parse_rakbank_lines st xs of Inl e \<Rightarrow> Inl e | Inr st' \<Rightarrow> parse_rakbank_lines st' ys)"
  by (induction xs arbitrary: st) (auto split: sum.splits)

lemma parse_emiratesislamic_lines_append:
  "parse_emiratesislamic_lines st (xs @ ys) =
     (case parse_emiratesislamic_lines st xs of
        Inl e \<Rightarrow> Inl e
      | Inr st' \<Rightarrow> parse_emiratesislamic_lines st' ys)"
  by (induction xs arbitrary: st) (auto split: sum.splits)

section \<open>Boilerplate lines\<close>

lemma rakbank_skip_line:
  "any_in rakbank_SKIP_KEYWORDS (lower raw) \<Longrightarrow> parse_rakbank_line st raw = Inr st"
  by (simp add: parse_rakbank_line_def)

lemma emiratesislamic_skip_line:
  "any_in emiratesislamic_SKIP_KEYWORDS (lower raw) \<Longrightarrow>
     parse_emiratesislamic_line st raw = Inr st"
  by (simp add: parse_emiratesislamic_line_def)

text \<open>
  C6. A line whose lowercase form contains one of the boilerplate phrases of
  \<^verbatim>\<open>SKIP_KEYWORDS\<close> is discarded before anything else looks at it. In both parsers the
  step of such a line returns the variables as they were (the transactions, the
  statement period, the description buffer of RAKBANK, the pending marker of Emirates
  Islamic), and a run over lines that contain it equals the run over the same lines
  without it: the line is no transaction and no part of any description.
\<close>

theorem boilerplate_line_discarded:
  "(any_in rakbank_SKIP_KEYWORDS (lower raw) \<longrightarrow>
      parse_rakbank_line rs raw = Inr rs \<and>
      parse_rakbank_lines rs0 (xs @ raw # ys) = parse_rakbank_lines rs0 (xs @ ys)) \<and>
   (any_in emiratesislamic_SKIP_KEYWORDS (lower raw) \<longrightarrow>
      parse_emiratesislamic_line es raw = Inr es \<and>
      parse_emiratesislamic_lines es0 (xs @ raw # ys) = parse_emiratesislamic_lines es0 (xs @ ys))"
proof (intro conjI impI)
  assume skip: "any_in rakbank_SKIP_KEYWORDS (lower raw)"
  show "parse_rakbank_line rs raw = Inr rs"
    using skip by (rule rakbank_skip_line)
  show "parse_rakbank_lines rs0 (xs @ raw # ys) = parse_rakbank_lines rs0 (xs @ ys)"
    by (simp add: parse_rakbank_lines_append rakbank_skip_line [OF skip] split: sum.splits)
next
  assume skip: "any_in emiratesislamic_SKIP_KEYWORDS (lower raw)"
  show "parse_emiratesislamic_line es raw = Inr es"
    using skip by (rule emiratesislamic_skip_line)
  show "parse_emiratesislamic_lines es0 (xs @ raw # ys) = parse_emiratesislamic_lines es0 (xs @ ys)"
    by (simp add: parse_emiratesislamic_lines_append emiratesislamic_skip_line [OF skip]
        split: sum.splits)
qed

lemma minimum_payment_due_is_boilerplate:
  "any_in rakbank_SKIP_KEYWORDS (lower ''Minimum Payment Due 250.00'') \<and>
   any_in emiratesislamic_SKIP_KEYWORDS (lower ''Minimum Payment Due 250.00'')"
  by (simp add: char_eval str_eval rakbank_SKIP_KEYWORDS_def emiratesislamic_SKIP_KEYWORDS_def)

theorem boilerplate_line_discarded_witness:
  "any_in rakbank_SKIP_KEYWORDS (lower ''Minimum Payment Due 250.00'') \<and>
   parse_rakbank_line rakbank_init ''Minimum Payment Due 250.00'' = Inr rakbank_init \<and>
   parse_rakbank_lines rakbank_init
     ([''PURCHASE AT''] @ ''Minimum Payment Due 250.00'' #
      [''15/08/2025 NOON.COM DUBAI AED 100.00 - 1,234.56'']) =
   parse_rakbank_lines rakbank_init
     ([''PURCHASE AT''] @ [''15/08/2025 NOON.COM DUBAI AED 100.00 - 1,234.56'']) \<and>
   any_in emiratesislamic_SKIP_KEYWORDS (lower ''Minimum Payment Due 250.00'') \<and>
   parse_emiratesislamic_line emiratesislamic_init ''Minimum Payment Due 250.00'' =
     Inr emiratesislamic_init \<and>
   parse_emiratesislamic_lines emiratesislamic_init
     ([''To''] @ ''Minimum Payment Due 250.00'' # [''14th Jan 2025'']) =
   parse_emiratesislamic_lines emiratesislamic_init ([''To''] @ [''14th Jan 2025''])"
  using minimum_payment_due_is_boilerplate
    boilerplate_line_discarded [of "''Minimum Payment Due 250.00''" rakbank_init rakbank_init
      "[''PURCHASE AT'']" "[''15/08/2025 NOON.COM DUBAI AED 100.00 - 1,234.56'']"
      emiratesislamic_init emiratesislamic_init]
    boilerplate_line_discarded [of "''Minimum Payment Due 250.00''" rakbank_init rakbank_init
      "[''To'']" "[''14th Jan 2025'']" emiratesislamic_init emiratesislamic_init]
  by blast

section \<open>The failure value of the document source\<close>

text \<open>
  C5. When the document source returns a failure value, a dict with the key
  \<^verbatim>\<open>"error"\<close>, the result of either parse function is that value itself: not a
  result dict, so no line was read, and there are no transactions and no summary.
\<close>

theorem document_failure_passthrough:
  "d ''error'' \<noteq> None \<Longrightarrow>
     parse_rakbank (PdfDict d) = Inr (Failure d) \<and>
     parse_emiratesislamic (PdfDict d) = Inr (Failure d)"
  by (simp add: parse_rakbank_def parse_emiratesislamic_def)

theorem document_failure_passthrough_witness:
  "[''error'' \<mapsto> ''Incorrect password''] ''error'' \<noteq> None \<and>
   parse_rakbank (PdfDict [''error'' \<mapsto> ''Incorrect password'']) =
     Inr (Failure [''error'' \<mapsto> ''Incorrect password'']) \<and>
   parse_emiratesislamic (PdfDict [''error'' \<mapsto> ''Incorrect password'']) =
     Inr (Failure [''error'' \<mapsto> ''Incorrect password''])"
proof -
  have h: "[''error'' \<mapsto> ''Incorrect password''] ''error'' \<noteq> None"
    by simp
  from document_failure_passthrough [of "[''error'' \<mapsto> ''Incorrect password'']"] h
  show ?thesis
    by blast
qed

section \<open>The amount normalizer\<close>

lemma clean_amount_example:
  "rakbank_clean_amount (Some ''1,234.56CR'') = Inr (Fin 1234.56) \<and>
   emiratesislamic_clean_amount (Some ''1,234.56CR'') = Fin 1234.56"
  by (simp add: base_eval rakbank_clean_amount_def emiratesislamic_clean_amount_def)

lemma clean_amount_empty:
  "rakbank_clean_amount None = Inr (Fin 0) \<and> rakbank_clean_amount (Some '''') = Inr (Fin 0) \<and>
   emiratesislamic_clean_amount None = Fin 0 \<and> emiratesislamic_clean_amount (Some '''') = Fin 0"
  by (simp add: rakbank_clean_amount_def emiratesislamic_clean_amount_def)

text \<open>
  The normalizer of \<^verbatim>\<open>emiratesislamic.py\<close> is a total function, and a text that
  \<^verbatim>\<open>float\<close> refuses gives \<open>0.0\<close>.
\<close>

lemma emiratesislamic_clean_amount_unparseable:
  "py_float (strip (replace ''CR'' '''' (replace '','' '''' s))) = Inl e \<Longrightarrow>
     emiratesislamic_clean_amount (Some s) = Fin 0"
  by (simp add: emiratesislamic_clean_amount_def)

lemma clean_amount_unparseable_example:
  "rakbank_clean_amount (Some ''abc'') = Inl ValueError \<and>
   emiratesislamic_clean_amount (Some ''abc'') = Fin 0 \<and>
   rakbank_clean_amount (Some ''1 00'') = Inl ValueError"
  by (simp add: base_eval rakbank_clean_amount_def emiratesislamic_clean_amount_def)

lemma rakbank_pages_amount_raises:
  "parse_rakbank_pages rakbank_init [Some ''01/09/2025 GROCERY AED 1 00 - 5.00''] = Inl ValueError"
  by (simp add: base_eval rakbank_eval cong: rx_match_cong)

text \<open>
  The unescaped point takes any character: with U+00B7, two bytes in the UTF-8 text, in
  the place of the decimal point the line is an AED line as well, and \<^verbatim>\<open>float\<close> raises.
\<close>

lemma rakbank_middle_dot_amount:
  "parse_rakbank_lines rakbank_init
     [''01/09/2025 GROCERY AED 1'' @ [CHR 0xC2, CHR 0xB7] @ ''00 - 5.00''] = Inl ValueError"
  by (simp add: base_eval rakbank_eval cong: rx_match_cong)

text \<open>
  C2. The amount normalizer returns a number for every input string and never raises;
  \<^verbatim>\<open>"1,234.56CR"\<close> gives 1234.56 and an empty or unparseable input gives 0. The
  \<^verbatim>\<open>clean_amount\<close> of \<^verbatim>\<open>emiratesislamic.py\<close> does that (the lemmas above). The
  \<^verbatim>\<open>clean_amount\<close> of \<^verbatim>\<open>rakbank.py\<close> calls \<^verbatim>\<open>float\<close> without the guard: on \<^verbatim>\<open>"abc"\<close> it
  raises \<^verbatim>\<open>ValueError\<close>, and so it does on \<^verbatim>\<open>"1 00"\<close>, which the amount group of
  \<^verbatim>\<open>RAKBANK_LINE_REGEX\<close> accepts (its point is unescaped); the error leaves the line loop
  and \<^verbatim>\<open>parse_rakbank\<close>.
\<close>

theorem rakbank_clean_amount_raises:
  "rakbank_clean_amount (Some ''abc'') = Inl ValueError \<and>
   emiratesislamic_clean_amount (Some ''abc'') = Fin 0 \<and>
   rakbank_clean_amount (Some ''1 00'') = Inl ValueError \<and>
   parse_rakbank (PdfPages [Some ''01/09/2025 GROCERY AED 1 00 - 5.00'']) = Inl ValueError"
  using clean_amount_unparseable_example rakbank_pages_amount_raises
  by (simp add: parse_rakbank_def)

section \<open>Debit and credit\<close>

lemma rakbank_aed_transaction_one_sided:
  "rakbank_aed_transaction buf c = Inr t \<Longrightarrow> one_sided t"
  by (auto simp: rakbank_aed_transaction_def one_sided_def Let_def split: option.splits sum.splits)

lemma rakbank_fx_transaction_one_sided:
  "rakbank_fx_transaction buf c = Inr t \<Longrightarrow> one_sided t"
  by (auto simp: rakbank_fx_transaction_def one_sided_def Let_def split: option.splits sum.splits)

lemma emiratesislamic_transaction_one_sided:
  "emiratesislamic_transaction f t c = Inr x \<Longrightarrow> one_sided x"
  by (auto simp: emiratesislamic_transaction_def one_sided_def Let_def split: option.splits sum.splits)

lemma parse_rakbank_line_one_sided:
  assumes "parse_rakbank_line st raw = Inr st'" and "\<forall>t \<in> set (transactions st). one_sided t"
  shows "\<forall>t \<in> set (transactions st'). one_sided t"
  using assms
  by (auto simp: parse_rakbank_line_def Let_def
      dest: rakbank_aed_transaction_one_sided rakbank_fx_transaction_one_sided
      split: if_splits option.splits sum.splits prod.splits)

lemma parse_emiratesislamic_line_one_sided:
  assumes "parse_emiratesislamic_line st raw = Inr st'" and "\<forall>t \<in> set (transactions st). one_sided t"
  shows "\<forall>t \<in> set (transactions st'). one_sided t"
  using assms
  by (auto simp: parse_emiratesislamic_line_def Let_def
      dest: emiratesislamic_transaction_one_sided
      split: if_splits option.splits sum.splits prod.splits)

lemma parse_rakbank_lines_one_sided:
  "parse_rakbank_lines st ls = Inr st' \<Longrightarrow> \<forall>t \<in> set (transactions st). one_sided t \<Longrightarrow>
     \<forall>t \<in> set (transactions st'). one_sided t"
proof (induction ls arbitrary: st)
  case Nil
  then show ?case by simp
next
  case (Cons raw ls)
  from Cons.prems(1) obtain st1 where step: "parse_rakbank_line st raw = Inr st1"
    and rest: "parse_rakbank_lines st1 ls = Inr st'"
    by (auto split: sum.splits)
  from step Cons.prems(2) have "\<forall>t \<in> set (transactions st1). one_sided t"
    by (rule parse_rakbank_line_one_sided)
  with rest show ?case by (rule Cons.IH)
qed

lemma parse_emiratesislamic_lines_one_sided:
  "parse_emiratesislamic_lines st ls = Inr st' \<Longrightarrow> \<forall>t \<in> set (transactions st). one_sided t \<Longrightarrow>
     \<forall>t \<in> set (transactions st'). one_sided t"
proof (induction ls arbitrary: st)
  case Nil
  then show ?case by simp
next
  case (Cons raw ls)
  from Cons.prems(1) obtain st1 where step: "parse_emiratesislamic_line st raw = Inr st1"
    and rest: "parse_emiratesislamic_lines st1 ls = Inr st'"
    by (auto split: sum.splits)
  from step Cons.prems(2) have "\<forall>t \<in> set (transactions st1). one_sided t"
    by (rule parse_emiratesislamic_line_one_sided)
  with rest show ?case by (rule Cons.IH)
qed

lemma parse_rakbank_pages_one_sided:
  "parse_rakbank_pages st ps = Inr st' \<Longrightarrow> \<forall>t \<in> set (transactions st). one_sided t \<Longrightarrow>
     \<forall>t \<in> set (transactions st'). one_sided t"
proof (induction ps arbitrary: st)
  case Nil
  then show ?case by simp
next
  case (Cons p ps)
  from Cons.prems(1) obtain st1 where step: "parse_rakbank_page st p = Inr st1"
    and rest: "parse_rakbank_pages st1 ps = Inr st'"
    by (auto split: sum.splits)
  from step have "parse_rakbank_lines (st\<lparr>buffer_desc := []\<rparr>) (page_lines p) = Inr st1"
    by (simp add: parse_rakbank_page_def)
  moreover from Cons.prems(2) have "\<forall>t \<in> set (transactions (st\<lparr>buffer_desc := []\<rparr>)). one_sided t"
    by simp
  ultimately have "\<forall>t \<in> set (transactions st1). one_sided t"
    by (rule parse_rakbank_lines_one_sided)
  with rest show ?case by (rule Cons.IH)
qed

lemma parse_emiratesislamic_pages_one_sided:
  "parse_emiratesislamic_pages st ps = Inr st' \<Longrightarrow> \<forall>t \<in> set (transactions st). one_sided t \<Longrightarrow>
     \<forall>t \<in> set (transactions st'). one_sided t"
proof (induction ps arbitrary: st)
  case Nil
  then show ?case by simp
next
  case (Cons p ps)
  from Cons.prems(1) obtain st1 where step: "parse_emiratesislamic_lines st (page_lines p) = Inr st1"
    and rest: "parse_emiratesislamic_pages st1 ps = Inr st'"
    by (auto split: sum.splits)
  from step Cons.prems(2) have "\<forall>t \<in> set (transactions st1). one_sided t"
    by (rule parse_emiratesislamic_lines_one_sided)
  with rest show ?case by (rule Cons.IH)
qed

lemma parse_rakbank_one_sided:
  assumes "parse_rakbank pdf = Inr (Parsed r)" and "t \<in> set (result_transactions r)"
  shows "one_sided t"
proof -
  from assms(1) obtain pages st where run: "parse_rakbank_pages rakbank_init pages = Inr st"
    and r: "result_transactions r = transactions st"
    by (auto simp: parse_rakbank_def normalize_transactions_def Let_def
        split: pdf_source.splits sum.splits if_splits)
  have "\<forall>t \<in> set (transactions rakbank_init). one_sided t"
    by (simp add: rakbank_init_def)
  with run have "\<forall>t \<in> set (transactions st). one_sided t"
    by (rule parse_rakbank_pages_one_sided)
  with r assms(2) show ?thesis by simp
qed

lemma parse_emiratesislamic_one_sided:
  assumes "parse_emiratesislamic pdf = Inr (Parsed r)" and "t \<in> set (result_transactions r)"
  shows "one_sided t"
proof -
  from assms(1) obtain pages st where run: "parse_emiratesislamic_pages emiratesislamic_init pages = Inr st"
    and r: "result_transactions r = transactions st"
    by (auto simp: parse_emiratesislamic_def normalize_transactions_def Let_def
        split: pdf_source.splits sum.splits if_splits)
  have "\<forall>t \<in> set (transactions emiratesislamic_init). one_sided t"
    by (simp add: emiratesislamic_init_def)
  with run have "\<forall>t \<in> set (transactions st). one_sided t"
    by (rule parse_emiratesislamic_pages_one_sided)
  with r assms(2) show ?thesis by simp
qed

text \<open>
  C1 (as amended). In every transaction of the list that \<^verbatim>\<open>parse_rakbank\<close> or
  \<^verbatim>\<open>parse_emiratesislamic\<close> returns, one of \<^verbatim>\<open>debit\<close> and \<^verbatim>\<open>credit\<close> is exactly 0 and the
  other equals \<^verbatim>\<open>amount\<close>; so when the amount is not 0, exactly one of the two is
  nonzero and it is the amount.
\<close>

theorem debit_credit_one_sided:
  assumes "parse_rakbank pdf = Inr (Parsed r) \<or> parse_emiratesislamic pdf = Inr (Parsed r)"
    and "t \<in> set (result_transactions r)"
  shows "((debit t = Fin 0 \<and> credit t = amount t) \<or> (credit t = Fin 0 \<and> debit t = amount t)) \<and>
         (amount t \<noteq> Fin 0 \<longrightarrow> (debit t = Fin 0) \<noteq> (credit t = Fin 0))"
proof -
  from assms have "one_sided t"
    by (auto intro: parse_rakbank_one_sided parse_emiratesislamic_one_sided)
  then show ?thesis
    by (auto simp: one_sided_def)
qed

lemma emiratesislamic_zero_amount_run:
  "parse_emiratesislamic_pages emiratesislamic_init [Some ''16 JAN 14 JAN FREE ITEM 0.00''] =
     Inr \<lparr>transactions =
            [\<lparr>transaction_date = Some ''1900-01-14'', description = ''FREE ITEM'',
              debit = Fin 0, credit = Fin 0, amount = Fin 0, balance = None,
              bank = ''Emirates Islamic'', card_type = ''credit'',
              fx_currency = None, fx_amount = None, fx_rate = None\<rparr>],
          statement_from = None, statement_to = None, pending_range = None\<rparr>"
  by (simp add: base_eval emiratesislamic_eval cong: rx_match_cong)

text \<open>
  C1 as stated asks for exactly one nonzero field in every transaction. A line whose
  amount is \<^verbatim>\<open>0.00\<close> is matched and emitted with \<^verbatim>\<open>debit\<close>, \<^verbatim>\<open>credit\<close> and \<^verbatim>\<open>amount\<close> all 0.
\<close>

theorem zero_amount_counterexample:
  "parse_emiratesislamic (PdfPages [Some ''16 JAN 14 JAN FREE ITEM 0.00'']) =
     Inr (Parsed
       \<lparr>result_bank = ''Emirates Islamic'', result_card_type = ''credit'',
        summary = \<lparr>total_debit = Fin 0, total_credit = Fin 0, count = 1\<rparr>,
        result_transactions =
          [\<lparr>transaction_date = Some ''1900-01-14'', description = ''FREE ITEM'',
            debit = Fin 0, credit = Fin 0, amount = Fin 0, balance = None,
            bank = ''Emirates Islamic'', card_type = ''credit'',
            fx_currency = None, fx_amount = None, fx_rate = None\<rparr>],
        from_date = None, to_date = None\<rparr>)"
  by (simp add: parse_emiratesislamic_def emiratesislamic_zero_amount_run
      normalize_transactions_def summarize_transactions_def
      emiratesislamic_BANK_NAME_def emiratesislamic_CARD_TYPE_def
      del: parse_emiratesislamic_pages.simps)

lemma emiratesislamic_taxi_run:
  "parse_emiratesislamic_pages emiratesislamic_init [Some ''14 AUG 14 AUG TAXI 9.50''] =
     Inr \<lparr>transactions =
            [\<lparr>transaction_date = Some ''1900-08-14'', description = ''TAXI'',
              debit = Fin 9.5, credit = Fin 0, amount = Fin 9.5, balance = None,
              bank = ''Emirates Islamic'', card_type = ''credit'',
              fx_currency = None, fx_amount = None, fx_rate = None\<rparr>],
          statement_from = None, statement_to = None, pending_range = None\<rparr>"
  by (simp add: base_eval emiratesislamic_eval cong: rx_match_cong)

lemma rakbank_refund_run:
  "parse_rakbank_pages rakbank_init [Some ''15/08/2025 REFUND NOON AED 20.00 - 80.00 CR''] =
     Inr \<lparr>transactions =
            [\<lparr>transaction_date = Some ''2025-08-15'', description = ''REFUND NOON'',
              debit = Fin 0, credit = Fin 20, amount = Fin 20, balance = Some (Fin 80),
              bank = ''RAKBANK'', card_type = ''credit'',
              fx_currency = None, fx_amount = None, fx_rate = None\<rparr>],
          statement_from = None, statement_to = None, buffer_desc = []\<rparr>"
  by (simp add: base_eval rakbank_eval cong: rx_match_cong)

theorem debit_credit_one_sided_witness:
  "parse_emiratesislamic (PdfPages [Some ''14 AUG 14 AUG TAXI 9.50'']) =
     Inr (Parsed
       \<lparr>result_bank = ''Emirates Islamic'', result_card_type = ''credit'',
        summary = \<lparr>total_debit = Fin 9.5, total_credit = Fin 0, count = 1\<rparr>,
        result_transactions =
          [\<lparr>transaction_date = Some ''1900-08-14'', description = ''TAXI'',
            debit = Fin 9.5, credit = Fin 0, amount = Fin 9.5, balance = None,
            bank = ''Emirates Islamic'', card_type = ''credit'',
            fx_currency = None, fx_amount = None, fx_rate = None\<rparr>],
        from_date = None, to_date = None\<rparr>) \<and>
   parse_rakbank (PdfPages [Some ''15/08/2025 REFUND NOON AED 20.00 - 80.00 CR'']) =
     Inr (Parsed
       \<lparr>result_bank = ''RAKBANK'', result_card_type = ''credit'',
        summary = \<lparr>total_debit = Fin 0, total_credit = Fin 20, count = 1\<rparr>,
        result_transactions =
          [\<lparr>transaction_date = Some ''2025-08-15'', description = ''REFUND NOON'',
            debit = Fin 0, credit = Fin 20, amount = Fin 20, balance = Some (Fin 80),
            bank = ''RAKBANK'', card_type = ''credit'',
            fx_currency = None, fx_amount = None, fx_rate = None\<rparr>],
        from_date = None, to_date = None\<rparr>)"
proof -
  let ?t1 = "\<lparr>transaction_date = Some ''1900-08-14'', description = ''TAXI'',
            debit = Fin 9.5, credit = Fin 0, amount = Fin 9.5, balance = None,
            bank = ''Emirates Islamic'', card_type = ''credit'',
            fx_currency = None, fx_amount = None, fx_rate = None\<rparr>"
  let ?r1 = "\<lparr>result_bank = ''Emirates Islamic'', result_card_type = ''credit'',
        summary = \<lparr>total_debit = Fin 9.5, total_credit = Fin 0, count = 1\<rparr>,
        result_transactions = [?t1], from_date = None, to_date = None\<rparr>"
  let ?t2 = "\<lparr>transaction_date = Some ''2025-08-15'', description = ''REFUND NOON'',
            debit = Fin 0, credit = Fin 20, amount = Fin 20, balance = Some (Fin 80),
            bank = ''RAKBANK'', card_type = ''credit'',
            fx_currency = None, fx_amount = None, fx_rate = None\<rparr>"
  let ?r2 = "\<lparr>result_bank = ''RAKBANK'', result_card_type = ''credit'',
        summary = \<lparr>total_debit = Fin 0, total_credit = Fin 20, count = 1\<rparr>,
        result_transactions = [?t2], from_date = None, to_date = None\<rparr>"
  have p1: "parse_emiratesislamic (PdfPages [Some ''14 AUG 14 AUG TAXI 9.50'']) = Inr (Parsed ?r1)"
    by (simp add: parse_emiratesislamic_def emiratesislamic_taxi_run
        normalize_transactions_def summarize_transactions_def
        emiratesislamic_BANK_NAME_def emiratesislamic_CARD_TYPE_def
      del: parse_emiratesislamic_pages.simps)
  have p2: "parse_rakbank (PdfPages [Some ''15/08/2025 REFUND NOON AED 20.00 - 80.00 CR'']) = Inr (Parsed ?r2)"
    by (simp add: parse_rakbank_def rakbank_refund_run
        normalize_transactions_def summarize_transactions_def
        rakbank_BANK_NAME_def rakbank_CARD_TYPE_def
      del: parse_rakbank_pages.simps)
  have m1: "?t1 \<in> set (result_transactions ?r1)" and m2: "?t2 \<in> set (result_transactions ?r2)"
    by simp_all
  from debit_credit_one_sided [OF disjI2 [OF p1] m1] debit_credit_one_sided [OF disjI1 [OF p2] m2]
    p1 p2
  show ?thesis
    by blast
qed

section \<open>The statement period\<close>

lemma normalize_range_token_values:
  "normalize_range_token raw = Some t \<Longrightarrow> t = ''from'' \<or> t = ''to''"
  by (auto simp: normalize_range_token_def arabic_map_def Let_def split: if_splits)

lemma pending_consistent_init: "pending_consistent emiratesislamic_init"
  by (simp add: pending_consistent_def emiratesislamic_init_def)

lemma parse_emiratesislamic_line_pending_consistent:
  assumes "parse_emiratesislamic_line st raw = Inr st'" and "pending_consistent st"
  shows "pending_consistent st'"
proof (cases "any_in emiratesislamic_SKIP_KEYWORDS (lower raw)")
  case True
  with assms show ?thesis by (simp add: emiratesislamic_skip_line)
next
  case noskip: False
  show ?thesis
  proof (cases "re_match FROM_TO_REGEX raw")
    case (Some m)
    with assms(1) noskip have "pending_range st' = None"
      by (auto simp: parse_emiratesislamic_line_def Let_def split: option.splits prod.splits)
    then show ?thesis by (simp add: pending_consistent_def)
  next
    case nolabel: None
    show ?thesis
    proof (cases "truthy (normalize_range_token raw)")
      case True
      then obtain t where t: "normalize_range_token raw = Some t"
        by (cases "normalize_range_token raw") auto
      then have "t = ''from'' \<or> t = ''to''" by (rule normalize_range_token_values)
      with assms noskip nolabel True t show ?thesis
        by (auto simp: parse_emiratesislamic_line_def Let_def pending_consistent_def
            split: if_splits)
    next
      case False
      with assms noskip nolabel show ?thesis
        by (auto simp: parse_emiratesislamic_line_def Let_def pending_consistent_def
            split: if_splits option.splits sum.splits prod.splits)
    qed
  qed
qed

lemma parse_emiratesislamic_lines_pending_consistent:
  "parse_emiratesislamic_lines st ls = Inr st' \<Longrightarrow> pending_consistent st \<Longrightarrow> pending_consistent st'"
proof (induction ls arbitrary: st)
  case Nil
  then show ?case by simp
next
  case (Cons raw ls)
  from Cons.prems(1) obtain st1 where step: "parse_emiratesislamic_line st raw = Inr st1"
    and rest: "parse_emiratesislamic_lines st1 ls = Inr st'"
    by (auto split: sum.splits)
  from step Cons.prems(2) have "pending_consistent st1"
    by (rule parse_emiratesislamic_line_pending_consistent)
  with rest show ?case by (rule Cons.IH)
qed

lemma parse_emiratesislamic_line_keeps_boundary:
  assumes step: "parse_emiratesislamic_line st raw = Inr st'"
    and inv: "pending_consistent st"
    and nolabel: "re_match FROM_TO_REGEX raw = None"
  shows "(truthy (statement_from st) \<longrightarrow> statement_from st' = statement_from st) \<and>
         (truthy (statement_to st) \<longrightarrow> statement_to st' = statement_to st)"
proof (cases "any_in emiratesislamic_SKIP_KEYWORDS (lower raw)")
  case True
  with step show ?thesis by (simp add: emiratesislamic_skip_line)
next
  case noskip: False
  show ?thesis
  proof (cases "truthy (normalize_range_token raw)")
    case True
    with step noskip nolabel show ?thesis
      by (auto simp: parse_emiratesislamic_line_def Let_def split: if_splits)
  next
    case False
    with step inv noskip nolabel show ?thesis
      by (auto simp: parse_emiratesislamic_line_def Let_def pending_consistent_def
          split: if_splits option.splits sum.splits prod.splits)
  qed
qed

lemma parse_emiratesislamic_lines_keep_boundary:
  "parse_emiratesislamic_lines st ls = Inr st' \<Longrightarrow> pending_consistent st \<Longrightarrow>
   \<forall>l \<in> set ls. re_match FROM_TO_REGEX l = None \<Longrightarrow>
     (truthy (statement_from st) \<longrightarrow> statement_from st' = statement_from st) \<and>
     (truthy (statement_to st) \<longrightarrow> statement_to st' = statement_to st)"
proof (induction ls arbitrary: st)
  case Nil
  then show ?case by simp
next
  case (Cons raw ls)
  from Cons.prems(1) obtain st1 where step: "parse_emiratesislamic_line st raw = Inr st1"
    and rest: "parse_emiratesislamic_lines st1 ls = Inr st'"
    by (auto split: sum.splits)
  from Cons.prems(3) have nolabel: "re_match FROM_TO_REGEX raw = None"
    and nolabels: "\<forall>l \<in> set ls. re_match FROM_TO_REGEX l = None"
    by simp_all
  from step Cons.prems(2) have inv1: "pending_consistent st1"
    by (rule parse_emiratesislamic_line_pending_consistent)
  from step Cons.prems(2) nolabel
  have one: "(truthy (statement_from st) \<longrightarrow> statement_from st1 = statement_from st) \<and>
             (truthy (statement_to st) \<longrightarrow> statement_to st1 = statement_to st)"
    by (rule parse_emiratesislamic_line_keeps_boundary)
  from rest inv1 nolabels
  have more: "(truthy (statement_from st1) \<longrightarrow> statement_from st' = statement_from st1) \<and>
              (truthy (statement_to st1) \<longrightarrow> statement_to st' = statement_to st1)"
    by (rule Cons.IH)
  from one more show ?case by auto
qed

lemma parse_rakbank_line_keeps_period:
  assumes "parse_rakbank_line st raw = Inr st'" and "\<not> contains ''statement period'' (lower raw)"
  shows "statement_from st' = statement_from st \<and> statement_to st' = statement_to st"
  using assms
  by (auto simp: parse_rakbank_line_def Let_def split: if_splits option.splits sum.splits prod.splits)

lemma parse_rakbank_lines_keep_period:
  "parse_rakbank_lines st ls = Inr st' \<Longrightarrow>
   \<forall>l \<in> set ls. \<not> contains ''statement period'' (lower l) \<Longrightarrow>
     statement_from st' = statement_from st \<and> statement_to st' = statement_to st"
proof (induction ls arbitrary: st)
  case Nil
  then show ?case by simp
next
  case (Cons raw ls)
  from Cons.prems(1) obtain st1 where step: "parse_rakbank_line st raw = Inr st1"
    and rest: "parse_rakbank_lines st1 ls = Inr st'"
    by (auto split: sum.splits)
  from step Cons.prems(2)
  have "statement_from st1 = statement_from st \<and> statement_to st1 = statement_to st"
    by (simp add: parse_rakbank_line_keeps_period)
  moreover from rest Cons.prems(2)
  have "statement_from st' = statement_from st1 \<and> statement_to st' = statement_to st1"
    by (simp add: Cons.IH)
  ultimately show ?case by simp
qed

lemma parse_emiratesislamic_pages_lines:
  "parse_emiratesislamic_pages st pages =
     parse_emiratesislamic_lines st (concat (map page_lines pages))"
  by (induction pages arbitrary: st)
     (auto simp: parse_emiratesislamic_lines_append split: sum.splits)

lemma pending_kept:
  assumes "truthy (pending_range st)"
    and "\<not> any_in emiratesislamic_SKIP_KEYWORDS (lower raw)"
    and "re_match FROM_TO_REGEX raw = None"
    and "\<not> truthy (normalize_range_token raw)"
    and "\<not> truthy (parse_full_date raw)"
    and "parse_emiratesislamic_line st raw = Inr st'"
  shows "pending_range st' = pending_range st \<and> statement_from st' = statement_from st \<and>
         statement_to st' = statement_to st"
  using assms
  by (auto simp: parse_emiratesislamic_line_def Let_def split: if_splits option.splits sum.splits prod.splits)

lemma pending_resolved:
  assumes "truthy (pending_range st)"
    and "\<not> any_in emiratesislamic_SKIP_KEYWORDS (lower raw)"
    and "re_match FROM_TO_REGEX raw = None"
    and "\<not> truthy (normalize_range_token raw)"
    and "truthy (parse_full_date raw)"
  shows "parse_emiratesislamic_line st raw =
           Inr ((if pending_range st = Some ''from''
                 then st\<lparr>statement_from := parse_full_date raw\<rparr>
                 else st\<lparr>statement_to := parse_full_date raw\<rparr>)\<lparr>pending_range := None\<rparr>)"
  using assms
  by (simp add: parse_emiratesislamic_line_def Let_def)

lemma transaction_line_appends:
  assumes "\<not> any_in emiratesislamic_SKIP_KEYWORDS (lower raw)"
    and "re_match FROM_TO_REGEX raw = None"
    and "\<not> truthy (normalize_range_token raw)"
    and "\<not> truthy (parse_full_date raw)"
    and "re_match LINE_REGEX raw \<noteq> None"
    and "parse_emiratesislamic_line st raw = Inr st'"
  shows "length (transactions st') = Suc (length (transactions st))"
  using assms
  by (auto simp: parse_emiratesislamic_line_def Let_def split: if_splits option.splits sum.splits prod.splits)

text \<open>Lines of the examples, tested one by one.\<close>

lemma line_To:
  "\<not> any_in emiratesislamic_SKIP_KEYWORDS (lower ''To'') \<and>
   re_match FROM_TO_REGEX ''To'' = None \<and>
   normalize_range_token ''To'' = Some ''to''"
  by (simp add: base_eval emiratesislamic_eval cong: rx_match_cong)

lemma line_From:
  "\<not> any_in emiratesislamic_SKIP_KEYWORDS (lower ''From'') \<and>
   re_match FROM_TO_REGEX ''From'' = None \<and>
   normalize_range_token ''From'' = Some ''from'' \<and>
   parse_full_date ''From'' = None"
  by (simp add: base_eval emiratesislamic_eval cong: rx_match_cong)

lemma line_date:
  "\<not> any_in emiratesislamic_SKIP_KEYWORDS (lower ''14th Jan 2025'') \<and>
   re_match FROM_TO_REGEX ''14th Jan 2025'' = None \<and>
   normalize_range_token ''14th Jan 2025'' = None \<and>
   parse_full_date ''14th Jan 2025'' = Some ''2025-01-14''"
  by (simp add: base_eval emiratesislamic_eval cong: rx_match_cong)

lemma line_free_text:
  "\<not> any_in emiratesislamic_SKIP_KEYWORDS (lower ''Statement Summary'') \<and>
   re_match FROM_TO_REGEX ''Statement Summary'' = None \<and>
   normalize_range_token ''Statement Summary'' = None \<and>
   parse_full_date ''Statement Summary'' = None \<and>
   re_match LINE_REGEX ''Statement Summary'' = None"
  by (simp add: base_eval emiratesislamic_eval cong: rx_match_cong)

lemma line_taxi:
  "\<not> any_in emiratesislamic_SKIP_KEYWORDS (lower ''14 AUG 14 AUG TAXI 9.50'') \<and>
   re_match FROM_TO_REGEX ''14 AUG 14 AUG TAXI 9.50'' = None \<and>
   normalize_range_token ''14 AUG 14 AUG TAXI 9.50'' = None \<and>
   parse_full_date ''14 AUG 14 AUG TAXI 9.50'' = None \<and>
   re_match LINE_REGEX ''14 AUG 14 AUG TAXI 9.50'' \<noteq> None"
  by (simp add: base_eval emiratesislamic_eval cong: rx_match_cong)

lemma labelled_from_first:
  "parse_emiratesislamic_lines emiratesislamic_init [''From: 11th Jul 2025''] =
     Inr \<lparr>transactions = [], statement_from = Some ''2025-07-11'', statement_to = None,
          pending_range = None\<rparr>"
  by (simp add: base_eval emiratesislamic_eval cong: rx_match_cong)

lemma labelled_from_second:
  "parse_emiratesislamic_line
     \<lparr>transactions = [], statement_from = Some ''2025-07-11'', statement_to = None,
      pending_range = None\<rparr> ''From: 12th Aug 2025'' =
     Inr \<lparr>transactions = [], statement_from = Some ''2025-08-12'', statement_to = None,
          pending_range = None\<rparr>"
  by (simp add: base_eval emiratesislamic_eval cong: rx_match_cong)

lemma rakbank_period_first:
  "parse_rakbank_lines rakbank_init [''Statement Period: 15/08/2025 TO 14/09/2025''] =
     Inr \<lparr>transactions = [], statement_from = Some ''2025-08-15'',
          statement_to = Some ''2025-09-14'', buffer_desc = []\<rparr>"
  by (simp add: base_eval rakbank_eval cong: rx_match_cong)

lemma rakbank_period_second:
  "parse_rakbank_line
     \<lparr>transactions = [], statement_from = Some ''2025-08-15'',
      statement_to = Some ''2025-09-14'', buffer_desc = []\<rparr>
     ''Statement Period: 15/09/2025 TO 14/10/2025'' =
     Inr \<lparr>transactions = [], statement_from = Some ''2025-09-15'',
          statement_to = Some ''2025-10-14'', buffer_desc = []\<rparr>"
  by (simp add: base_eval rakbank_eval cong: rx_match_cong)

lemma step_To:
  "parse_emiratesislamic_line emiratesislamic_init ''To'' =
     Inr \<lparr>transactions = [], statement_from = None, statement_to = None,
          pending_range = Some ''to''\<rparr>"
  using line_To by (simp add: parse_emiratesislamic_line_def emiratesislamic_init_def Let_def)

lemma step_boilerplate_pending:
  "parse_emiratesislamic_line
     \<lparr>transactions = [], statement_from = None, statement_to = None,
      pending_range = Some ''to''\<rparr> ''Minimum Payment Due 250.00'' =
     Inr \<lparr>transactions = [], statement_from = None, statement_to = None,
          pending_range = Some ''to''\<rparr>"
  using minimum_payment_due_is_boilerplate by (simp add: emiratesislamic_skip_line)

lemma step_taxi_pending:
  "parse_emiratesislamic_line
     \<lparr>transactions = [], statement_from = None, statement_to = None,
      pending_range = Some ''to''\<rparr> ''14 AUG 14 AUG TAXI 9.50'' =
     Inr \<lparr>transactions =
            [\<lparr>transaction_date = Some ''1900-08-14'', description = ''TAXI'',
              debit = Fin 9.5, credit = Fin 0, amount = Fin 9.5, balance = None,
              bank = ''Emirates Islamic'', card_type = ''credit'',
              fx_currency = None, fx_amount = None, fx_rate = None\<rparr>],
          statement_from = None, statement_to = None, pending_range = Some ''to''\<rparr>"
  by (simp add: base_eval emiratesislamic_eval cong: rx_match_cong)

lemma step_From_pending:
  "parse_emiratesislamic_line
     \<lparr>transactions = [], statement_from = None, statement_to = None,
      pending_range = Some ''to''\<rparr> ''From'' =
     Inr \<lparr>transactions = [], statement_from = None, statement_to = None,
          pending_range = Some ''from''\<rparr>"
  using line_From by (simp add: parse_emiratesislamic_line_def Let_def)

lemma step_date_after_From:
  "parse_emiratesislamic_line
     \<lparr>transactions = [], statement_from = None, statement_to = None,
      pending_range = Some ''from''\<rparr> ''14th Jan 2025'' =
     Inr \<lparr>transactions = [], statement_from = Some ''2025-01-14'', statement_to = None,
          pending_range = None\<rparr>"
  using line_date by (simp add: parse_emiratesislamic_line_def Let_def)

lemma step_free_text_pending:
  "parse_emiratesislamic_line
     \<lparr>transactions = [], statement_from = None, statement_to = None,
      pending_range = Some ''to''\<rparr> ''Statement Summary'' =
     Inr \<lparr>transactions = [], statement_from = None, statement_to = None,
          pending_range = Some ''to''\<rparr>"
  using line_free_text by (simp add: parse_emiratesislamic_line_def Let_def)

lemma step_date_after_To:
  "parse_emiratesislamic_line
     \<lparr>transactions = [], statement_from = None, statement_to = None,
      pending_range = Some ''to''\<rparr> ''14th Jan 2025'' =
     Inr \<lparr>transactions = [], statement_from = None, statement_to = Some ''2025-01-14'',
          pending_range = None\<rparr>"
  using line_date by (simp add: parse_emiratesislamic_line_def Let_def)

lemma step_To_resolved:
  "parse_emiratesislamic_line
     \<lparr>transactions = [], statement_from = None, statement_to = Some ''2025-01-14'',
      pending_range = None\<rparr> ''To'' =
     Inr \<lparr>transactions = [], statement_from = None, statement_to = Some ''2025-01-14'',
          pending_range = None\<rparr>"
  using line_To by (simp add: parse_emiratesislamic_line_def Let_def)

lemma line_other_date:
  "\<not> any_in emiratesislamic_SKIP_KEYWORDS (lower ''15th Feb 2025'') \<and>
   re_match FROM_TO_REGEX ''15th Feb 2025'' = None \<and>
   normalize_range_token ''15th Feb 2025'' = None \<and>
   parse_full_date ''15th Feb 2025'' = Some ''2025-02-15''"
  by (simp add: base_eval emiratesislamic_eval cong: rx_match_cong)

lemma step_From_resolved:
  "parse_emiratesislamic_line
     \<lparr>transactions = [], statement_from = None, statement_to = Some ''2025-01-14'',
      pending_range = None\<rparr> ''From'' =
     Inr \<lparr>transactions = [], statement_from = None, statement_to = Some ''2025-01-14'',
          pending_range = Some ''from''\<rparr>"
  using line_From by (simp add: parse_emiratesislamic_line_def Let_def)

lemma step_other_date_after_From:
  "parse_emiratesislamic_line
     \<lparr>transactions = [], statement_from = None, statement_to = Some ''2025-01-14'',
      pending_range = Some ''from''\<rparr> ''15th Feb 2025'' =
     Inr \<lparr>transactions = [], statement_from = Some ''2025-02-15'',
          statement_to = Some ''2025-01-14'', pending_range = None\<rparr>"
  using line_other_date by (simp add: parse_emiratesislamic_line_def Let_def)

lemma line_purchase_at:
  "\<not> contains ''statement period'' (lower ''PURCHASE AT'')"
  by (simp add: base_eval)

lemma step_purchase_at:
  "parse_rakbank_line
     \<lparr>transactions = [], statement_from = Some ''2025-08-15'',
      statement_to = Some ''2025-09-14'', buffer_desc = []\<rparr> ''PURCHASE AT'' =
     Inr \<lparr>transactions = [], statement_from = Some ''2025-08-15'',
          statement_to = Some ''2025-09-14'', buffer_desc = [''PURCHASE AT'']\<rparr>"
  by (simp add: base_eval rakbank_eval cong: rx_match_cong)

subsection \<open>First value or last value\<close>

lemma labelled_pages_lines:
  "concat (map page_lines [Some ''From: 11th Jul 2025'', Some ''From: 12th Aug 2025'']) =
     [''From: 11th Jul 2025'', ''From: 12th Aug 2025'']"
  by (simp add: base_eval)

text \<open>
  C3. Once a boundary of the statement period is set, no later line of the same parse
  overwrites it with a different value: the first value is the one returned. The
  labelled-line branch of \<^verbatim>\<open>parse_emiratesislamic\<close> (lines 97 to 106) does not keep to
  that: it assigns without looking whether the boundary is set, so a second labelled
  line replaces the value of the first, where the bare-marker branch of the same loop
  (lines 110 to 113) passes over a marker whose boundary is set. The statement-period
  branch of \<^verbatim>\<open>parse_rakbank\<close> (lines 71 to 77) assigns in the same way.
\<close>

theorem period_boundary_overwritten:
  "parse_emiratesislamic (PdfPages [Some ''From: 11th Jul 2025'', Some ''From: 12th Aug 2025'']) =
     Inr (Parsed
       \<lparr>result_bank = ''Emirates Islamic'', result_card_type = ''credit'',
        summary = \<lparr>total_debit = Fin 0, total_credit = Fin 0, count = 0\<rparr>,
        result_transactions = [], from_date = Some ''2025-08-12'', to_date = None\<rparr>) \<and>
   parse_emiratesislamic_lines emiratesislamic_init [''From: 11th Jul 2025''] =
     Inr \<lparr>transactions = [], statement_from = Some ''2025-07-11'', statement_to = None,
          pending_range = None\<rparr> \<and>
   parse_emiratesislamic_lines emiratesislamic_init
     [''From: 11th Jul 2025'', ''From: 12th Aug 2025''] =
     Inr \<lparr>transactions = [], statement_from = Some ''2025-08-12'', statement_to = None,
          pending_range = None\<rparr> \<and>
   parse_rakbank_lines rakbank_init [''Statement Period: 15/08/2025 TO 14/09/2025''] =
     Inr \<lparr>transactions = [], statement_from = Some ''2025-08-15'',
          statement_to = Some ''2025-09-14'', buffer_desc = []\<rparr> \<and>
   parse_rakbank_lines rakbank_init
     [''Statement Period: 15/08/2025 TO 14/09/2025'',
      ''Statement Period: 15/09/2025 TO 14/10/2025''] =
     Inr \<lparr>transactions = [], statement_from = Some ''2025-09-15'',
          statement_to = Some ''2025-10-14'', buffer_desc = []\<rparr>"
proof -
  have e: "parse_emiratesislamic_lines emiratesislamic_init
             ([''From: 11th Jul 2025''] @ [''From: 12th Aug 2025'']) =
           Inr \<lparr>transactions = [], statement_from = Some ''2025-08-12'', statement_to = None,
                pending_range = None\<rparr>"
    by (simp only: parse_emiratesislamic_lines_append labelled_from_first)
       (simp add: labelled_from_second)
  have r: "parse_rakbank_lines rakbank_init
             ([''Statement Period: 15/08/2025 TO 14/09/2025''] @
              [''Statement Period: 15/09/2025 TO 14/10/2025'']) =
           Inr \<lparr>transactions = [], statement_from = Some ''2025-09-15'',
                statement_to = Some ''2025-10-14'', buffer_desc = []\<rparr>"
    by (simp only: parse_rakbank_lines_append rakbank_period_first)
       (simp add: rakbank_period_second)
  from e have "parse_emiratesislamic_pages emiratesislamic_init
      [Some ''From: 11th Jul 2025'', Some ''From: 12th Aug 2025''] =
      Inr \<lparr>transactions = [], statement_from = Some ''2025-08-12'', statement_to = None,
           pending_range = None\<rparr>"
    by (simp only: parse_emiratesislamic_pages_lines labelled_pages_lines append.simps)
  then have d: "parse_emiratesislamic
      (PdfPages [Some ''From: 11th Jul 2025'', Some ''From: 12th Aug 2025'']) =
     Inr (Parsed
       \<lparr>result_bank = ''Emirates Islamic'', result_card_type = ''credit'',
        summary = \<lparr>total_debit = Fin 0, total_credit = Fin 0, count = 0\<rparr>,
        result_transactions = [], from_date = Some ''2025-08-12'', to_date = None\<rparr>)"
    by (simp add: parse_emiratesislamic_def normalize_transactions_def summarize_transactions_def
        emiratesislamic_BANK_NAME_def emiratesislamic_CARD_TYPE_def
        del: parse_emiratesislamic_pages.simps)
  from d e r labelled_from_first rakbank_period_first show ?thesis
    by simp
qed

text \<open>
  The guard of the bare-marker branch: as long as no labelled line comes, a boundary that
  is set stays as it is, whatever markers and dates follow. \<open>es1\<close> is any state that the
  loop reaches from the start, \<open>ys\<close> are the lines after it. In \<^verbatim>\<open>parse_rakbank\<close> the
  statement-period line is the only one that assigns.
\<close>

lemma marker_branch_keeps_boundary:
  "(parse_emiratesislamic_lines emiratesislamic_init xs = Inr es1 \<and>
    parse_emiratesislamic_lines es1 ys = Inr es2 \<and>
    (\<forall>l \<in> set ys. re_match FROM_TO_REGEX l = None) \<longrightarrow>
      (truthy (statement_from es1) \<longrightarrow> statement_from es2 = statement_from es1) \<and>
      (truthy (statement_to es1) \<longrightarrow> statement_to es2 = statement_to es1)) \<and>
   (parse_rakbank_lines rs1 zs = Inr rs2 \<and>
    (\<forall>l \<in> set zs. \<not> contains ''statement period'' (lower l)) \<longrightarrow>
      statement_from rs2 = statement_from rs1 \<and> statement_to rs2 = statement_to rs1)"
proof (intro conjI impI; (elim conjE)?)
  assume reach: "parse_emiratesislamic_lines emiratesislamic_init xs = Inr es1"
    and run: "parse_emiratesislamic_lines es1 ys = Inr es2"
    and nolabels: "\<forall>l \<in> set ys. re_match FROM_TO_REGEX l = None"
  from reach pending_consistent_init have inv: "pending_consistent es1"
    by (rule parse_emiratesislamic_lines_pending_consistent)
  from run inv nolabels
  have kept: "(truthy (statement_from es1) \<longrightarrow> statement_from es2 = statement_from es1) \<and>
        (truthy (statement_to es1) \<longrightarrow> statement_to es2 = statement_to es1)"
    by (rule parse_emiratesislamic_lines_keep_boundary)
  { assume "truthy (statement_from es1)"
    with kept show "statement_from es2 = statement_from es1" by simp }
  { assume "truthy (statement_to es1)"
    with kept show "statement_to es2 = statement_to es1" by simp }
next
  assume run: "parse_rakbank_lines rs1 zs = Inr rs2"
    and plain: "\<forall>l \<in> set zs. \<not> contains ''statement period'' (lower l)"
  then have both: "statement_from rs2 = statement_from rs1 \<and> statement_to rs2 = statement_to rs1"
    by (rule parse_rakbank_lines_keep_period)
  from both show "statement_from rs2 = statement_from rs1" by simp
  from both show "statement_to rs2 = statement_to rs1" by simp
qed

lemma marker_branch_keeps_boundary_example:
  "parse_emiratesislamic_lines emiratesislamic_init [''To'', ''14th Jan 2025''] =
     Inr \<lparr>transactions = [], statement_from = None, statement_to = Some ''2025-01-14'',
          pending_range = None\<rparr> \<and>
   parse_emiratesislamic_lines
     \<lparr>transactions = [], statement_from = None, statement_to = Some ''2025-01-14'',
      pending_range = None\<rparr> [''To'', ''From'', ''15th Feb 2025''] =
     Inr \<lparr>transactions = [], statement_from = Some ''2025-02-15'',
          statement_to = Some ''2025-01-14'', pending_range = None\<rparr> \<and>
   re_match FROM_TO_REGEX ''To'' = None \<and> re_match FROM_TO_REGEX ''From'' = None \<and>
   re_match FROM_TO_REGEX ''15th Feb 2025'' = None \<and>
   truthy (statement_to \<lparr>transactions = [], statement_from = None,
                          statement_to = Some ''2025-01-14'', pending_range = None\<rparr>) \<and>
   statement_to \<lparr>transactions = [], statement_from = Some ''2025-02-15'',
                 statement_to = Some ''2025-01-14'', pending_range = None\<rparr> =
   statement_to \<lparr>transactions = [], statement_from = None,
                 statement_to = Some ''2025-01-14'', pending_range = None\<rparr> \<and>
   parse_rakbank_lines
     \<lparr>transactions = [], statement_from = Some ''2025-08-15'',
      statement_to = Some ''2025-09-14'', buffer_desc = []\<rparr> [''PURCHASE AT''] =
     Inr \<lparr>transactions = [], statement_from = Some ''2025-08-15'',
          statement_to = Some ''2025-09-14'', buffer_desc = [''PURCHASE AT'']\<rparr> \<and>
   \<not> contains ''statement period'' (lower ''PURCHASE AT'') \<and>
   statement_from \<lparr>transactions = [], statement_from = Some ''2025-08-15'',
                   statement_to = Some ''2025-09-14'', buffer_desc = [''PURCHASE AT'']\<rparr> =
   statement_from \<lparr>transactions = [], statement_from = Some ''2025-08-15'',
                   statement_to = Some ''2025-09-14'', buffer_desc = []\<rparr>"
proof -
  let ?e1 = "\<lparr>transactions = [], statement_from = None, statement_to = Some ''2025-01-14'',
              pending_range = None\<rparr>"
  let ?e2 = "\<lparr>transactions = [], statement_from = Some ''2025-02-15'',
              statement_to = Some ''2025-01-14'', pending_range = None\<rparr>"
  let ?r1 = "\<lparr>transactions = [], statement_from = Some ''2025-08-15'',
              statement_to = Some ''2025-09-14'', buffer_desc = []\<rparr>"
  let ?r2 = "\<lparr>transactions = [], statement_from = Some ''2025-08-15'',
              statement_to = Some ''2025-09-14'', buffer_desc = [''PURCHASE AT'']\<rparr>"
  have reach: "parse_emiratesislamic_lines emiratesislamic_init [''To'', ''14th Jan 2025''] = Inr ?e1"
    by (simp add: step_To step_date_after_To)
  have run: "parse_emiratesislamic_lines ?e1 [''To'', ''From'', ''15th Feb 2025''] = Inr ?e2"
    by (simp add: step_To_resolved step_From_resolved step_other_date_after_From)
  have nolabels: "\<forall>l \<in> set [''To'', ''From'', ''15th Feb 2025'']. re_match FROM_TO_REGEX l = None"
    using line_To line_From line_other_date by simp
  have rrun: "parse_rakbank_lines ?r1 [''PURCHASE AT''] = Inr ?r2"
    by (simp add: step_purchase_at)
  have plain: "\<forall>l \<in> set [''PURCHASE AT'']. \<not> contains ''statement period'' (lower l)"
    using line_purchase_at by simp
  from marker_branch_keeps_boundary [of "[''To'', ''14th Jan 2025'']" ?e1
      "[''To'', ''From'', ''15th Feb 2025'']" ?e2 ?r1 "[''PURCHASE AT'']" ?r2]
    reach run nolabels rrun plain line_To line_From line_other_date line_purchase_at
  show ?thesis
    by simp
qed

subsection \<open>The pending marker\<close>

lemma both_set_year_unset:
  "\<not> truthy f \<or> \<not> truthy t \<Longrightarrow> both_set_year d f t = Inr d"
  by (cases f; cases t) auto

lemma emiratesislamic_transaction_returns:
  assumes "re_match LINE_REGEX raw = Some (rest, c)" and "\<not> truthy f \<or> \<not> truthy t"
  shows "\<exists>tx. emiratesislamic_transaction f t c = Inr tx"
proof -
  from assms(1) obtain r desc where "c 2 = Some r" and "c 3 = Some desc"
    using LINE_REGEX_groups by blast
  with assms(2) show ?thesis
    by (simp add: emiratesislamic_transaction_def Let_def both_set_year_unset
        del: both_set_year.simps)
qed

lemma pending_awaits_unset:
  assumes "pending_consistent st" and "truthy (pending_range st)"
  shows "\<not> truthy (statement_from st) \<or> \<not> truthy (statement_to st)"
  using assms by (auto simp: pending_consistent_def)

lemma transaction_line_step:
  assumes "\<not> any_in emiratesislamic_SKIP_KEYWORDS (lower raw)"
    and "re_match FROM_TO_REGEX raw = None"
    and "\<not> truthy (normalize_range_token raw)"
    and "\<not> truthy (parse_full_date raw)"
    and "re_match LINE_REGEX raw = Some (rest, c)"
    and "emiratesislamic_transaction (statement_from st) (statement_to st) c = Inr t"
  shows "parse_emiratesislamic_line st raw = Inr (st\<lparr>transactions := transactions st @ [t]\<rparr>)"
  using assms by (simp add: parse_emiratesislamic_line_def Let_def)

lemma marker_cleared_only:
  assumes "truthy (pending_range st)" and "parse_emiratesislamic_line st raw = Inr st'"
    and "\<not> truthy (pending_range st')"
  shows "\<not> any_in emiratesislamic_SKIP_KEYWORDS (lower raw)"
    and "re_match FROM_TO_REGEX raw \<noteq> None \<or>
         (\<not> truthy (normalize_range_token raw) \<and> truthy (parse_full_date raw))"
proof -
  show noskip: "\<not> any_in emiratesislamic_SKIP_KEYWORDS (lower raw)"
    using assms by (auto simp: emiratesislamic_skip_line)
  show "re_match FROM_TO_REGEX raw \<noteq> None \<or>
         (\<not> truthy (normalize_range_token raw) \<and> truthy (parse_full_date raw))"
  proof (cases "re_match FROM_TO_REGEX raw")
    case (Some m)
    then show ?thesis by simp
  next
    case nolabel: None
    show ?thesis
    proof (cases "truthy (normalize_range_token raw)")
      case True
      with assms noskip nolabel have False
        by (auto simp: parse_emiratesislamic_line_def Let_def split: if_splits)
      then show ?thesis ..
    next
      case nomarker: False
      show ?thesis
      proof (cases "truthy (parse_full_date raw)")
        case True
        with nomarker show ?thesis by simp
      next
        case False
        with assms(1) noskip nolabel nomarker assms(2)
        have "pending_range st' = pending_range st"
          using pending_kept by blast
        with assms(1,3) show ?thesis by simp
      qed
    qed
  qed
qed

text \<open>
  C8 as stated says that a boilerplate line or a transaction line clears a pending
  marker. After the bare marker \<^verbatim>\<open>To\<close>, a boilerplate line and a transaction line both
  leave \<^verbatim>\<open>pending_range\<close> at \<^verbatim>\<open>"to"\<close>.
\<close>

theorem pending_marker_abandoned_counterexample:
  "parse_emiratesislamic_lines emiratesislamic_init [''To'', ''Minimum Payment Due 250.00''] =
     Inr \<lparr>transactions = [], statement_from = None, statement_to = None,
          pending_range = Some ''to''\<rparr> \<and>
   parse_emiratesislamic_lines emiratesislamic_init [''To'', ''14 AUG 14 AUG TAXI 9.50''] =
     Inr \<lparr>transactions =
            [\<lparr>transaction_date = Some ''1900-08-14'', description = ''TAXI'',
              debit = Fin 9.5, credit = Fin 0, amount = Fin 9.5, balance = None,
              bank = ''Emirates Islamic'', card_type = ''credit'',
              fx_currency = None, fx_amount = None, fx_rate = None\<rparr>],
          statement_from = None, statement_to = None, pending_range = Some ''to''\<rparr>"
  by (simp add: step_To step_boilerplate_pending step_taxi_pending)

text \<open>
  C8 (as amended). While a pending marker is set, a boilerplate line leaves all
  variables as they are. A recognized transaction line (one that \<^verbatim>\<open>LINE_REGEX\<close> matches
  and that the tests before it pass over: no labelled line, no marker token, no full
  date), read in a state \<open>st\<close> that the loop reaches, appends the transaction of that
  line and leaves the marker set. And the marker is cleared by two kinds of line only: a
  labelled From/To line, and a line that is read as a full date.
\<close>

theorem pending_marker_survives:
  "(truthy (pending_range st) \<and> any_in emiratesislamic_SKIP_KEYWORDS (lower raw) \<longrightarrow>
      parse_emiratesislamic_line st raw = Inr st) \<and>
   (parse_emiratesislamic_lines emiratesislamic_init xs = Inr st \<and>
    truthy (pending_range st) \<and>
    \<not> any_in emiratesislamic_SKIP_KEYWORDS (lower raw) \<and>
    re_match FROM_TO_REGEX raw = None \<and>
    \<not> truthy (normalize_range_token raw) \<and>
    \<not> truthy (parse_full_date raw) \<and>
    re_match LINE_REGEX raw = Some (rest, c) \<longrightarrow>
      (\<exists>t. emiratesislamic_transaction (statement_from st) (statement_to st) c = Inr t \<and>
           parse_emiratesislamic_line st raw = Inr (st\<lparr>transactions := transactions st @ [t]\<rparr>) \<and>
           pending_range (st\<lparr>transactions := transactions st @ [t]\<rparr>) = pending_range st)) \<and>
   (truthy (pending_range st) \<and> parse_emiratesislamic_line st raw = Inr st' \<and>
    \<not> truthy (pending_range st') \<longrightarrow>
      \<not> any_in emiratesislamic_SKIP_KEYWORDS (lower raw) \<and>
      (re_match FROM_TO_REGEX raw \<noteq> None \<or>
       (\<not> truthy (normalize_range_token raw) \<and> truthy (parse_full_date raw))))"
proof (intro conjI impI; (elim conjE)?)
  assume "any_in emiratesislamic_SKIP_KEYWORDS (lower raw)"
  then show "parse_emiratesislamic_line st raw = Inr st"
    by (rule emiratesislamic_skip_line)
next
  assume reach: "parse_emiratesislamic_lines emiratesislamic_init xs = Inr st"
    and pending: "truthy (pending_range st)"
    and line: "\<not> any_in emiratesislamic_SKIP_KEYWORDS (lower raw)"
      "re_match FROM_TO_REGEX raw = None" "\<not> truthy (normalize_range_token raw)"
      "\<not> truthy (parse_full_date raw)"
    and matched: "re_match LINE_REGEX raw = Some (rest, c)"
  from reach pending_consistent_init have "pending_consistent st"
    by (rule parse_emiratesislamic_lines_pending_consistent)
  then have "\<not> truthy (statement_from st) \<or> \<not> truthy (statement_to st)"
    using pending by (rule pending_awaits_unset)
  with matched obtain t where
    t: "emiratesislamic_transaction (statement_from st) (statement_to st) c = Inr t"
    using emiratesislamic_transaction_returns by blast
  from line matched t
  have "parse_emiratesislamic_line st raw = Inr (st\<lparr>transactions := transactions st @ [t]\<rparr>)"
    by (rule transaction_line_step)
  with t show "\<exists>t. emiratesislamic_transaction (statement_from st) (statement_to st) c = Inr t \<and>
      parse_emiratesislamic_line st raw = Inr (st\<lparr>transactions := transactions st @ [t]\<rparr>) \<and>
      pending_range (st\<lparr>transactions := transactions st @ [t]\<rparr>) = pending_range st"
    by auto
next
  assume a: "truthy (pending_range st)" "parse_emiratesislamic_line st raw = Inr st'"
    "\<not> truthy (pending_range st')"
  from a show "\<not> any_in emiratesislamic_SKIP_KEYWORDS (lower raw)"
    by (rule marker_cleared_only(1))
  from a show "re_match FROM_TO_REGEX raw \<noteq> None \<or>
       (\<not> truthy (normalize_range_token raw) \<and> truthy (parse_full_date raw))"
    by (rule marker_cleared_only(2))
qed

lemma line_taxi_groups:
  "re_match LINE_REGEX ''14 AUG 14 AUG TAXI 9.50'' =
     Some ([], [1 \<mapsto> ''14 AUG'', 2 \<mapsto> ''14 AUG'', 3 \<mapsto> ''TAXI'', 4 \<mapsto> ''9.50''])"
  by (simp add: base_eval emiratesislamic_eval cong: rx_match_cong)

lemma taxi_transaction:
  "emiratesislamic_transaction None None
     [1 \<mapsto> ''14 AUG'', 2 \<mapsto> ''14 AUG'', 3 \<mapsto> ''TAXI'', 4 \<mapsto> ''9.50''] =
   Inr \<lparr>transaction_date = Some ''1900-08-14'', description = ''TAXI'',
        debit = Fin 9.5, credit = Fin 0, amount = Fin 9.5, balance = None,
        bank = ''Emirates Islamic'', card_type = ''credit'',
        fx_currency = None, fx_amount = None, fx_rate = None\<rparr>"
  by (simp add: base_eval emiratesislamic_eval cong: rx_match_cong)

theorem pending_marker_survives_witness:
  "parse_emiratesislamic_lines emiratesislamic_init [''To''] =
     Inr \<lparr>transactions = [], statement_from = None, statement_to = None,
          pending_range = Some ''to''\<rparr> \<and>
   any_in emiratesislamic_SKIP_KEYWORDS (lower ''Minimum Payment Due 250.00'') \<and>
   parse_emiratesislamic_line
     \<lparr>transactions = [], statement_from = None, statement_to = None,
      pending_range = Some ''to''\<rparr> ''Minimum Payment Due 250.00'' =
     Inr \<lparr>transactions = [], statement_from = None, statement_to = None,
          pending_range = Some ''to''\<rparr> \<and>
   \<not> any_in emiratesislamic_SKIP_KEYWORDS (lower ''14 AUG 14 AUG TAXI 9.50'') \<and>
   re_match FROM_TO_REGEX ''14 AUG 14 AUG TAXI 9.50'' = None \<and>
   \<not> truthy (normalize_range_token ''14 AUG 14 AUG TAXI 9.50'') \<and>
   \<not> truthy (parse_full_date ''14 AUG 14 AUG TAXI 9.50'') \<and>
   re_match LINE_REGEX ''14 AUG 14 AUG TAXI 9.50'' =
     Some ([], [1 \<mapsto> ''14 AUG'', 2 \<mapsto> ''14 AUG'', 3 \<mapsto> ''TAXI'', 4 \<mapsto> ''9.50'']) \<and>
   parse_emiratesislamic_line
     \<lparr>transactions = [], statement_from = None, statement_to = None,
      pending_range = Some ''to''\<rparr> ''14 AUG 14 AUG TAXI 9.50'' =
     Inr \<lparr>transactions =
            [\<lparr>transaction_date = Some ''1900-08-14'', description = ''TAXI'',
              debit = Fin 9.5, credit = Fin 0, amount = Fin 9.5, balance = None,
              bank = ''Emirates Islamic'', card_type = ''credit'',
              fx_currency = None, fx_amount = None, fx_rate = None\<rparr>],
          statement_from = None, statement_to = None, pending_range = Some ''to''\<rparr> \<and>
   parse_emiratesislamic_line
     \<lparr>transactions = [], statement_from = None, statement_to = None,
      pending_range = Some ''to''\<rparr> ''14th Jan 2025'' =
     Inr \<lparr>transactions = [], statement_from = None, statement_to = Some ''2025-01-14'',
          pending_range = None\<rparr> \<and>
   \<not> any_in emiratesislamic_SKIP_KEYWORDS (lower ''14th Jan 2025'') \<and>
   \<not> truthy (normalize_range_token ''14th Jan 2025'') \<and>
   truthy (parse_full_date ''14th Jan 2025'')"
proof -
  let ?e = "\<lparr>transactions = [], statement_from = None, statement_to = None,
             pending_range = Some ''to''\<rparr>"
  let ?d = "\<lparr>transactions = [], statement_from = None, statement_to = Some ''2025-01-14'',
             pending_range = None\<rparr>"
  let ?c = "[(1::nat) \<mapsto> ''14 AUG'', 2 \<mapsto> ''14 AUG'', 3 \<mapsto> ''TAXI'', 4 \<mapsto> ''9.50'']"
  have reach: "parse_emiratesislamic_lines emiratesislamic_init [''To''] = Inr ?e"
    by (simp add: step_To)
  have pend: "truthy (pending_range ?e)" and cleared: "\<not> truthy (pending_range ?d)"
    by simp_all
  from pending_marker_survives [of ?e "''Minimum Payment Due 250.00''"]
    pend minimum_payment_due_is_boilerplate
  have skip: "parse_emiratesislamic_line ?e ''Minimum Payment Due 250.00'' = Inr ?e"
    by blast
  from pending_marker_survives [of ?e "''14 AUG 14 AUG TAXI 9.50''" "[''To'']" "[]" ?c]
    reach pend line_taxi line_taxi_groups
  obtain t where "emiratesislamic_transaction (statement_from ?e) (statement_to ?e) ?c = Inr t"
    and "parse_emiratesislamic_line ?e ''14 AUG 14 AUG TAXI 9.50'' =
           Inr (?e\<lparr>transactions := transactions ?e @ [t]\<rparr>)"
    by auto
  with taxi_transaction
  have taxi: "parse_emiratesislamic_line ?e ''14 AUG 14 AUG TAXI 9.50'' =
      Inr \<lparr>transactions =
            [\<lparr>transaction_date = Some ''1900-08-14'', description = ''TAXI'',
              debit = Fin 9.5, credit = Fin 0, amount = Fin 9.5, balance = None,
              bank = ''Emirates Islamic'', card_type = ''credit'',
              fx_currency = None, fx_amount = None, fx_rate = None\<rparr>],
          statement_from = None, statement_to = None, pending_range = Some ''to''\<rparr>"
    by simp
  from pending_marker_survives [of ?e "''14th Jan 2025''" _ _ _ ?d]
    pend cleared step_date_after_To
  have "\<not> any_in emiratesislamic_SKIP_KEYWORDS (lower ''14th Jan 2025'') \<and>
      (re_match FROM_TO_REGEX ''14th Jan 2025'' \<noteq> None \<or>
       (\<not> truthy (normalize_range_token ''14th Jan 2025'') \<and>
        truthy (parse_full_date ''14th Jan 2025'')))"
    by blast
  with line_date have date: "\<not> any_in emiratesislamic_SKIP_KEYWORDS (lower ''14th Jan 2025'')"
    "\<not> truthy (normalize_range_token ''14th Jan 2025'')" "truthy (parse_full_date ''14th Jan 2025'')"
    by simp_all
  from reach skip taxi date step_date_after_To minimum_payment_due_is_boilerplate line_taxi
    line_taxi_groups
  show ?thesis
    by simp
qed

text \<open>
  C9 as stated says that every non-boilerplate line that is no date leaves the pending
  marker in place. The bare marker \<^verbatim>\<open>From\<close> is such a line, and after \<^verbatim>\<open>To\<close> it replaces the
  marker: the date that follows is stored as \<^verbatim>\<open>statement_from\<close>, and \<^verbatim>\<open>statement_to\<close> stays
  unset.
\<close>

theorem pending_marker_replaced_counterexample:
  "parse_full_date ''From'' = None \<and>
   \<not> any_in emiratesislamic_SKIP_KEYWORDS (lower ''From'') \<and>
   parse_emiratesislamic_lines emiratesislamic_init [''To'', ''From''] =
     Inr \<lparr>transactions = [], statement_from = None, statement_to = None,
          pending_range = Some ''from''\<rparr> \<and>
   parse_emiratesislamic_lines emiratesislamic_init [''To'', ''From'', ''14th Jan 2025''] =
     Inr \<lparr>transactions = [], statement_from = Some ''2025-01-14'', statement_to = None,
          pending_range = None\<rparr>"
  using line_From by (simp add: step_To step_From_pending step_date_after_From)

lemma pending_example_run:
  "parse_emiratesislamic_pages emiratesislamic_init
     [Some ''To\<newline>Statement Summary\<newline>Minimum Payment Due 250.00\<newline>14th Jan 2025''] =
     Inr \<lparr>transactions = [], statement_from = None, statement_to = Some ''2025-01-14'',
          pending_range = None\<rparr>"
proof -
  have "page_lines (Some ''To\<newline>Statement Summary\<newline>Minimum Payment Due 250.00\<newline>14th Jan 2025'') =
          [''To'', ''Statement Summary'', ''Minimum Payment Due 250.00'', ''14th Jan 2025'']"
    by (simp add: base_eval)
  then show ?thesis
    by (simp add: step_To step_free_text_pending step_boilerplate_pending step_date_after_To)
qed

text \<open>
  C9 (as amended). While a pending marker is set, a line that is no boilerplate, no
  labelled From/To line and no bare marker token is tried as a bare full date: when it
  does not parse, the marker and the statement period stay as they are; when it parses,
  the date is stored in the boundary that the marker names and the marker is cleared. So
  the line \<^verbatim>\<open>To\<close>, followed after a free-text line and a boilerplate line by
  \<^verbatim>\<open>14th Jan 2025\<close>, gives \<^verbatim>\<open>to_date = "2025-01-14"\<close>.
\<close>

theorem pending_marker_waits_for_date:
  "(truthy (pending_range st) \<and>
    \<not> any_in emiratesislamic_SKIP_KEYWORDS (lower raw) \<and>
    re_match FROM_TO_REGEX raw = None \<and>
    \<not> truthy (normalize_range_token raw) \<and>
    \<not> truthy (parse_full_date raw) \<and>
    parse_emiratesislamic_line st raw = Inr st' \<longrightarrow>
      pending_range st' = pending_range st \<and> statement_from st' = statement_from st \<and>
      statement_to st' = statement_to st) \<and>
   (truthy (pending_range st) \<and>
    \<not> any_in emiratesislamic_SKIP_KEYWORDS (lower raw) \<and>
    re_match FROM_TO_REGEX raw = None \<and>
    \<not> truthy (normalize_range_token raw) \<and>
    truthy (parse_full_date raw) \<longrightarrow>
      parse_emiratesislamic_line st raw =
        Inr ((if pending_range st = Some ''from''
              then st\<lparr>statement_from := parse_full_date raw\<rparr>
              else st\<lparr>statement_to := parse_full_date raw\<rparr>)\<lparr>pending_range := None\<rparr>)) \<and>
   parse_emiratesislamic
     (PdfPages [Some ''To\<newline>Statement Summary\<newline>Minimum Payment Due 250.00\<newline>14th Jan 2025'']) =
     Inr (Parsed
       \<lparr>result_bank = ''Emirates Islamic'', result_card_type = ''credit'',
        summary = \<lparr>total_debit = Fin 0, total_credit = Fin 0, count = 0\<rparr>,
        result_transactions = [], from_date = None, to_date = Some ''2025-01-14''\<rparr>)"
proof (intro conjI impI)
  assume "truthy (pending_range st) \<and>
    \<not> any_in emiratesislamic_SKIP_KEYWORDS (lower raw) \<and>
    re_match FROM_TO_REGEX raw = None \<and>
    \<not> truthy (normalize_range_token raw) \<and>
    \<not> truthy (parse_full_date raw) \<and>
    parse_emiratesislamic_line st raw = Inr st'"
  then have kept: "pending_range st' = pending_range st \<and> statement_from st' = statement_from st \<and>
      statement_to st' = statement_to st"
    by (auto dest: pending_kept)
  from kept show "pending_range st' = pending_range st" by simp
  from kept show "statement_from st' = statement_from st" by simp
  from kept show "statement_to st' = statement_to st" by simp
next
  assume "truthy (pending_range st) \<and>
    \<not> any_in emiratesislamic_SKIP_KEYWORDS (lower raw) \<and>
    re_match FROM_TO_REGEX raw = None \<and>
    \<not> truthy (normalize_range_token raw) \<and>
    truthy (parse_full_date raw)"
  then show "parse_emiratesislamic_line st raw =
        Inr ((if pending_range st = Some ''from''
              then st\<lparr>statement_from := parse_full_date raw\<rparr>
              else st\<lparr>statement_to := parse_full_date raw\<rparr>)\<lparr>pending_range := None\<rparr>)"
    using pending_resolved [of st raw] by blast
next
  show "parse_emiratesislamic
     (PdfPages [Some ''To\<newline>Statement Summary\<newline>Minimum Payment Due 250.00\<newline>14th Jan 2025'']) =
     Inr (Parsed
       \<lparr>result_bank = ''Emirates Islamic'', result_card_type = ''credit'',
        summary = \<lparr>total_debit = Fin 0, total_credit = Fin 0, count = 0\<rparr>,
        result_transactions = [], from_date = None, to_date = Some ''2025-01-14''\<rparr>)"
    by (simp add: parse_emiratesislamic_def pending_example_run
        normalize_transactions_def summarize_transactions_def
        emiratesislamic_BANK_NAME_def emiratesislamic_CARD_TYPE_def
        del: parse_emiratesislamic_pages.simps)
qed

theorem pending_marker_waits_for_date_witness:
  "truthy (pending_range \<lparr>transactions = [], statement_from = None, statement_to = None,
                           pending_range = Some ''to''\<rparr>) \<and>
   \<not> any_in emiratesislamic_SKIP_KEYWORDS (lower ''Statement Summary'') \<and>
   re_match FROM_TO_REGEX ''Statement Summary'' = None \<and>
   \<not> truthy (normalize_range_token ''Statement Summary'') \<and>
   \<not> truthy (parse_full_date ''Statement Summary'') \<and>
   parse_emiratesislamic_line
     \<lparr>transactions = [], statement_from = None, statement_to = None,
      pending_range = Some ''to''\<rparr> ''Statement Summary'' =
     Inr \<lparr>transactions = [], statement_from = None, statement_to = None,
          pending_range = Some ''to''\<rparr> \<and>
   \<not> any_in emiratesislamic_SKIP_KEYWORDS (lower ''14th Jan 2025'') \<and>
   re_match FROM_TO_REGEX ''14th Jan 2025'' = None \<and>
   \<not> truthy (normalize_range_token ''14th Jan 2025'') \<and>
   truthy (parse_full_date ''14th Jan 2025'') \<and>
   parse_emiratesislamic_line
     \<lparr>transactions = [], statement_from = None, statement_to = None,
      pending_range = Some ''to''\<rparr> ''14th Jan 2025'' =
     Inr \<lparr>transactions = [], statement_from = None, statement_to = Some ''2025-01-14'',
          pending_range = None\<rparr>"
proof -
  let ?e = "\<lparr>transactions = [], statement_from = None, statement_to = None,
             pending_range = Some ''to''\<rparr>"
  have pend: "truthy (pending_range ?e)"
    by simp
  from pending_marker_waits_for_date [of ?e "''Statement Summary''" ?e]
    pending_marker_waits_for_date [of ?e "''14th Jan 2025''"]
    pend line_free_text line_date step_free_text_pending
  show ?thesis
    by simp
qed

section \<open>The description buffer\<close>

lemma emiratesislamic_free_lines:
  "\<not> any_in emiratesislamic_SKIP_KEYWORDS (lower ''PURCHASE AT'') \<and>
   re_match FROM_TO_REGEX ''PURCHASE AT'' = None \<and>
   normalize_range_token ''PURCHASE AT'' = None \<and>
   re_match LINE_REGEX ''PURCHASE AT'' = None \<and>
   \<not> any_in emiratesislamic_SKIP_KEYWORDS (lower ''SOME STORE DUBAI ARE'') \<and>
   re_match FROM_TO_REGEX ''SOME STORE DUBAI ARE'' = None \<and>
   normalize_range_token ''SOME STORE DUBAI ARE'' = None \<and>
   re_match LINE_REGEX ''SOME STORE DUBAI ARE'' = None"
  by (simp add: base_eval emiratesislamic_eval cong: rx_match_cong)

lemma emiratesislamic_free_steps:
  "parse_emiratesislamic_line emiratesislamic_init ''PURCHASE AT'' = Inr emiratesislamic_init \<and>
   parse_emiratesislamic_line emiratesislamic_init ''SOME STORE DUBAI ARE'' = Inr emiratesislamic_init"
  using emiratesislamic_free_lines
  by (simp add: parse_emiratesislamic_line_def emiratesislamic_init_def Let_def)

lemma step_taxi:
  "parse_emiratesislamic_line emiratesislamic_init ''14 AUG 14 AUG TAXI 9.50'' =
     Inr \<lparr>transactions =
            [\<lparr>transaction_date = Some ''1900-08-14'', description = ''TAXI'',
              debit = Fin 9.5, credit = Fin 0, amount = Fin 9.5, balance = None,
              bank = ''Emirates Islamic'', card_type = ''credit'',
              fx_currency = None, fx_amount = None, fx_rate = None\<rparr>],
          statement_from = None, statement_to = None, pending_range = None\<rparr>"
  by (simp add: base_eval emiratesislamic_eval cong: rx_match_cong)

lemma rakbank_drop_hint_run:
  "parse_rakbank_lines rakbank_init
     [''Card Number 4111 XXXX'', ''15/08/2025 NOON.COM DUBAI AED 100.00 - 1,234.56''] =
     Inr \<lparr>transactions =
            [\<lparr>transaction_date = Some ''2025-08-15'', description = ''NOON.COM DUBAI'',
              debit = Fin 100, credit = Fin 0, amount = Fin 100, balance = Some (Fin 1234.56),
              bank = ''RAKBANK'', card_type = ''credit'',
              fx_currency = None, fx_amount = None, fx_rate = None\<rparr>],
          statement_from = None, statement_to = None, buffer_desc = []\<rparr>"
  by (simp add: base_eval rakbank_eval cong: rx_match_cong)

lemma rakbank_amount_raises_run:
  "parse_rakbank_lines rakbank_init [''PURCHASE AT'', ''01/09/2025 GROCERY AED 1 00 - 5.00''] =
     Inl ValueError"
  by (simp add: base_eval rakbank_eval cong: rx_match_cong)

text \<open>
  C7 as stated attaches the lines before a transaction to its description. In
  \<^verbatim>\<open>parse_emiratesislamic\<close> the two lines before the transaction are dropped, and in
  \<^verbatim>\<open>parse_rakbank\<close> a buffer with the drop hint \<^verbatim>\<open>"card number"\<close> is discarded. An AED line
  whose amount \<^verbatim>\<open>float\<close> refuses yields no transaction at all: \<^verbatim>\<open>clean_amount\<close> raises.
\<close>

theorem description_prefix_counterexample:
  "parse_emiratesislamic_lines emiratesislamic_init
     [''PURCHASE AT'', ''SOME STORE DUBAI ARE'', ''14 AUG 14 AUG TAXI 9.50''] =
     Inr \<lparr>transactions =
            [\<lparr>transaction_date = Some ''1900-08-14'', description = ''TAXI'',
              debit = Fin 9.5, credit = Fin 0, amount = Fin 9.5, balance = None,
              bank = ''Emirates Islamic'', card_type = ''credit'',
              fx_currency = None, fx_amount = None, fx_rate = None\<rparr>],
          statement_from = None, statement_to = None, pending_range = None\<rparr> \<and>
   parse_rakbank_lines rakbank_init
     [''Card Number 4111 XXXX'', ''15/08/2025 NOON.COM DUBAI AED 100.00 - 1,234.56''] =
     Inr \<lparr>transactions =
            [\<lparr>transaction_date = Some ''2025-08-15'', description = ''NOON.COM DUBAI'',
              debit = Fin 100, credit = Fin 0, amount = Fin 100, balance = Some (Fin 1234.56),
              bank = ''RAKBANK'', card_type = ''credit'',
              fx_currency = None, fx_amount = None, fx_rate = None\<rparr>],
          statement_from = None, statement_to = None, buffer_desc = []\<rparr> \<and>
   parse_rakbank_lines rakbank_init [''PURCHASE AT'', ''01/09/2025 GROCERY AED 1 00 - 5.00''] =
     Inl ValueError"
  using rakbank_drop_hint_run rakbank_amount_raises_run
  by (simp add: emiratesislamic_free_steps step_taxi)

lemma rakbank_free_text_line:
  "rakbank_free_text raw \<Longrightarrow>
     parse_rakbank_line st raw = Inr (st\<lparr>buffer_desc := buffer_desc st @ [raw]\<rparr>)"
  by (simp add: rakbank_free_text_def parse_rakbank_line_def Let_def)

lemma rakbank_free_text_lines:
  "\<forall>b \<in> set bs. rakbank_free_text b \<Longrightarrow>
     parse_rakbank_lines st bs = Inr (st\<lparr>buffer_desc := buffer_desc st @ bs\<rparr>)"
proof (induction bs arbitrary: st)
  case Nil
  then show ?case by simp
next
  case (Cons b bs)
  from Cons.prems have b: "rakbank_free_text b" and bs: "\<forall>b \<in> set bs. rakbank_free_text b"
    by simp_all
  show ?case
    by (simp add: rakbank_free_text_line [OF b] Cons.IH [OF bs])
qed

lemma rakbank_aed_line:
  assumes "\<not> any_in rakbank_SKIP_KEYWORDS (lower raw)"
    and "\<not> contains ''statement period'' (lower raw)"
    and "re_match RAKBANK_LINE_REGEX raw = Some (rest, c)"
    and "rakbank_aed_transaction (buffer_desc st) c = Inr t"
  shows "parse_rakbank_line st raw = Inr (st\<lparr>transactions := transactions st @ [t], buffer_desc := []\<rparr>)"
  using assms by (simp add: parse_rakbank_line_def Let_def)

lemma rakbank_fx_line:
  assumes "\<not> any_in rakbank_SKIP_KEYWORDS (lower raw)"
    and "\<not> contains ''statement period'' (lower raw)"
    and "re_match RAKBANK_LINE_REGEX raw = None"
    and "re_match RAKBANK_FX_REGEX raw = Some (rest, c)"
    and "rakbank_fx_transaction (buffer_desc st) c = Inr t"
  shows "parse_rakbank_line st raw = Inr (st\<lparr>transactions := transactions st @ [t], buffer_desc := []\<rparr>)"
  using assms by (simp add: parse_rakbank_line_def Let_def)

lemma rakbank_aed_transaction_returns:
  assumes "c 2 = Some desc"
    and "rakbank_clean_amount (c 3) = Inr a"
    and "rakbank_clean_amount (c 5) = Inr b"
  shows "\<exists>t. rakbank_aed_transaction buf c = Inr t \<and>
              description t = strip (join '' '' (kept_buffer buf @ [strip desc])) \<and> amount t = a"
  using assms by (simp add: rakbank_aed_transaction_def Let_def)

lemma rakbank_fx_transaction_returns:
  assumes "rakbank_clean_amount (c 3) = Inr x"
    and "rakbank_clean_amount (c 4) = Inr r"
    and "rakbank_clean_amount (c 5) = Inr a"
  shows "\<exists>t. rakbank_fx_transaction buf c = Inr t \<and>
              description t = strip (join '' '' (kept_buffer buf)) \<and> amount t = a"
  using assms by (simp add: rakbank_fx_transaction_def Let_def)

text \<open>
  \<^verbatim>\<open>parse_emiratesislamic\<close> has no buffer: when a line adds a transaction, the description
  is group 3 of that line, whatever lines came before it.
\<close>

lemma emiratesislamic_own_description:
  assumes "parse_emiratesislamic_line est eraw = Inr est'"
  shows "transactions est' = transactions est \<or>
         (\<exists>erest ec edesc t. re_match LINE_REGEX eraw = Some (erest, ec) \<and> ec 3 = Some edesc \<and>
            transactions est' = transactions est @ [t] \<and> description t = strip edesc)"
proof (cases "any_in emiratesislamic_SKIP_KEYWORDS (lower eraw)")
  case True
  with assms show ?thesis by (simp add: emiratesislamic_skip_line)
next
  case noskip: False
  show ?thesis
  proof (cases "re_match FROM_TO_REGEX eraw")
    case (Some m)
    with assms noskip show ?thesis
      by (cases m) (auto simp: parse_emiratesislamic_line_def Let_def
          split: option.splits if_splits)
  next
    case nolabel: None
    show ?thesis
    proof (cases "re_match LINE_REGEX eraw")
      case None
      with assms noskip nolabel show ?thesis
        by (auto simp: parse_emiratesislamic_line_def Let_def split: if_splits)
    next
      case (Some m)
      obtain erest ec where m: "m = (erest, ec)"
        by (cases m)
      show ?thesis
      proof (cases "emiratesislamic_transaction (statement_from est) (statement_to est) ec")
        case (Inl e)
        with assms noskip nolabel Some m show ?thesis
          by (auto simp: parse_emiratesislamic_line_def Let_def split: if_splits)
      next
        case (Inr t)
        then obtain edesc where "ec 3 = Some edesc" and "description t = strip edesc"
          by (auto simp: emiratesislamic_transaction_def Let_def split: option.splits sum.splits)
        with assms noskip nolabel Some m Inr show ?thesis
          by (auto simp: parse_emiratesislamic_line_def Let_def split: if_splits)
      qed
    qed
  qed
qed

text \<open>
  C7 (as amended). In \<^verbatim>\<open>parse_rakbank\<close>, within a page, the free-text lines \<open>bs\<close> that come
  before the next transaction line \<open>raw\<close> are accumulated in order behind what the buffer
  holds. When \<open>raw\<close> is an AED line whose two amounts \<^verbatim>\<open>float\<close> reads, it yields one
  transaction whose description is the buffer followed by the description of the line
  itself. When \<open>raw\<close> is an FX line whose three amounts \<^verbatim>\<open>float\<close> reads, it yields one
  transaction whose description is the buffer alone. In both, a buffer whose joined
  lowercase text contains a drop hint is discarded and not attached, and the buffer is
  empty afterwards. \<^verbatim>\<open>parse_emiratesislamic\<close> has no buffer: a line \<open>eraw\<close> that adds a
  transaction gives it the description of that line alone.
\<close>

theorem rakbank_description_continuation:
  assumes free: "\<forall>b \<in> set bs. rakbank_free_text b"
    and noskip: "\<not> any_in rakbank_SKIP_KEYWORDS (lower raw)"
    and noperiod: "\<not> contains ''statement period'' (lower raw)"
  shows "(re_match RAKBANK_LINE_REGEX raw = Some (rest, c) \<and>
          rakbank_clean_amount (c 3) = Inr a \<and> rakbank_clean_amount (c 5) = Inr b \<longrightarrow>
            (\<exists>t desc. c 2 = Some desc \<and>
               parse_rakbank_lines st (bs @ [raw]) =
                 Inr (st\<lparr>transactions := transactions st @ [t], buffer_desc := []\<rparr>) \<and>
               description t =
                 strip (join '' ''
                   ((if any_in DROP_HINTS (lower (join '' '' (buffer_desc st @ bs))) then []
                     else buffer_desc st @ bs) @ [strip desc])))) \<and>
         (re_match RAKBANK_LINE_REGEX raw = None \<and>
          re_match RAKBANK_FX_REGEX raw = Some (rest, c) \<and>
          rakbank_clean_amount (c 3) = Inr x \<and> rakbank_clean_amount (c 4) = Inr r \<and>
          rakbank_clean_amount (c 5) = Inr a \<longrightarrow>
            (\<exists>t. parse_rakbank_lines st (bs @ [raw]) =
                   Inr (st\<lparr>transactions := transactions st @ [t], buffer_desc := []\<rparr>) \<and>
                 description t =
                   strip (join '' ''
                     (if any_in DROP_HINTS (lower (join '' '' (buffer_desc st @ bs))) then []
                      else buffer_desc st @ bs)))) \<and>
         (parse_emiratesislamic_line est eraw = Inr est' \<longrightarrow>
            transactions est' = transactions est \<or>
            (\<exists>erest ec edesc t. re_match LINE_REGEX eraw = Some (erest, ec) \<and>
               ec 3 = Some edesc \<and>
               transactions est' = transactions est @ [t] \<and> description t = strip edesc))"
proof (intro conjI impI; (elim conjE)?)
  {
    assume "parse_emiratesislamic_line est eraw = Inr est'"
    then show "transactions est' = transactions est \<or>
        (\<exists>erest ec edesc t. re_match LINE_REGEX eraw = Some (erest, ec) \<and>
           ec 3 = Some edesc \<and>
           transactions est' = transactions est @ [t] \<and> description t = strip edesc)"
      by (rule emiratesislamic_own_description)
  }
  let ?st1 = "st\<lparr>buffer_desc := buffer_desc st @ bs\<rparr>"
  from free have buffered: "parse_rakbank_lines st bs = Inr ?st1"
    by (rule rakbank_free_text_lines)
  {
    assume matched: "re_match RAKBANK_LINE_REGEX raw = Some (rest, c)"
      and amt: "rakbank_clean_amount (c 3) = Inr a"
      and bal: "rakbank_clean_amount (c 5) = Inr b"
    from matched obtain desc where desc: "c 2 = Some desc"
      using RAKBANK_LINE_REGEX_groups by blast
    from desc amt bal obtain t where
      t: "rakbank_aed_transaction (buffer_desc ?st1) c = Inr t" and
      d: "description t = strip (join '' '' (kept_buffer (buffer_desc ?st1) @ [strip desc]))"
      using rakbank_aed_transaction_returns [of c desc a b "buffer_desc ?st1"] by blast
    from noskip noperiod matched t
    have "parse_rakbank_line ?st1 raw =
            Inr (?st1\<lparr>transactions := transactions ?st1 @ [t], buffer_desc := []\<rparr>)"
      by (rule rakbank_aed_line)
    with buffered have "parse_rakbank_lines st (bs @ [raw]) =
        Inr (st\<lparr>transactions := transactions st @ [t], buffer_desc := []\<rparr>)"
      by (simp add: parse_rakbank_lines_append)
    moreover from d
    have "description t =
            strip (join '' ''
              ((if any_in DROP_HINTS (lower (join '' '' (buffer_desc st @ bs))) then []
                else buffer_desc st @ bs) @ [strip desc]))"
      by (simp add: kept_buffer_def)
    ultimately show "\<exists>t desc. c 2 = Some desc \<and>
        parse_rakbank_lines st (bs @ [raw]) =
          Inr (st\<lparr>transactions := transactions st @ [t], buffer_desc := []\<rparr>) \<and>
        description t =
          strip (join '' ''
            ((if any_in DROP_HINTS (lower (join '' '' (buffer_desc st @ bs))) then []
              else buffer_desc st @ bs) @ [strip desc]))"
      using desc by blast
  }
  {
    assume noaed: "re_match RAKBANK_LINE_REGEX raw = None"
      and matched: "re_match RAKBANK_FX_REGEX raw = Some (rest, c)"
      and amounts: "rakbank_clean_amount (c 3) = Inr x" "rakbank_clean_amount (c 4) = Inr r"
        "rakbank_clean_amount (c 5) = Inr a"
    from amounts obtain t where
      t: "rakbank_fx_transaction (buffer_desc ?st1) c = Inr t" and
      d: "description t = strip (join '' '' (kept_buffer (buffer_desc ?st1)))"
      using rakbank_fx_transaction_returns [of c x r a "buffer_desc ?st1"] by blast
    from noskip noperiod noaed matched t
    have "parse_rakbank_line ?st1 raw =
            Inr (?st1\<lparr>transactions := transactions ?st1 @ [t], buffer_desc := []\<rparr>)"
      by (rule rakbank_fx_line)
    with buffered have "parse_rakbank_lines st (bs @ [raw]) =
        Inr (st\<lparr>transactions := transactions st @ [t], buffer_desc := []\<rparr>)"
      by (simp add: parse_rakbank_lines_append)
    moreover from d
    have "description t =
            strip (join '' ''
              (if any_in DROP_HINTS (lower (join '' '' (buffer_desc st @ bs))) then []
               else buffer_desc st @ bs))"
      by (simp add: kept_buffer_def)
    ultimately show "\<exists>t. parse_rakbank_lines st (bs @ [raw]) =
          Inr (st\<lparr>transactions := transactions st @ [t], buffer_desc := []\<rparr>) \<and>
        description t =
          strip (join '' ''
            (if any_in DROP_HINTS (lower (join '' '' (buffer_desc st @ bs))) then []
             else buffer_desc st @ bs))"
      by blast
  }
qed

lemma rakbank_free_lines:
  "rakbank_free_text ''PURCHASE AT'' \<and> rakbank_free_text ''SOME STORE DUBAI ARE'' \<and>
   rakbank_free_text ''AMAZON US''"
  by (simp add: rakbank_free_text_def base_eval rakbank_eval cong: rx_match_cong)

lemma rakbank_noon_line:
  "\<not> any_in rakbank_SKIP_KEYWORDS (lower ''15/08/2025 NOON.COM DUBAI AED 100.00 - 1,234.56'') \<and>
   \<not> contains ''statement period'' (lower ''15/08/2025 NOON.COM DUBAI AED 100.00 - 1,234.56'') \<and>
   re_match RAKBANK_LINE_REGEX ''15/08/2025 NOON.COM DUBAI AED 100.00 - 1,234.56'' =
     Some ([], [1 \<mapsto> ''15/08/2025'', 2 \<mapsto> ''NOON.COM DUBAI'', 3 \<mapsto> ''100.00'',
                5 \<mapsto> ''1,234.56''])"
  by (simp add: base_eval rakbank_eval cong: rx_match_cong)

lemma rakbank_usd_line:
  "\<not> any_in rakbank_SKIP_KEYWORDS (lower ''16/08/2025 USD 10.00 3.67 36.70'') \<and>
   \<not> contains ''statement period'' (lower ''16/08/2025 USD 10.00 3.67 36.70'') \<and>
   re_match RAKBANK_LINE_REGEX ''16/08/2025 USD 10.00 3.67 36.70'' = None \<and>
   re_match RAKBANK_FX_REGEX ''16/08/2025 USD 10.00 3.67 36.70'' =
     Some ([], [1 \<mapsto> ''16/08/2025'', 2 \<mapsto> ''USD'', 3 \<mapsto> ''10.00'', 4 \<mapsto> ''3.67'',
                5 \<mapsto> ''36.70''])"
  by (simp add: base_eval rakbank_eval cong: rx_match_cong)

lemma rakbank_noon_amounts:
  "rakbank_clean_amount (Some ''100.00'') = Inr (Fin 100) \<and>
   rakbank_clean_amount (Some ''1,234.56'') = Inr (Fin 1234.56)"
  by (simp add: base_eval rakbank_eval)

lemma rakbank_usd_amounts:
  "rakbank_clean_amount (Some ''10.00'') = Inr (Fin 10) \<and>
   rakbank_clean_amount (Some ''3.67'') = Inr (Fin 3.67) \<and>
   rakbank_clean_amount (Some ''36.70'') = Inr (Fin 36.7)"
  by (simp add: base_eval rakbank_eval)

theorem rakbank_description_continuation_witness:
  "rakbank_free_text ''PURCHASE AT'' \<and> rakbank_free_text ''SOME STORE DUBAI ARE'' \<and>
   rakbank_free_text ''AMAZON US'' \<and>
   \<not> any_in rakbank_SKIP_KEYWORDS (lower ''15/08/2025 NOON.COM DUBAI AED 100.00 - 1,234.56'') \<and>
   \<not> contains ''statement period'' (lower ''15/08/2025 NOON.COM DUBAI AED 100.00 - 1,234.56'') \<and>
   re_match RAKBANK_LINE_REGEX ''15/08/2025 NOON.COM DUBAI AED 100.00 - 1,234.56'' =
     Some ([], [1 \<mapsto> ''15/08/2025'', 2 \<mapsto> ''NOON.COM DUBAI'', 3 \<mapsto> ''100.00'',
                5 \<mapsto> ''1,234.56'']) \<and>
   rakbank_clean_amount (Some ''100.00'') = Inr (Fin 100) \<and>
   rakbank_clean_amount (Some ''1,234.56'') = Inr (Fin 1234.56) \<and>
   (\<exists>t. parse_rakbank_lines
           \<lparr>transactions = [], statement_from = None, statement_to = None, buffer_desc = []\<rparr>
           [''PURCHASE AT'', ''SOME STORE DUBAI ARE'',
            ''15/08/2025 NOON.COM DUBAI AED 100.00 - 1,234.56''] =
         Inr \<lparr>transactions = [t], statement_from = None, statement_to = None, buffer_desc = []\<rparr> \<and>
         description t = ''PURCHASE AT SOME STORE DUBAI ARE NOON.COM DUBAI'') \<and>
   \<not> any_in rakbank_SKIP_KEYWORDS (lower ''16/08/2025 USD 10.00 3.67 36.70'') \<and>
   \<not> contains ''statement period'' (lower ''16/08/2025 USD 10.00 3.67 36.70'') \<and>
   re_match RAKBANK_LINE_REGEX ''16/08/2025 USD 10.00 3.67 36.70'' = None \<and>
   re_match RAKBANK_FX_REGEX ''16/08/2025 USD 10.00 3.67 36.70'' =
     Some ([], [1 \<mapsto> ''16/08/2025'', 2 \<mapsto> ''USD'', 3 \<mapsto> ''10.00'', 4 \<mapsto> ''3.67'',
                5 \<mapsto> ''36.70'']) \<and>
   (\<exists>t. parse_rakbank_lines
           \<lparr>transactions = [], statement_from = None, statement_to = None, buffer_desc = []\<rparr>
           [''AMAZON US'', ''16/08/2025 USD 10.00 3.67 36.70''] =
         Inr \<lparr>transactions = [t], statement_from = None, statement_to = None, buffer_desc = []\<rparr> \<and>
         description t = ''AMAZON US'') \<and>
   (\<exists>erest ec edesc t.
      re_match LINE_REGEX ''14 AUG 14 AUG TAXI 9.50'' = Some (erest, ec) \<and> ec 3 = Some edesc \<and>
      parse_emiratesislamic_line emiratesislamic_init ''14 AUG 14 AUG TAXI 9.50'' =
        Inr \<lparr>transactions = [t], statement_from = None, statement_to = None,
             pending_range = None\<rparr> \<and>
      description t = strip edesc)"
proof -
  let ?taxi = "\<lparr>transactions =
             [\<lparr>transaction_date = Some ''1900-08-14'', description = ''TAXI'',
               debit = Fin 9.5, credit = Fin 0, amount = Fin 9.5, balance = None,
               bank = ''Emirates Islamic'', card_type = ''credit'',
               fx_currency = None, fx_amount = None, fx_rate = None\<rparr>],
             statement_from = None, statement_to = None, pending_range = None\<rparr>"
  let ?st = "\<lparr>transactions = [], statement_from = None, statement_to = None, buffer_desc = []\<rparr>"
  let ?c = "[(1::nat) \<mapsto> ''15/08/2025'', 2 \<mapsto> ''NOON.COM DUBAI'', 3 \<mapsto> ''100.00'',
             5 \<mapsto> ''1,234.56'']"
  let ?u = "[(1::nat) \<mapsto> ''16/08/2025'', 2 \<mapsto> ''USD'', 3 \<mapsto> ''10.00'', 4 \<mapsto> ''3.67'',
             5 \<mapsto> ''36.70'']"
  have free: "\<forall>b \<in> set [''PURCHASE AT'', ''SOME STORE DUBAI ARE'']. rakbank_free_text b"
    and free_usd: "\<forall>b \<in> set [''AMAZON US'']. rakbank_free_text b"
    using rakbank_free_lines by simp_all
  have amt: "rakbank_clean_amount (?c 3) = Inr (Fin 100)"
    and bal: "rakbank_clean_amount (?c 5) = Inr (Fin 1234.56)"
    using rakbank_noon_amounts by simp_all
  have usd: "rakbank_clean_amount (?u 3) = Inr (Fin 10)" "rakbank_clean_amount (?u 4) = Inr (Fin 3.67)"
    "rakbank_clean_amount (?u 5) = Inr (Fin 36.7)"
    using rakbank_usd_amounts by simp_all
  have c2: "?c 2 = Some ''NOON.COM DUBAI''"
    by simp
  from rakbank_noon_line have noskip:
      "\<not> any_in rakbank_SKIP_KEYWORDS (lower ''15/08/2025 NOON.COM DUBAI AED 100.00 - 1,234.56'')"
    and noperiod:
      "\<not> contains ''statement period'' (lower ''15/08/2025 NOON.COM DUBAI AED 100.00 - 1,234.56'')"
    and matched:
      "re_match RAKBANK_LINE_REGEX ''15/08/2025 NOON.COM DUBAI AED 100.00 - 1,234.56'' = Some ([], ?c)"
    by simp_all
  from rakbank_usd_line have noskip_usd:
      "\<not> any_in rakbank_SKIP_KEYWORDS (lower ''16/08/2025 USD 10.00 3.67 36.70'')"
    and noperiod_usd: "\<not> contains ''statement period'' (lower ''16/08/2025 USD 10.00 3.67 36.70'')"
    and noaed: "re_match RAKBANK_LINE_REGEX ''16/08/2025 USD 10.00 3.67 36.70'' = None"
    and matched_usd: "re_match RAKBANK_FX_REGEX ''16/08/2025 USD 10.00 3.67 36.70'' = Some ([], ?u)"
    by simp_all
  from rakbank_description_continuation [OF free noskip noperiod,
      where rest = "[]" and c = ?c and a = "Fin 100" and b = "Fin 1234.56" and st = ?st]
    matched amt bal
  obtain t desc where desc: "?c 2 = Some desc"
    and run: "parse_rakbank_lines ?st
            ([''PURCHASE AT'', ''SOME STORE DUBAI ARE''] @
             [''15/08/2025 NOON.COM DUBAI AED 100.00 - 1,234.56'']) =
          Inr (?st\<lparr>transactions := transactions ?st @ [t], buffer_desc := []\<rparr>)"
    and d: "description t =
              strip (join '' ''
                ((if any_in DROP_HINTS
                       (lower (join '' '' (buffer_desc ?st @ [''PURCHASE AT'', ''SOME STORE DUBAI ARE''])))
                  then [] else buffer_desc ?st @ [''PURCHASE AT'', ''SOME STORE DUBAI ARE'']) @
                 [strip desc]))"
    by blast
  from desc c2 have "desc = ''NOON.COM DUBAI''"
    by simp
  with d have d': "description t = ''PURCHASE AT SOME STORE DUBAI ARE NOON.COM DUBAI''"
    by (simp add: base_eval rakbank_eval)
  from run have run': "parse_rakbank_lines ?st
           [''PURCHASE AT'', ''SOME STORE DUBAI ARE'',
            ''15/08/2025 NOON.COM DUBAI AED 100.00 - 1,234.56''] =
         Inr \<lparr>transactions = [t], statement_from = None, statement_to = None, buffer_desc = []\<rparr>"
    by (simp del: parse_rakbank_lines.simps)
  from run' d' have aed: "\<exists>t. parse_rakbank_lines ?st
           [''PURCHASE AT'', ''SOME STORE DUBAI ARE'',
            ''15/08/2025 NOON.COM DUBAI AED 100.00 - 1,234.56''] =
         Inr \<lparr>transactions = [t], statement_from = None, statement_to = None, buffer_desc = []\<rparr> \<and>
         description t = ''PURCHASE AT SOME STORE DUBAI ARE NOON.COM DUBAI''"
    by blast
  from rakbank_description_continuation [OF free_usd noskip_usd noperiod_usd,
      where rest = "[]" and c = ?u and st = ?st and x = "Fin 10" and r = "Fin 3.67"
        and a = "Fin 36.7"]
    noaed matched_usd usd
  obtain tu where
    run_usd: "parse_rakbank_lines ?st ([''AMAZON US''] @ [''16/08/2025 USD 10.00 3.67 36.70'']) =
          Inr (?st\<lparr>transactions := transactions ?st @ [tu], buffer_desc := []\<rparr>)"
    and du: "description tu =
              strip (join '' ''
                (if any_in DROP_HINTS (lower (join '' '' (buffer_desc ?st @ [''AMAZON US''])))
                 then [] else buffer_desc ?st @ [''AMAZON US'']))"
    by blast
  from du have du': "description tu = ''AMAZON US''"
    by (simp add: base_eval rakbank_eval)
  from run_usd have "parse_rakbank_lines ?st [''AMAZON US'', ''16/08/2025 USD 10.00 3.67 36.70''] =
         Inr \<lparr>transactions = [tu], statement_from = None, statement_to = None, buffer_desc = []\<rparr>"
    by (simp del: parse_rakbank_lines.simps)
  with du' have fx: "\<exists>t. parse_rakbank_lines ?st
           [''AMAZON US'', ''16/08/2025 USD 10.00 3.67 36.70''] =
         Inr \<lparr>transactions = [t], statement_from = None, statement_to = None, buffer_desc = []\<rparr> \<and>
         description t = ''AMAZON US''"
    by blast
  from rakbank_description_continuation [OF free noskip noperiod,
      where est = emiratesislamic_init and eraw = "''14 AUG 14 AUG TAXI 9.50''" and est' = ?taxi]
    step_taxi
  have "transactions ?taxi = transactions emiratesislamic_init \<or>
      (\<exists>erest ec edesc t. re_match LINE_REGEX ''14 AUG 14 AUG TAXI 9.50'' = Some (erest, ec) \<and>
         ec 3 = Some edesc \<and>
         transactions ?taxi = transactions emiratesislamic_init @ [t] \<and>
         description t = strip edesc)"
    by blast
  then obtain erest ec edesc t where
    "re_match LINE_REGEX ''14 AUG 14 AUG TAXI 9.50'' = Some (erest, ec)" and "ec 3 = Some edesc"
    and "transactions ?taxi = transactions emiratesislamic_init @ [t]"
    and "description t = strip edesc"
    by (auto simp: emiratesislamic_init_def)
  with step_taxi have own: "\<exists>erest ec edesc t.
      re_match LINE_REGEX ''14 AUG 14 AUG TAXI 9.50'' = Some (erest, ec) \<and> ec 3 = Some edesc \<and>
      parse_emiratesislamic_line emiratesislamic_init ''14 AUG 14 AUG TAXI 9.50'' =
        Inr \<lparr>transactions = [t], statement_from = None, statement_to = None,
             pending_range = None\<rparr> \<and>
      description t = strip edesc"
    by (auto simp: emiratesislamic_init_def)
  from aed fx own rakbank_free_lines rakbank_noon_line rakbank_noon_amounts rakbank_usd_line
  show ?thesis
    by blast
qed

text \<open>
  With an FX line between the free text and an AED line, the free text is the description
  of the FX transaction, and the AED transaction has the description of its own line.
\<close>

lemma rakbank_fx_between_run:
  "\<exists>st. parse_rakbank_lines rakbank_init
          [''AMAZON US'', ''16/08/2025 USD 10.00 3.67 36.70'',
           ''15/08/2025 NOON.COM DUBAI AED 100.00 - 1,234.56''] = Inr st \<and>
        map description (transactions st) = [''AMAZON US'', ''NOON.COM DUBAI'']"
  by (simp add: base_eval rakbank_eval cong: rx_match_cong)

lemma parse_rakbank_line_same_buffer:
  assumes "buffer_desc st1 = buffer_desc st2"
  shows "(case parse_rakbank_line st1 raw of
            Inl e \<Rightarrow> parse_rakbank_line st2 raw = Inl e
          | Inr st1' \<Rightarrow>
              (\<exists>st2' new. parse_rakbank_line st2 raw = Inr st2' \<and>
                 buffer_desc st1' = buffer_desc st2' \<and>
                 transactions st1' = transactions st1 @ new \<and>
                 transactions st2' = transactions st2 @ new))"
  using assms
  by (auto simp: parse_rakbank_line_def Let_def split: option.splits sum.splits prod.splits)

lemma parse_rakbank_lines_same_buffer:
  "buffer_desc st1 = buffer_desc st2 \<Longrightarrow> parse_rakbank_lines st1 ls = Inr st1' \<Longrightarrow>
     \<exists>st2' new. parse_rakbank_lines st2 ls = Inr st2' \<and>
       buffer_desc st1' = buffer_desc st2' \<and>
       transactions st1' = transactions st1 @ new \<and>
       transactions st2' = transactions st2 @ new"
proof (induction ls arbitrary: st1 st2)
  case Nil
  then show ?case by simp
next
  case (Cons raw ls)
  from Cons.prems(2) obtain m1 where s1: "parse_rakbank_line st1 raw = Inr m1"
    and r1: "parse_rakbank_lines m1 ls = Inr st1'"
    by (auto split: sum.splits)
  from parse_rakbank_line_same_buffer [OF Cons.prems(1), of raw] s1
  obtain m2 new where s2: "parse_rakbank_line st2 raw = Inr m2"
    and b: "buffer_desc m1 = buffer_desc m2"
    and t1: "transactions m1 = transactions st1 @ new"
    and t2: "transactions m2 = transactions st2 @ new"
    by auto
  from Cons.IH [OF b r1] obtain st2' more where
    r2: "parse_rakbank_lines m2 ls = Inr st2'" and
    b': "buffer_desc st1' = buffer_desc st2'" and
    t1': "transactions st1' = transactions m1 @ more" and
    t2': "transactions st2' = transactions m2 @ more"
    by blast
  from s2 r2 have "parse_rakbank_lines st2 (raw # ls) = Inr st2'"
    by simp
  moreover from t1 t1' have "transactions st1' = transactions st1 @ (new @ more)"
    by simp
  moreover from t2 t2' have "transactions st2' = transactions st2 @ (new @ more)"
    by simp
  ultimately show ?case using b' by blast
qed

text \<open>
  C10. \<^verbatim>\<open>parse_rakbank\<close> starts every page with an empty description buffer: the result
  of a page does not depend on the buffer that the pages before it left, and the
  transactions that a page adds are those of that page parsed on its own, so free text
  at the end of a page is in no description of a later page.
\<close>

theorem rakbank_buffer_reset_per_page:
  "parse_rakbank_page (st\<lparr>buffer_desc := buf\<rparr>) page = parse_rakbank_page st page \<and>
   (parse_rakbank_page st page = Inr st' \<longrightarrow>
      (\<exists>st0. parse_rakbank_page rakbank_init page = Inr st0 \<and>
             transactions st' = transactions st @ transactions st0))"
proof (intro conjI impI)
  show "parse_rakbank_page (st\<lparr>buffer_desc := buf\<rparr>) page = parse_rakbank_page st page"
    by (simp add: parse_rakbank_page_def)
next
  assume "parse_rakbank_page st page = Inr st'"
  then have run: "parse_rakbank_lines (st\<lparr>buffer_desc := []\<rparr>) (page_lines page) = Inr st'"
    by (simp add: parse_rakbank_page_def)
  have "buffer_desc (st\<lparr>buffer_desc := []\<rparr>) = buffer_desc (rakbank_init\<lparr>buffer_desc := []\<rparr>)"
    by simp
  from parse_rakbank_lines_same_buffer [OF this run]
  obtain st0 new where
    "parse_rakbank_lines (rakbank_init\<lparr>buffer_desc := []\<rparr>) (page_lines page) = Inr st0"
    and "transactions st' = transactions (st\<lparr>buffer_desc := []\<rparr>) @ new"
    and "transactions st0 = transactions (rakbank_init\<lparr>buffer_desc := []\<rparr>) @ new"
    by blast
  then show "\<exists>st0. parse_rakbank_page rakbank_init page = Inr st0 \<and>
             transactions st' = transactions st @ transactions st0"
    by (auto simp: parse_rakbank_page_def rakbank_init_def)
qed

lemma rakbank_cafe_line:
  "buffer_desc st = [] \<Longrightarrow>
     parse_rakbank_line st ''16/08/2025 CAFE AED 3.00 - 5.00'' =
       Inr (st\<lparr>transactions := transactions st @
              [\<lparr>transaction_date = Some ''2025-08-16'', description = ''CAFE'',
                debit = Fin 3, credit = Fin 0, amount = Fin 3, balance = Some (Fin 5),
                bank = ''RAKBANK'', card_type = ''credit'',
                fx_currency = None, fx_amount = None, fx_rate = None\<rparr>],
            buffer_desc := []\<rparr>)"
  by (simp add: base_eval rakbank_eval cong: rx_match_cong)

lemma rakbank_cafe_page_lines:
  "page_lines (Some ''16/08/2025 CAFE AED 3.00 - 5.00'') = [''16/08/2025 CAFE AED 3.00 - 5.00'']"
  by (simp add: base_eval)

theorem rakbank_buffer_reset_per_page_witness:
  "parse_rakbank_page
     \<lparr>transactions =
        [\<lparr>transaction_date = Some ''2025-08-15'', description = ''NOON.COM DUBAI'',
          debit = Fin 100, credit = Fin 0, amount = Fin 100, balance = Some (Fin 1234.56),
          bank = ''RAKBANK'', card_type = ''credit'',
          fx_currency = None, fx_amount = None, fx_rate = None\<rparr>],
      statement_from = None, statement_to = None, buffer_desc = [''THANK YOU FOR BANKING WITH US'']\<rparr>
     (Some ''16/08/2025 CAFE AED 3.00 - 5.00'') =
     Inr \<lparr>transactions =
            [\<lparr>transaction_date = Some ''2025-08-15'', description = ''NOON.COM DUBAI'',
              debit = Fin 100, credit = Fin 0, amount = Fin 100, balance = Some (Fin 1234.56),
              bank = ''RAKBANK'', card_type = ''credit'',
              fx_currency = None, fx_amount = None, fx_rate = None\<rparr>,
             \<lparr>transaction_date = Some ''2025-08-16'', description = ''CAFE'',
              debit = Fin 3, credit = Fin 0, amount = Fin 3, balance = Some (Fin 5),
              bank = ''RAKBANK'', card_type = ''credit'',
              fx_currency = None, fx_amount = None, fx_rate = None\<rparr>],
          statement_from = None, statement_to = None, buffer_desc = []\<rparr> \<and>
   parse_rakbank_page rakbank_init (Some ''16/08/2025 CAFE AED 3.00 - 5.00'') =
     Inr \<lparr>transactions =
            [\<lparr>transaction_date = Some ''2025-08-16'', description = ''CAFE'',
              debit = Fin 3, credit = Fin 0, amount = Fin 3, balance = Some (Fin 5),
              bank = ''RAKBANK'', card_type = ''credit'',
              fx_currency = None, fx_amount = None, fx_rate = None\<rparr>],
          statement_from = None, statement_to = None, buffer_desc = []\<rparr>"
proof -
  let ?noon = "\<lparr>transaction_date = Some ''2025-08-15'', description = ''NOON.COM DUBAI'',
          debit = Fin 100, credit = Fin 0, amount = Fin 100, balance = Some (Fin 1234.56),
          bank = ''RAKBANK'', card_type = ''credit'',
          fx_currency = None, fx_amount = None, fx_rate = None\<rparr>"
  let ?cafe = "\<lparr>transaction_date = Some ''2025-08-16'', description = ''CAFE'',
              debit = Fin 3, credit = Fin 0, amount = Fin 3, balance = Some (Fin 5),
              bank = ''RAKBANK'', card_type = ''credit'',
              fx_currency = None, fx_amount = None, fx_rate = None\<rparr>"
  let ?st = "\<lparr>transactions = [?noon], statement_from = None, statement_to = None,
              buffer_desc = [''THANK YOU FOR BANKING WITH US'']\<rparr>"
  let ?st' = "\<lparr>transactions = [?noon, ?cafe], statement_from = None, statement_to = None,
               buffer_desc = []\<rparr>"
  have run: "parse_rakbank_page ?st (Some ''16/08/2025 CAFE AED 3.00 - 5.00'') = Inr ?st'"
    by (simp add: parse_rakbank_page_def rakbank_cafe_page_lines rakbank_cafe_line)
  from rakbank_buffer_reset_per_page
         [where st = ?st and page = "Some ''16/08/2025 CAFE AED 3.00 - 5.00''" and st' = ?st'] run
  obtain st0 where
    alone: "parse_rakbank_page rakbank_init (Some ''16/08/2025 CAFE AED 3.00 - 5.00'') = Inr st0"
    and added: "transactions ?st' = transactions ?st @ transactions st0"
    by blast
  have "parse_rakbank_page rakbank_init (Some ''16/08/2025 CAFE AED 3.00 - 5.00'') =
          Inr \<lparr>transactions = [?cafe], statement_from = None, statement_to = None, buffer_desc = []\<rparr>"
    by (simp add: parse_rakbank_page_def rakbank_cafe_page_lines rakbank_cafe_line rakbank_init_def)
  with run alone added show ?thesis
    by simp
qed

section \<open>The year of a transaction date\<close>

text \<open>
  A transaction line carries a day and a month. \<^verbatim>\<open>normalize_date\<close> reads them in the
  format \<^verbatim>\<open>%d %b\<close>, which leaves the year at 1900, and lines 146 to 159 of
  \<^verbatim>\<open>parse_emiratesislamic\<close> read the ISO text back, replace the year, and write the date
  again. The section follows the date through the text: what \<^verbatim>\<open>isoformat\<close> writes,
  \<^verbatim>\<open>strptime\<close> reads as the same date.
\<close>

subsection \<open>Decimal digits\<close>

lemma is_digit_other:
  assumes "is_digit c"
  shows "\<not> is_space c" and "c \<noteq> CHR ''_''" and "c \<noteq> CHR ''-''" and "c \<noteq> CHR ''+''"
  using assms by (auto simp: is_digit_def is_space_def Let_def)

lemma digit_char_digit:
  assumes "0 \<le> n" and "n \<le> 9"
  shows "is_digit (digit_char n)" and "digit_val (digit_char n) = n"
proof -
  from assms have m: "(48 + n) mod 256 = 48 + n"
    by simp
  show "is_digit (digit_char n)"
    using assms by (simp add: is_digit_def digit_char_def m)
  show "digit_val (digit_char n) = n"
    by (simp add: digit_val_def digit_char_def m)
qed

lemma four_digits:
  fixes y :: int
  assumes "0 \<le> y" and "y \<le> 9999"
  shows "10 * (10 * (10 * (y div 1000 mod 10) + y div 100 mod 10) + y div 10 mod 10) + y mod 10 = y"
proof -
  have h: "y div 100 = y div 10 div 10"
    using zdiv_zmult2_eq [of 10 y 10] by simp
  have t: "y div 1000 = y div 100 div 10"
    using zdiv_zmult2_eq [of 10 y 100] by simp
  from assms have "y div 1000 < 10"
    by simp
  moreover from assms have "0 \<le> y div 1000"
    by simp
  ultimately have top: "y div 1000 mod 10 = y div 1000"
    by simp
  have "10 * (y div 1000) + y div 100 mod 10 = y div 100"
    unfolding t by simp
  moreover have "10 * (y div 100) + y div 10 mod 10 = y div 10"
    unfolding h by simp
  moreover have "10 * (y div 10) + y mod 10 = y"
    by simp
  ultimately show ?thesis
    unfolding top by simp
qed

lemma two_digits:
  fixes n :: int
  assumes "0 \<le> n" and "n \<le> 99"
  shows "10 * (n div 10 mod 10) + n mod 10 = n"
proof -
  from assms have "n div 10 < 10" and "0 \<le> n div 10"
    by simp_all
  then have "n div 10 mod 10 = n div 10"
    by simp
  then show ?thesis
    by simp
qed

lemma pad4_value:
  assumes "0 \<le> y" and "y \<le> 9999"
  shows "digits_int (pad4 y) = y"
proof -
  let ?a = "y div 1000 mod 10" and ?b = "y div 100 mod 10" and ?c = "y div 10 mod 10"
    and ?d = "y mod 10"
  have r: "0 \<le> ?a" "?a \<le> 9" "0 \<le> ?b" "?b \<le> 9" "0 \<le> ?c" "?c \<le> 9" "0 \<le> ?d" "?d \<le> 9"
    by simp_all
  have "digits_int (pad4 y) = 10 * (10 * (10 * ?a + ?b) + ?c) + ?d"
    by (simp add: digits_int_def pad4_def digit_char_digit(2) r)
  also from assms have "\<dots> = y"
    by (rule four_digits)
  finally show ?thesis .
qed

lemma pad2_value:
  assumes "0 \<le> n" and "n \<le> 99"
  shows "digits_int (pad2 n) = n"
proof -
  let ?c = "n div 10 mod 10" and ?d = "n mod 10"
  have r: "0 \<le> ?c" "?c \<le> 9" "0 \<le> ?d" "?d \<le> 9"
    by simp_all
  have "digits_int (pad2 n) = 10 * ?c + ?d"
    by (simp add: digits_int_def pad2_def digit_char_digit(2) r)
  also from assms have "\<dots> = n"
    by (rule two_digits)
  finally show ?thesis .
qed

lemma pad4_digits: "list_all is_digit (pad4 y)"
  by (simp add: pad4_def digit_char_digit(1))

lemma pad2_digits: "list_all is_digit (pad2 n)"
  by (simp add: pad2_def digit_char_digit(1))

lemma dropWhile_none:
  "\<forall>c \<in> set ds. \<not> p c \<Longrightarrow> dropWhile p ds = ds"
  by (cases ds) auto

lemma strip_digits:
  assumes "list_all is_digit ds"
  shows "strip ds = ds"
proof -
  from assms have "\<forall>c \<in> set ds. \<not> is_space c"
    by (auto simp: list_all_iff is_digit_other(1))
  then have "dropWhile is_space ds = ds" and "dropWhile is_space (rev ds) = rev ds"
    by (simp_all add: dropWhile_none)
  then show ?thesis
    by (simp add: strip_def strip_where_def)
qed

lemma py_int_digits:
  assumes "list_all is_digit ds" and "ds \<noteq> []"
  shows "py_int ds = Inr (digits_int ds)"
proof -
  from assms obtain x xs where ds: "ds = x # xs" and x: "is_digit x"
    by (cases ds) auto
  from x have sg: "sign_split ds = (False, ds)"
    by (simp add: ds is_digit_other)
  from assms(1) have us: "CHR ''_'' \<notin> set ds"
    by (auto simp: list_all_iff dest: is_digit_other(2))
  show ?thesis
    using assms by (simp add: py_int_def strip_digits sg drop_underscores_def us)
qed

lemma py_int_year:
  assumes "1 \<le> y" and "y \<le> 9999"
  shows "py_int (take 4 (pad4 y @ rest)) = Inr y"
proof -
  have "take 4 (pad4 y @ rest) = pad4 y"
    by (simp add: pad4_def)
  moreover have "py_int (pad4 y) = Inr (digits_int (pad4 y))"
    by (rule py_int_digits) (simp_all add: pad4_digits, simp add: pad4_def)
  ultimately show ?thesis
    using assms by (simp add: pad4_value)
qed

subsection \<open>The patterns of the directives\<close>

lemma strptime_rx_ymd:
  "strptime_rx ''%Y-%m-%d'' =
     Some (Cat rx_directive_Y (Cat (rx_lit_i ''-'') (Cat rx_directive_m
       (Cat (rx_lit_i ''-'') (Cat rx_directive_d Eps)))))"
  by (simp add: directive_rx_def is_space_def)

lemma strptime_rx_day_month:
  "strptime_rx ''%d %b'' = Some (Cat rx_directive_d (Cat (rx_plus rx_space) (Cat rx_directive_b Eps)))"
  by (simp add: directive_rx_def is_space_def)

lemma rx_groups_day_month:
  "rx_groups (Cat rx_directive_d (Cat (rx_plus rx_space) (Cat rx_directive_b Eps))) = {1, 4}"
  by (auto simp: rx_directive_d_def rx_directive_b_def rx_plus_def rx_space_def rx_lit_def
      rx_lit_i_def rx_range_def rx_digit_def month_abbr_def)

lemma match_directive_Y:
  assumes "is_digit a" and "is_digit b" and "is_digit c" and "is_digit d"
  shows "rx_match rx_directive_Y (a # b # c # d # rest) cp k = k rest (cp(3 \<mapsto> [a, b, c, d]))"
  using assms by (simp add: rx_directive_Y_def rx_digit_def eval_nat_numeral)

lemma match_dash:
  "rx_match (rx_lit_i ''-'') (CHR ''-'' # rest) cp k = k rest cp"
  by (simp add: rx_lit_i_def)

lemma match_directive_m:
  assumes "1 \<le> m" and "m \<le> 12" and "k rest (cp(2 \<mapsto> pad2 m)) = Some x"
  shows "rx_match rx_directive_m (pad2 m @ rest) cp k = Some x"
proof -
  from assms(1,2) have "m = 1 \<or> m = 2 \<or> m = 3 \<or> m = 4 \<or> m = 5 \<or> m = 6 \<or> m = 7 \<or> m = 8
      \<or> m = 9 \<or> m = 10 \<or> m = 11 \<or> m = 12"
    by arith
  then show ?thesis
    using assms(3)
    by (elim disjE)
      (simp_all add: rx_directive_m_def rx_lit_def rx_range_def pad2_def digit_char_def
        char_of_def eval_nat_numeral cong: rx_match_cong)
qed

lemma match_directive_d:
  assumes "1 \<le> d" and "d \<le> 31" and "k rest (cp(1 \<mapsto> pad2 d)) = Some x"
  shows "rx_match rx_directive_d (pad2 d @ rest) cp k = Some x"
proof -
  from assms(1,2) have "d = 1 \<or> d = 2 \<or> d = 3 \<or> d = 4 \<or> d = 5 \<or> d = 6 \<or> d = 7 \<or> d = 8
      \<or> d = 9 \<or> d = 10 \<or> d = 11 \<or> d = 12 \<or> d = 13 \<or> d = 14 \<or> d = 15 \<or> d = 16 \<or> d = 17
      \<or> d = 18 \<or> d = 19 \<or> d = 20 \<or> d = 21 \<or> d = 22 \<or> d = 23 \<or> d = 24 \<or> d = 25 \<or> d = 26
      \<or> d = 27 \<or> d = 28 \<or> d = 29 \<or> d = 30 \<or> d = 31"
    by arith
  then show ?thesis
    using assms(3)
    by (elim disjE)
      (simp_all add: rx_directive_d_def rx_lit_def rx_range_def rx_digit_def is_digit_def
        pad2_def digit_char_def char_of_def eval_nat_numeral cong: rx_match_cong)
qed

subsection \<open>Writing a date and reading it back\<close>

lemma make_date_fields:
  assumes "make_date y m d = Inr dt"
  shows "dt = \<lparr>year = y, month = m, day = d\<rparr>"
    and "1 \<le> y" and "y \<le> 9999" and "1 \<le> m" and "m \<le> 12" and "1 \<le> d"
    and "d \<le> days_in_month y m"
  using assms by (auto simp: make_date_def split: if_splits)

lemma days_in_month_le: "days_in_month y m \<le> 31"
  by (simp add: days_in_month_def)

lemma re_match_isoformat:
  assumes "make_date y m d = Inr dt"
  shows "re_match (Cat rx_directive_Y (Cat (rx_lit_i ''-'') (Cat rx_directive_m
           (Cat (rx_lit_i ''-'') (Cat rx_directive_d Eps))))) (isoformat dt) =
         Some ([], [3 \<mapsto> pad4 y, 2 \<mapsto> pad2 m, 1 \<mapsto> pad2 d])"
proof -
  note f = make_date_fields [OF assms]
  from f(7) days_in_month_le [of y m] have d31: "d \<le> 31"
    by simp
  let ?k = "\<lambda>s' c. Some (s', c :: caps)"
  let ?c3 = "[3 \<mapsto> pad4 y]"
  let ?c2 = "[3 \<mapsto> pad4 y, 2 \<mapsto> pad2 m]"
  let ?c1 = "[3 \<mapsto> pad4 y, 2 \<mapsto> pad2 m, 1 \<mapsto> pad2 d]"
  have day: "rx_match rx_directive_d (pad2 d @ []) ?c2 (\<lambda>s' c'. rx_match Eps s' c' ?k)
      = Some ([], ?c1)"
    by (rule match_directive_d [OF f(6) d31]) simp
  have month: "rx_match rx_directive_m (pad2 m @ (CHR ''-'' # pad2 d)) ?c3
      (\<lambda>s' c'. rx_match (Cat (rx_lit_i ''-'') (Cat rx_directive_d Eps)) s' c' ?k)
      = Some ([], ?c1)"
    by (rule match_directive_m [OF f(4) f(5)]) (use day in \<open>simp add: match_dash\<close>)
  have iso: "isoformat dt = pad4 y @ CHR ''-'' # pad2 m @ CHR ''-'' # pad2 d"
    by (simp add: f(1) isoformat_def)
  have digs: "list_all is_digit (pad4 y)"
    by (rule pad4_digits)
  obtain a b c e where p4: "pad4 y = [a, b, c, e]"
    by (simp add: pad4_def)
  with digs have "is_digit a" "is_digit b" "is_digit c" "is_digit e"
    by simp_all
  then have "rx_match rx_directive_Y (a # b # c # e # CHR ''-'' # pad2 m @ CHR ''-'' # pad2 d)
      Map.empty (\<lambda>s' c'. rx_match (Cat (rx_lit_i ''-'') (Cat rx_directive_m
           (Cat (rx_lit_i ''-'') (Cat rx_directive_d Eps)))) s' c' ?k) = Some ([], ?c1)"
    using month by (simp add: match_directive_Y match_dash p4 [symmetric])
  then show ?thesis
    by (simp add: re_match_def iso p4)
qed

lemma strptime_isoformat:
  assumes "make_date y m d = Inr dt"
  shows "strptime (isoformat dt) ''%Y-%m-%d'' = Inr dt"
proof -
  note f = make_date_fields [OF assms]
  from f(7) days_in_month_le [of y m] have d31: "d \<le> 31"
    by simp
  have "digits_int (pad4 y) = y"
    using f(2,3) by (simp add: pad4_value)
  moreover have "digits_int (pad2 m) = m"
    using f(4,5) by (simp add: pad2_value)
  moreover have "strip (pad2 d) = pad2 d"
    by (rule strip_digits) (rule pad2_digits)
  moreover have "digits_int (pad2 d) = d"
    using f(6) d31 by (simp add: pad2_value)
  ultimately show ?thesis
    using assms
    by (simp add: strptime_def strptime_rx_ymd re_match_isoformat [OF assms]
        del: strptime_rx.simps)
qed

lemma strptime_day_month_fields:
  assumes "strptime s ''%d %b'' = Inr dm"
  shows "year dm = 1900" and "1 \<le> month dm" and "month dm \<le> 12" and "1 \<le> day dm"
    and "day dm \<le> days_in_month 1900 (month dm)"
    and "make_date 1900 (month dm) (day dm) = Inr dm"
proof -
  let ?r = "Cat rx_directive_d (Cat (rx_plus rx_space) (Cat rx_directive_b Eps))"
  from assms obtain rest c where m: "re_match ?r s = Some (rest, c)"
    by (auto simp: strptime_def strptime_rx_day_month simp del: strptime_rx.simps
        split: option.splits)
  have "3 \<notin> rx_groups ?r"
    by (simp add: rx_groups_day_month del: rx_groups.simps)
  with m have c3: "c 3 = None"
    by (rule re_match_frame)
  from assms m c3 obtain mo da where md: "make_date 1900 mo da = Inr dm"
    by (auto simp: strptime_def strptime_rx_day_month Let_def simp del: strptime_rx.simps
        split: if_splits)
  note f = make_date_fields [OF md]
  from f show "year dm = 1900" and "1 \<le> month dm" and "month dm \<le> 12" and "1 \<le> day dm"
    and "day dm \<le> days_in_month 1900 (month dm)"
    by simp_all
  from md f(1) show "make_date 1900 (month dm) (day dm) = Inr dm"
    by simp
qed

lemma replace_year_day_month:
  assumes "make_date 1900 m d = Inr dm" and "1 \<le> y" and "y \<le> 9999"
  shows "replace_year dm y = Inr (dm\<lparr>year := y\<rparr>)"
    and "make_date y m d = Inr (dm\<lparr>year := y\<rparr>)"
proof -
  note f = make_date_fields [OF assms(1)]
  have "days_in_month 1900 m \<le> days_in_month y m"
    by (simp add: days_in_month_def is_leap_def)
  with f(7) have "d \<le> days_in_month y m"
    by simp
  with f assms(2,3) show "make_date y m d = Inr (dm\<lparr>year := y\<rparr>)"
    by (simp add: make_date_def)
  with f(1) show "replace_year dm y = Inr (dm\<lparr>year := y\<rparr>)"
    by (simp add: replace_year_def)
qed

subsection \<open>Lines 146 to 159\<close>

lemma isoformat_year:
  assumes "make_date y m d = Inr dt"
  shows "py_int (take 4 (isoformat dt)) = Inr y" and "isoformat dt \<noteq> []"
proof -
  note f = make_date_fields [OF assms]
  have "isoformat dt = pad4 y @ (CHR ''-'' # pad2 m @ CHR ''-'' # pad2 d)"
    by (simp add: f(1) isoformat_def)
  then show "py_int (take 4 (isoformat dt)) = Inr y"
    using f(2,3) by (simp only: py_int_year)
  show "isoformat dt \<noteq> []"
    by (simp add: isoformat_def pad4_def)
qed

lemma resolve_year_day_month:
  assumes "make_date fy fm fd = Inr fdt" and "make_date ty tm td = Inr tdt"
    and "strptime s ''%d %b'' = Inr dm"
  shows "resolve_year (Some (isoformat dm)) (isoformat fdt) (isoformat tdt) =
           Inr (strftime_ymd (dm\<lparr>year := if tm < 6 \<and> 6 < month dm then fy else ty\<rparr>))"
proof -
  note ff = make_date_fields [OF assms(1)]
  note tf = make_date_fields [OF assms(2)]
  note df = strptime_day_month_fields [OF assms(3)]
  have to_dt: "replace_year dm ty = Inr (dm\<lparr>year := ty\<rparr>)"
    using df(6) tf(2,3) by (rule replace_year_day_month(1))
  have "make_date ty (month dm) (day dm) = Inr (dm\<lparr>year := ty\<rparr>)"
    using df(6) tf(2,3) by (rule replace_year_day_month(2))
  then have "make_date 1900 (month dm) (day dm) = Inr dm \<Longrightarrow>
      replace_year (dm\<lparr>year := ty\<rparr>) fy = Inr (dm\<lparr>year := fy\<rparr>)"
    using replace_year_day_month(2) [OF df(6) ff(2,3)] by (simp add: replace_year_def)
  with df(6) have from_dt: "replace_year (dm\<lparr>year := ty\<rparr>) fy = Inr (dm\<lparr>year := fy\<rparr>)"
    by simp
  have mt: "month tdt = tm"
    by (simp add: tf(1))
  show ?thesis
    by (simp add: resolve_year_def isoformat_year(1) [OF assms(1)] isoformat_year(1) [OF assms(2)]
        strptime_isoformat [OF df(6)] strptime_isoformat [OF assms(2)] to_dt from_dt mt)
qed

lemma both_set_year_day_month:
  assumes "make_date fy fm fd = Inr fdt" and "make_date ty tm td = Inr tdt"
    and "strptime s ''%d %b'' = Inr dm"
  shows "both_set_year (normalize_date s ''%d %b'') (Some (isoformat fdt)) (Some (isoformat tdt)) =
         Inr (Some (strftime_ymd (dm\<lparr>year := if tm < 6 \<and> 6 < month dm then fy else ty\<rparr>)))"
  using assms
  by (simp add: normalize_date_def isoformat_year(2) resolve_year_day_month)

text \<open>From the year 1000 on, \<^verbatim>\<open>strftime\<close> writes the ISO text.\<close>

lemma strftime_ymd_isoformat:
  assumes "1000 \<le> year dt" and "year dt \<le> 9999"
  shows "strftime_ymd dt = isoformat dt"
proof -
  from assms have "1 \<le> year dt div 1000" and "year dt div 1000 \<le> 9"
    by simp_all
  then have "year dt div 1000 mod 10 = year dt div 1000"
    by simp
  with \<open>1 \<le> year dt div 1000\<close> \<open>year dt div 1000 \<le> 9\<close>
  have "digit_val (digit_char (year dt div 1000 mod 10)) \<noteq> digit_val (CHR ''0'')"
    by (simp add: digit_char_digit(2)) (simp add: digit_val_def)
  then have "digit_char (year dt div 1000 mod 10) \<noteq> CHR ''0''"
    by auto
  then show ?thesis
    by (simp add: strftime_ymd_def isoformat_def year_unpadded_def pad4_def)
qed

subsection \<open>The days and months that are read\<close>

text \<open>
  In the format \<^verbatim>\<open>%d %b\<close>, \<^verbatim>\<open>strptime\<close> reads two digits of a day, white space and the
  three letters of a month, in any case, whenever the month has that day in the year
  1900. That is every day of the calendar but 29 February.
\<close>

lemma rx_seq_Cons: "rs \<noteq> [] \<Longrightarrow> rx_seq (r # rs) = Cat r (rx_seq rs)"
  by (cases rs) simp_all

lemma rx_lit_i_match:
  "s \<noteq> [] \<Longrightarrow> map lower_char t = map lower_char s \<Longrightarrow>
     rx_match (rx_lit_i s) (t @ rest) c k = k rest c"
proof (induction s arbitrary: t)
  case Nil
  then show ?case by simp
next
  case (Cons a s)
  from Cons.prems(2) obtain b t' where t: "t = b # t'" and b: "lower_char b = lower_char a"
    and t': "map lower_char t' = map lower_char s"
    by (cases t) auto
  show ?case
  proof (cases "s = []")
    case True
    with t t' b show ?thesis by (simp add: rx_lit_i_def)
  next
    case False
    with Cons.IH [OF False t'] t b show ?thesis
      by (simp add: rx_lit_i_def rx_seq_Cons)
  qed
qed

lemma rx_lit_i_mismatch:
  "length t = length s \<Longrightarrow> map lower_char t \<noteq> map lower_char s \<Longrightarrow>
     rx_match (rx_lit_i s) (t @ rest) c k = None"
proof (induction s arbitrary: t)
  case Nil
  then show ?case by simp
next
  case (Cons a s)
  from Cons.prems(1) obtain b t' where t: "t = b # t'" and len: "length t' = length s"
    by (cases t) auto
  show ?case
  proof (cases "s = []")
    case True
    with t len Cons.prems(2) show ?thesis by (simp add: rx_lit_i_def)
  next
    case False
    show ?thesis
    proof (cases "lower_char b = lower_char a")
      case True
      with Cons.prems(2) t have "map lower_char t' \<noteq> map lower_char s"
        by simp
      from Cons.IH [OF len this] t True False show ?thesis
        by (simp add: rx_lit_i_def rx_seq_Cons)
    next
      case neq: False
      with t False show ?thesis
        by (simp add: rx_lit_i_def rx_seq_Cons)
    qed
  qed
qed

lemma space_run:
  assumes "\<forall>c \<in> set sp. is_space c" and "rest = [] \<or> \<not> is_space (hd rest)"
    and "k rest c0 = Some x"
  shows "rx_match (Star True (Ch is_space)) (sp @ rest) c0 k = Some x"
  using assms(1)
proof (induction sp)
  case Nil
  from assms(2,3) show ?case
    by (cases rest) auto
next
  case (Cons a sp)
  then have "is_space a" and "rx_match (Star True (Ch is_space)) (sp @ rest) c0 k = Some x"
    by simp_all
  then show ?case
    by simp
qed

lemma letter_no_space:
  assumes "lower_char a = b" and "is_lower b"
  shows "\<not> is_space a"
proof
  assume sp: "is_space a"
  then have "\<not> is_upper a"
    by (auto simp: is_space_def is_upper_def Let_def)
  with assms(1) have "a = b"
    by (simp add: lower_char_def)
  with sp assms(2) show False
    by (auto simp: is_space_def is_lower_def Let_def)
qed

lemma month_abbr_index:
  assumes "1 \<le> m" and "m \<le> 12"
  shows "index_of (month_abbr ! nat m) month_abbr = m"
    and "length (month_abbr ! nat m) = 3"
    and "list_all is_lower (month_abbr ! nat m)"
proof -
  from assms have "m = 1 \<or> m = 2 \<or> m = 3 \<or> m = 4 \<or> m = 5 \<or> m = 6 \<or> m = 7 \<or> m = 8
      \<or> m = 9 \<or> m = 10 \<or> m = 11 \<or> m = 12"
    by arith
  then show "index_of (month_abbr ! nat m) month_abbr = m"
    and "length (month_abbr ! nat m) = 3"
    and "list_all is_lower (month_abbr ! nat m)"
    by (auto simp: month_abbr_def is_lower_def)
qed

lemma lower_char_idem: "lower_char (lower_char c) = lower_char c"
proof (cases "is_upper c")
  case True
  then have r: "65 \<le> (of_char c :: int)" "(of_char c :: int) \<le> 90"
    by (simp_all add: is_upper_def Let_def)
  then have "((of_char c :: int) + 32) mod 256 = of_char c + 32"
    by simp
  with r have "\<not> is_upper (char_of ((of_char c :: int) + 32))"
    by (simp add: is_upper_def Let_def)
  with True show ?thesis
    by (simp add: lower_char_def)
next
  case False
  then show ?thesis
    by (simp add: lower_char_def)
qed

lemma match_directive_b:
  assumes "1 \<le> m" and "m \<le> 12" and "lower t = month_abbr ! nat m"
    and "k rest (cp(4 \<mapsto> t)) = Some x"
  shows "rx_match rx_directive_b (t @ rest) cp k = Some x"
proof -
  from assms(1,2) have len: "length (month_abbr ! nat m) = 3"
    by (rule month_abbr_index(2))
  with assms(3) have lt: "length t = 3"
    by (metis length_map lower_def)
  have hit: "rx_match (rx_lit_i s) (t @ rest) c' k' = k' rest c'"
    if "s = lower t" for s c' and k' :: "string \<Rightarrow> caps \<Rightarrow> 'a option"
  proof -
    from that lt have "s \<noteq> []"
      by (auto simp: lower_def)
    moreover from that have "map lower_char t = map lower_char s"
      by (simp add: lower_def lower_char_idem)
    ultimately show ?thesis
      by (rule rx_lit_i_match)
  qed
  have miss: "rx_match (rx_lit_i s) (t @ rest) c' k' = None"
    if "length s = 3" and "map lower_char s \<noteq> lower t" for s c' and k' :: "string \<Rightarrow> caps \<Rightarrow> 'a option"
    using that lt by (intro rx_lit_i_mismatch) (auto simp: lower_def)
  from assms(1,2) have "m = 1 \<or> m = 2 \<or> m = 3 \<or> m = 4 \<or> m = 5 \<or> m = 6 \<or> m = 7 \<or> m = 8
      \<or> m = 9 \<or> m = 10 \<or> m = 11 \<or> m = 12"
    by arith
  then show ?thesis
    using assms(3,4) lt
    by (elim disjE)
      (simp_all add: rx_directive_b_def month_abbr_def hit miss lower_char_def is_upper_def
        eval_nat_numeral cong: rx_match_cong)
qed

lemma strptime_day_month_reads:
  assumes m: "1 \<le> m" "m \<le> 12" and d: "1 \<le> d" "d \<le> days_in_month 1900 m"
    and t: "lower t = month_abbr ! nat m"
    and sp: "sp \<noteq> []" "\<forall>c \<in> set sp. is_space c"
  shows "strptime (pad2 d @ sp @ t) ''%d %b'' = Inr \<lparr>year = 1900, month = m, day = d\<rparr>"
proof -
  let ?final = "\<lambda>s' (c :: caps). Some (s', c)"
  let ?c1 = "[(1::nat) \<mapsto> pad2 d]"
  let ?c4 = "[(1::nat) \<mapsto> pad2 d, 4 \<mapsto> t]"
  from d days_in_month_le [of 1900 m] have d31: "d \<le> 31"
    by simp
  note abbr = month_abbr_index [OF m]
  from abbr(2) t have lt: "length t = 3"
    by (metis length_map lower_def)
  then obtain a t' where ta: "t = a # t'"
    by (cases t) auto
  from t ta have "month_abbr ! nat m = lower_char a # map lower_char t'"
    by (simp add: lower_def)
  with abbr(3) have "is_lower (lower_char a)"
    by simp
  then have nospace: "\<not> is_space a"
    using letter_no_space by blast
  have month: "rx_match rx_directive_b (t @ []) ?c1 (\<lambda>s' c'. rx_match Eps s' c' ?final) = Some ([], ?c4)"
    using m t by (rule match_directive_b) simp
  from sp(1) obtain b sp' where spb: "sp = b # sp'"
    by (cases sp) auto
  with sp(2) have b: "is_space b" and sp': "\<forall>c \<in> set sp'. is_space c"
    by simp_all
  from nospace ta have "t = [] \<or> \<not> is_space (hd t)"
    by simp
  with sp' have "rx_match (Star True (Ch is_space)) (sp' @ t) ?c1
      (\<lambda>s' c'. rx_match (Cat rx_directive_b Eps) s' c' ?final) = Some ([], ?c4)"
    by (rule space_run) (use month in simp)
  with b have spaces: "rx_match (Cat (rx_plus rx_space) (Cat rx_directive_b Eps)) (sp @ t) ?c1 ?final
      = Some ([], ?c4)"
    by (simp add: spb rx_plus_def rx_space_def del: rx_match.simps(5))
  have "rx_match rx_directive_d (pad2 d @ (sp @ t)) Map.empty
      (\<lambda>s' c'. rx_match (Cat (rx_plus rx_space) (Cat rx_directive_b Eps)) s' c' ?final)
      = Some ([], ?c4)"
    by (rule match_directive_d [OF d(1) d31]) (use spaces in simp)
  then have matched: "re_match (Cat rx_directive_d (Cat (rx_plus rx_space) (Cat rx_directive_b Eps)))
      (pad2 d @ sp @ t) = Some ([], ?c4)"
    by (simp add: re_match_def)
  have "strip (pad2 d) = pad2 d"
    by (rule strip_digits) (rule pad2_digits)
  moreover have "digits_int (pad2 d) = d"
    using d(1) d31 by (simp add: pad2_value)
  moreover have "index_of (lower t) month_abbr = m"
    by (simp add: t abbr(1))
  ultimately show ?thesis
    using m d
    by (simp add: strptime_def strptime_rx_day_month matched make_date_def
        del: strptime_rx.simps)
qed

subsection \<open>The boundaries of the period\<close>

text \<open>
  The statement boundaries are always texts that \<^verbatim>\<open>_parse_full_date\<close> returned, that is
  \<^verbatim>\<open>isoformat\<close> of a date that exists.
\<close>

lemma parse_full_date_isoformat:
  assumes "parse_full_date s = Some t"
  shows "\<exists>y m d dt. make_date y m d = Inr dt \<and> t = isoformat dt"
proof -
  have "\<exists>y m d. make_date y m d = Inr dt" if "strptime u fmt = Inr dt" for u fmt dt
    using that by (auto simp: strptime_def Let_def split: option.splits if_splits) blast+
  with assms show ?thesis
    by (fastforce simp: parse_full_date_def Let_def split: sum.splits)
qed

text \<open>So are the boundaries of every state that the loop reaches.\<close>

lemma parse_emiratesislamic_line_boundary_source:
  assumes "parse_emiratesislamic_line st raw = Inr st'"
  shows "(statement_from st' = statement_from st \<or>
            (\<exists>x t. parse_full_date x = Some t \<and> statement_from st' = Some t)) \<and>
         (statement_to st' = statement_to st \<or>
            (\<exists>x t. parse_full_date x = Some t \<and> statement_to st' = Some t))"
proof (cases "any_in emiratesislamic_SKIP_KEYWORDS (lower raw)")
  case True
  with assms show ?thesis by (simp add: emiratesislamic_skip_line)
next
  case noskip: False
  show ?thesis
  proof (cases "re_match FROM_TO_REGEX raw")
    case (Some m)
    with assms noskip show ?thesis
      by (cases m) (auto simp: parse_emiratesislamic_line_def Let_def
          split: option.splits if_splits elim!: truthy.elims)
  next
    case nolabel: None
    with assms noskip show ?thesis
      by (auto simp: parse_emiratesislamic_line_def Let_def
          split: option.splits if_splits sum.splits prod.splits elim!: truthy.elims)
  qed
qed

lemma reachable_boundaries:
  assumes "parse_emiratesislamic_lines st ls = Inr st'"
    and "\<forall>s. statement_from st = Some s \<or> statement_to st = Some s \<longrightarrow>
           (\<exists>y m d dt. make_date y m d = Inr dt \<and> s = isoformat dt)"
  shows "\<forall>s. statement_from st' = Some s \<or> statement_to st' = Some s \<longrightarrow>
           (\<exists>y m d dt. make_date y m d = Inr dt \<and> s = isoformat dt)"
  using assms
proof (induction ls arbitrary: st)
  case Nil
  then show ?case by simp
next
  case (Cons raw ls)
  from Cons.prems(1) obtain st1 where step: "parse_emiratesislamic_line st raw = Inr st1"
    and rest: "parse_emiratesislamic_lines st1 ls = Inr st'"
    by (auto split: sum.splits)
  from parse_emiratesislamic_line_boundary_source [OF step] Cons.prems(2)
  have "\<forall>s. statement_from st1 = Some s \<or> statement_to st1 = Some s \<longrightarrow>
           (\<exists>y m d dt. make_date y m d = Inr dt \<and> s = isoformat dt)"
    by (metis parse_full_date_isoformat option.inject)
  with rest show ?case by (rule Cons.IH)
qed

subsection \<open>A leap day\<close>

lemma leap_year_period:
  "parse_emiratesislamic_lines emiratesislamic_init [''From: 15th Feb 2024'', ''To: 14th Mar 2024''] =
     Inr \<lparr>transactions = [], statement_from = Some ''2024-02-15'',
          statement_to = Some ''2024-03-14'', pending_range = None\<rparr>"
  by (simp add: base_eval emiratesislamic_eval cong: rx_match_cong)

lemma leap_day_line:
  "parse_emiratesislamic_line
     \<lparr>transactions = [], statement_from = Some ''2024-02-15'',
      statement_to = Some ''2024-03-14'', pending_range = None\<rparr>
     ''01 MAR 29 FEB TAXI 9.50'' = Inl TypeError"
  by (simp add: base_eval emiratesislamic_eval cong: rx_match_cong)

lemma leap_day_page_lines:
  "concat (map page_lines [Some ''From: 15th Feb 2024\<newline>To: 14th Mar 2024\<newline>01 MAR 29 FEB TAXI 9.50'']) =
     [''From: 15th Feb 2024'', ''To: 14th Mar 2024'', ''01 MAR 29 FEB TAXI 9.50'']"
  by (simp add: base_eval)

lemma leap_day_strptime: "strptime ''29 FEB'' ''%d %b'' = Inl ValueError"
  by (simp add: base_eval cong: rx_match_cong)

text \<open>
  C4 as stated gives every day and month of a transaction line a year once both
  boundaries are set. \<^verbatim>\<open>strptime\<close> reads a day and month in the year 1900, which has no
  29 February: it refuses \<^verbatim>\<open>29 FEB\<close>, and in a statement from 2024-02-15 to 2024-03-14
  the line of a transaction of that day gets no date; the parse raises.
\<close>

theorem leap_day_counterexample:
  "strptime ''29 FEB'' ''%d %b'' = Inl ValueError \<and>
   parse_emiratesislamic_lines emiratesislamic_init [''From: 15th Feb 2024'', ''To: 14th Mar 2024''] =
     Inr \<lparr>transactions = [], statement_from = Some ''2024-02-15'',
          statement_to = Some ''2024-03-14'', pending_range = None\<rparr> \<and>
   parse_emiratesislamic_lines emiratesislamic_init
     [''From: 15th Feb 2024'', ''To: 14th Mar 2024'', ''01 MAR 29 FEB TAXI 9.50''] = Inl TypeError \<and>
   parse_emiratesislamic
     (PdfPages [Some ''From: 15th Feb 2024\<newline>To: 14th Mar 2024\<newline>01 MAR 29 FEB TAXI 9.50'']) =
     Inl TypeError"
proof -
  have run: "parse_emiratesislamic_lines emiratesislamic_init
          ([''From: 15th Feb 2024'', ''To: 14th Mar 2024''] @ [''01 MAR 29 FEB TAXI 9.50'']) =
        Inl TypeError"
    by (simp only: parse_emiratesislamic_lines_append leap_year_period)
       (simp add: leap_day_line)
  then have "parse_emiratesislamic_pages emiratesislamic_init
      [Some ''From: 15th Feb 2024\<newline>To: 14th Mar 2024\<newline>01 MAR 29 FEB TAXI 9.50''] = Inl TypeError"
    by (simp only: parse_emiratesislamic_pages_lines leap_day_page_lines append.simps)
  then have "parse_emiratesislamic
      (PdfPages [Some ''From: 15th Feb 2024\<newline>To: 14th Mar 2024\<newline>01 MAR 29 FEB TAXI 9.50'']) =
      Inl TypeError"
    by (simp add: parse_emiratesislamic_def del: parse_emiratesislamic_pages.simps)
  with run leap_day_strptime leap_year_period show ?thesis
    by simp
qed

text \<open>
  C4 (as amended). \<open>st\<close> are the variables of the loop with both boundaries set, to the
  ISO texts of the dates \<open>fdt\<close> and \<open>tdt\<close>; \<open>raw\<close> is a transaction line (\<^verbatim>\<open>LINE_REGEX\<close>
  matches it, and the tests before it pass over it) whose day and month \<^verbatim>\<open>strptime\<close>
  reads in the format \<^verbatim>\<open>%d %b\<close>, as the date \<open>dm\<close> of the year 1900. Then the line
  appends one transaction, and its \<^verbatim>\<open>transaction_date\<close> is that day and month in the
  year of the to-boundary, except that it is in the year of the from-boundary when the
  month of the to-boundary is before June and the month of the transaction is after June.
\<close>

theorem transaction_year_resolution:
  assumes from_set: "statement_from st = Some (isoformat fdt)"
    and from_date: "make_date fy fm fd = Inr fdt"
    and to_set: "statement_to st = Some (isoformat tdt)"
    and to_date: "make_date ty tm td = Inr tdt"
    and noskip: "\<not> any_in emiratesislamic_SKIP_KEYWORDS (lower raw)"
    and nolabel: "re_match FROM_TO_REGEX raw = None"
    and nomarker: "\<not> truthy (normalize_range_token raw)"
    and nodate: "\<not> (truthy (pending_range st) \<and> truthy (parse_full_date raw))"
    and matched: "re_match LINE_REGEX raw = Some (rest, c)"
    and day_month: "c 2 = Some txn_date_raw"
    and reads: "strptime (strip txn_date_raw) ''%d %b'' = Inr dm"
  shows "\<exists>t. parse_emiratesislamic_line st raw =
               Inr (st\<lparr>transactions := transactions st @ [t]\<rparr>) \<and>
             transaction_date t =
               Some (strftime_ymd (dm\<lparr>year := if tm < 6 \<and> 6 < month dm then fy else ty\<rparr>))"
proof -
  from matched obtain desc where desc: "c 3 = Some desc"
    using LINE_REGEX_groups(2) by blast
  let ?date = "strftime_ymd (dm\<lparr>year := if tm < 6 \<and> 6 < month dm then fy else ty\<rparr>)"
  have year: "both_set_year (normalize_date (strip txn_date_raw) ''%d %b'')
                (Some (isoformat fdt)) (Some (isoformat tdt)) = Inr (Some ?date)"
    using from_date to_date reads by (rule both_set_year_day_month)
  then obtain t where t: "emiratesislamic_transaction (statement_from st) (statement_to st) c = Inr t"
    and d: "transaction_date t = Some ?date"
    by (simp add: emiratesislamic_transaction_def Let_def desc day_month from_set to_set
        del: both_set_year.simps)
  from nodate have "\<not> truthy (pending_range st) \<or> \<not> truthy (parse_full_date raw)"
    by simp
  with noskip nolabel nomarker matched t
  have "parse_emiratesislamic_line st raw = Inr (st\<lparr>transactions := transactions st @ [t]\<rparr>)"
    by (auto simp: parse_emiratesislamic_line_def Let_def)
  with d show ?thesis
    by blast
qed

text \<open>
  With the period 2024-12-15 to 2025-01-14, the line of a transaction of \<^verbatim>\<open>14 AUG\<close> gets
  the date 2024-08-14 and that of \<^verbatim>\<open>14 JAN\<close> the date 2025-01-14.
\<close>

lemma line_august:
  "\<not> any_in emiratesislamic_SKIP_KEYWORDS (lower ''16 AUG 14 AUG TAXI 9.50'') \<and>
   re_match FROM_TO_REGEX ''16 AUG 14 AUG TAXI 9.50'' = None \<and>
   normalize_range_token ''16 AUG 14 AUG TAXI 9.50'' = None \<and>
   re_match LINE_REGEX ''16 AUG 14 AUG TAXI 9.50'' =
     Some ([], [1 \<mapsto> ''16 AUG'', 2 \<mapsto> ''14 AUG'', 3 \<mapsto> ''TAXI'', 4 \<mapsto> ''9.50''])"
  by (simp add: base_eval emiratesislamic_eval cong: rx_match_cong)

lemma line_january:
  "\<not> any_in emiratesislamic_SKIP_KEYWORDS (lower ''16 JAN 14 JAN TAXI 9.50'') \<and>
   re_match FROM_TO_REGEX ''16 JAN 14 JAN TAXI 9.50'' = None \<and>
   normalize_range_token ''16 JAN 14 JAN TAXI 9.50'' = None \<and>
   re_match LINE_REGEX ''16 JAN 14 JAN TAXI 9.50'' =
     Some ([], [1 \<mapsto> ''16 JAN'', 2 \<mapsto> ''14 JAN'', 3 \<mapsto> ''TAXI'', 4 \<mapsto> ''9.50''])"
  by (simp add: base_eval emiratesislamic_eval cong: rx_match_cong)

lemma day_month_14_AUG:
  "strptime (strip ''14 AUG'') ''%d %b'' = Inr \<lparr>year = 1900, month = 8, day = 14\<rparr>"
  by (simp add: base_eval cong: rx_match_cong)

lemma day_month_14_JAN:
  "strptime (strip ''14 JAN'') ''%d %b'' = Inr \<lparr>year = 1900, month = 1, day = 14\<rparr>"
  by (simp add: base_eval cong: rx_match_cong)

lemma year_boundary_dates:
  "make_date 2024 12 15 = Inr \<lparr>year = 2024, month = 12, day = 15\<rparr>"
  "make_date 2025 1 14 = Inr \<lparr>year = 2025, month = 1, day = 14\<rparr>"
  "isoformat \<lparr>year = 2024, month = 12, day = 15\<rparr> = ''2024-12-15''"
  "isoformat \<lparr>year = 2025, month = 1, day = 14\<rparr> = ''2025-01-14''"
  "strftime_ymd \<lparr>year = 2024, month = 8, day = 14\<rparr> = ''2024-08-14''"
  "strftime_ymd \<lparr>year = 2025, month = 1, day = 14\<rparr> = ''2025-01-14''"
  by (simp_all add: make_date_def days_in_month_def is_leap_def isoformat_def strftime_ymd_def
      year_unpadded_def pad4_def pad2_def digit_char_def char_of_def)

theorem transaction_year_resolution_witness:
  "(\<exists>t. parse_emiratesislamic_line
          \<lparr>transactions = [], statement_from = Some ''2024-12-15'',
           statement_to = Some ''2025-01-14'', pending_range = None\<rparr>
          ''16 AUG 14 AUG TAXI 9.50'' =
        Inr \<lparr>transactions = [t], statement_from = Some ''2024-12-15'',
             statement_to = Some ''2025-01-14'', pending_range = None\<rparr> \<and>
        transaction_date t = Some ''2024-08-14'') \<and>
   (\<exists>t. parse_emiratesislamic_line
          \<lparr>transactions = [], statement_from = Some ''2024-12-15'',
           statement_to = Some ''2025-01-14'', pending_range = None\<rparr>
          ''16 JAN 14 JAN TAXI 9.50'' =
        Inr \<lparr>transactions = [t], statement_from = Some ''2024-12-15'',
             statement_to = Some ''2025-01-14'', pending_range = None\<rparr> \<and>
        transaction_date t = Some ''2025-01-14'')"
proof -
  let ?st = "\<lparr>transactions = [], statement_from = Some ''2024-12-15'',
              statement_to = Some ''2025-01-14'', pending_range = None\<rparr>"
  let ?f = "\<lparr>year = 2024, month = 12, day = 15\<rparr>"
  let ?t = "\<lparr>year = 2025, month = 1, day = 14\<rparr>"
  let ?a = "[(1::nat) \<mapsto> ''16 AUG'', 2 \<mapsto> ''14 AUG'', 3 \<mapsto> ''TAXI'', 4 \<mapsto> ''9.50'']"
  let ?j = "[(1::nat) \<mapsto> ''16 JAN'', 2 \<mapsto> ''14 JAN'', 3 \<mapsto> ''TAXI'', 4 \<mapsto> ''9.50'']"
  have from_set: "statement_from ?st = Some (isoformat ?f)"
    and to_set: "statement_to ?st = Some (isoformat ?t)"
    by (simp_all add: year_boundary_dates)
  have nodate: "\<not> (truthy (pending_range ?st) \<and> truthy (parse_full_date raw))" for raw
    by simp
  have a2: "?a 2 = Some ''14 AUG''" and j2: "?j 2 = Some ''14 JAN''"
    by simp_all
  from line_august have august:
    "\<not> any_in emiratesislamic_SKIP_KEYWORDS (lower ''16 AUG 14 AUG TAXI 9.50'')"
    "re_match FROM_TO_REGEX ''16 AUG 14 AUG TAXI 9.50'' = None"
    "\<not> truthy (normalize_range_token ''16 AUG 14 AUG TAXI 9.50'')"
    "re_match LINE_REGEX ''16 AUG 14 AUG TAXI 9.50'' = Some ([], ?a)"
    by simp_all
  from line_january have january:
    "\<not> any_in emiratesislamic_SKIP_KEYWORDS (lower ''16 JAN 14 JAN TAXI 9.50'')"
    "re_match FROM_TO_REGEX ''16 JAN 14 JAN TAXI 9.50'' = None"
    "\<not> truthy (normalize_range_token ''16 JAN 14 JAN TAXI 9.50'')"
    "re_match LINE_REGEX ''16 JAN 14 JAN TAXI 9.50'' = Some ([], ?j)"
    by simp_all
  from transaction_year_resolution [OF from_set year_boundary_dates(1) to_set
      year_boundary_dates(2) august(1-3) nodate august(4) a2 day_month_14_AUG]
  have "\<exists>t. parse_emiratesislamic_line ?st ''16 AUG 14 AUG TAXI 9.50'' =
              Inr (?st\<lparr>transactions := transactions ?st @ [t]\<rparr>) \<and>
            transaction_date t = Some ''2024-08-14''"
    by (simp add: year_boundary_dates)
  moreover
  from transaction_year_resolution [OF from_set year_boundary_dates(1) to_set
      year_boundary_dates(2) january(1-3) nodate january(4) j2 day_month_14_JAN]
  have "\<exists>t. parse_emiratesislamic_line ?st ''16 JAN 14 JAN TAXI 9.50'' =
              Inr (?st\<lparr>transactions := transactions ?st @ [t]\<rparr>) \<and>
            transaction_date t = Some ''2025-01-14''"
    by (simp add: year_boundary_dates)
  ultimately show ?thesis
    by simp
qed

text \<open>The whole records of the two lines, after the two labelled lines of the period.\<close>

lemma year_boundary_period:
  "parse_emiratesislamic_lines emiratesislamic_init [''From: 15th Dec 2024'', ''To: 14th Jan 2025''] =
     Inr \<lparr>transactions = [], statement_from = Some ''2024-12-15'',
          statement_to = Some ''2025-01-14'', pending_range = None\<rparr>"
  by (simp add: base_eval emiratesislamic_eval cong: rx_match_cong)

lemma year_boundary_january:
  "parse_emiratesislamic_line
     \<lparr>transactions = [], statement_from = Some ''2024-12-15'',
      statement_to = Some ''2025-01-14'', pending_range = None\<rparr>
     ''16 JAN 14 JAN TAXI 9.50'' =
     Inr \<lparr>transactions =
            [\<lparr>transaction_date = Some ''2025-01-14'', description = ''TAXI'',
              debit = Fin 9.5, credit = Fin 0, amount = Fin 9.5, balance = None,
              bank = ''Emirates Islamic'', card_type = ''credit'',
              fx_currency = None, fx_amount = None, fx_rate = None\<rparr>],
          statement_from = Some ''2024-12-15'', statement_to = Some ''2025-01-14'',
          pending_range = None\<rparr>"
  by (simp add: base_eval emiratesislamic_eval cong: rx_match_cong)

lemma year_boundary_august:
  "parse_emiratesislamic_line
     \<lparr>transactions = [], statement_from = Some ''2024-12-15'',
      statement_to = Some ''2025-01-14'', pending_range = None\<rparr>
     ''16 AUG 14 AUG TAXI 9.50'' =
     Inr \<lparr>transactions =
            [\<lparr>transaction_date = Some ''2024-08-14'', description = ''TAXI'',
              debit = Fin 9.5, credit = Fin 0, amount = Fin 9.5, balance = None,
              bank = ''Emirates Islamic'', card_type = ''credit'',
              fx_currency = None, fx_amount = None, fx_rate = None\<rparr>],
          statement_from = Some ''2024-12-15'', statement_to = Some ''2025-01-14'',
          pending_range = None\<rparr>"
  by (simp add: base_eval emiratesislamic_eval cong: rx_match_cong)

end
